(* ===== verification/Agent_Prelude.thy ===== *)
theory Agent_Prelude
  imports Complex_Main "HOL-Library.Char_ord" "HOL-Library.List_Lexorder"
begin

text \<open>
  What every component shares: the exceptions of the program as a datatype, a procedure type
  that threads a state through code that may raise or may not return, the Python string
  operations the source calls, and the lemma collections the component proofs use.

  Strings are lists of code points below 256 (\<open>string\<close>); Python ints are \<open>int\<close>; the floats the
  source computes with (delays, clock readings) are exact rationals.
\<close>

section \<open>Lemma collections\<close>

named_theorems proc_simps \<open>how a procedure runs from a given state\<close>
named_theorems emits_intros \<open>which events a procedure can append to the trace\<close>
named_theorems keeps_intros \<open>which state predicates a procedure keeps\<close>
named_theorems journal_simps \<open>lookups after an operation of the command journal\<close>

section \<open>Exceptions\<close>

text \<open>
  The exceptions the source raises, catches or tells apart. \<open>GrpcRpcError c m\<close> is a
  \<open>grpc.RpcError\<close> whose \<open>code()\<close> is \<open>c\<close> (\<open>None\<close> when it has no \<open>code\<close>) and whose text is \<open>m\<close>; the
  \<open>Http\<close> constructors are the subclasses of \<open>httpx.HTTPError\<close> the retry predicates distinguish.
  \<open>CancelledError\<close> and \<open>SystemExit\<close> are the ones that are not an \<open>Exception\<close>;
  \<open>SystemExit\<close> holds its exit code as text.
\<close>

datatype grpc_status = UNAVAILABLE | NOT_FOUND | DEADLINE_EXCEEDED | UNKNOWN | OTHER_STATUS string

datatype py_exc =
    GrpcRpcError "grpc_status option" string
  | HttpConnectError string
  | HttpConnectTimeout string
  | HttpStatusError string
  | HttpOtherError string
  | ContainerMakerClientError string
  | CloudClientError string
  | JSONDecodeError string
  | ValueError string
  | TypeError string
  | AttributeError string
  | KeyError string
  | AssertionError string
  | OtherException string
  | CancelledError
  | SystemExit string

text \<open>What \<open>except Exception\<close> catches.\<close>

fun is_exception :: "py_exc \<Rightarrow> bool" where
  "is_exception CancelledError = False"
| "is_exception (SystemExit _) = False"
| "is_exception _ = True"

text \<open>\<open>isinstance(e, httpx.HTTPError)\<close>.\<close>

fun is_http_error :: "py_exc \<Rightarrow> bool" where
  "is_http_error (HttpConnectError _) = True"
| "is_http_error (HttpConnectTimeout _) = True"
| "is_http_error (HttpStatusError _) = True"
| "is_http_error (HttpOtherError _) = True"
| "is_http_error _ = False"

text \<open>\<open>isinstance(e, ValueError)\<close>: \<open>json.JSONDecodeError\<close> is a subclass.\<close>

fun is_value_error :: "py_exc \<Rightarrow> bool" where
  "is_value_error (JSONDecodeError _) = True"
| "is_value_error (ValueError _) = True"
| "is_value_error _ = False"

text \<open>Computations that only raise or return, one after the other.\<close>

fun sum_bind :: "py_exc + 'a \<Rightarrow> ('a \<Rightarrow> py_exc + 'b) \<Rightarrow> py_exc + 'b" where
  "sum_bind (Inl e) f = Inl e"
| "sum_bind (Inr a) f = f a"

text \<open>A list comprehension whose item expression may raise.\<close>

fun sum_map :: "('a \<Rightarrow> py_exc + 'b) \<Rightarrow> 'a list \<Rightarrow> py_exc + 'b list" where
  "sum_map f [] = Inr []"
| "sum_map f (x # xs) = sum_bind (f x) (\<lambda>y. sum_bind (sum_map f xs) (\<lambda>ys. Inr (y # ys)))"

text \<open>The verdict of a check: an exception or nothing.\<close>

fun verdict :: "py_exc option \<Rightarrow> py_exc + unit" where
  "verdict None = Inr ()"
| "verdict (Some e) = Inl e"

lemma sum_bind_Inr_iff: "sum_bind x f = Inr b \<longleftrightarrow> (\<exists>a. x = Inr a \<and> f a = Inr b)"
  by (cases x) simp_all

lemma sum_bind_Inl_iff: "sum_bind x f = Inl e \<longleftrightarrow> x = Inl e \<or> (\<exists>a. x = Inr a \<and> f a = Inl e)"
  by (cases x) auto

section \<open>Procedures\<close>

text \<open>
  A procedure takes a state and returns a value or an exception together with the state it
  leaves (an exception does not undo what was done before it); \<open>None\<close> is a run that never
  returns.
\<close>

type_synonym ('s, 'a) proc = "'s \<Rightarrow> ((py_exc + 'a) \<times> 's) option"

definition ret :: "'a \<Rightarrow> ('s, 'a) proc" where
  "ret a = (\<lambda>s. Some (Inr a, s))"

definition raise :: "py_exc \<Rightarrow> ('s, 'a) proc" where
  "raise e = (\<lambda>s. Some (Inl e, s))"

text \<open>Sequential composition: the rest runs only when the first part returned a value.\<close>

definition andThen :: "('s, 'a) proc \<Rightarrow> ('a \<Rightarrow> ('s, 'b) proc) \<Rightarrow> ('s, 'b) proc" where
  "andThen p f = (\<lambda>s. case p s of
       None \<Rightarrow> None
     | Some (Inl e, s') \<Rightarrow> Some (Inl e, s')
     | Some (Inr a, s') \<Rightarrow> f a s')"

text \<open>
  \<open>try: p except ...\<close>: the handler names what it does with an exception, \<open>None\<close> when no clause
  matches and the exception goes on.
\<close>

definition tryExcept :: "('s, 'a) proc \<Rightarrow> (py_exc \<Rightarrow> ('s, 'a) proc option) \<Rightarrow> ('s, 'a) proc" where
  "tryExcept p h = (\<lambda>s. case p s of
       None \<Rightarrow> None
     | Some (Inl e, s') \<Rightarrow> (case h e of None \<Rightarrow> Some (Inl e, s') | Some q \<Rightarrow> q s')
     | Some (Inr a, s') \<Rightarrow> Some (Inr a, s'))"

text \<open>A computed value or exception as a procedure.\<close>

definition lift_sum :: "py_exc + 'a \<Rightarrow> ('s, 'a) proc" where
  "lift_sum r = (\<lambda>s. Some (r, s))"

text \<open>
  \<open>try: x = p except P as e: ...\<close> followed by more code: the exception is handed on as a value, so
  that what follows is outside the \<open>try\<close>.
\<close>

definition catching :: "(py_exc \<Rightarrow> bool) \<Rightarrow> ('s, 'a) proc \<Rightarrow> ('s, py_exc + 'a) proc" where
  "catching P p =
     tryExcept (andThen p (\<lambda>a. ret (Inr a))) (\<lambda>e. if P e then Some (ret (Inl e)) else None)"

text \<open>\<open>try: p finally: q\<close>: an exception of \<open>q\<close> replaces what \<open>p\<close> returned or raised.\<close>

definition ensuring :: "('s, 'a) proc \<Rightarrow> ('s, unit) proc \<Rightarrow> ('s, 'a) proc" where
  "ensuring p q = (\<lambda>s. case p s of
       None \<Rightarrow> None
     | Some (r, s') \<Rightarrow> (case q s' of
          None \<Rightarrow> None
        | Some (Inl e, s'') \<Rightarrow> Some (Inl e, s'')
        | Some (Inr _, s'') \<Rightarrow> Some (r, s'')))"

text \<open>Running a procedure on a part of a larger state.\<close>

definition on_part :: "('w \<Rightarrow> 's) \<Rightarrow> ('s \<Rightarrow> 'w \<Rightarrow> 'w) \<Rightarrow> ('s, 'a) proc \<Rightarrow> ('w, 'a) proc" where
  "on_part get put p = (\<lambda>w. case p (get w) of
       None \<Rightarrow> None
     | Some (r, s') \<Rightarrow> Some (r, put s' w))"

text \<open>A procedure that changes the state and returns nothing.\<close>

definition modify :: "('s \<Rightarrow> 's) \<Rightarrow> ('s, unit) proc" where
  "modify f = (\<lambda>s. Some (Inr (), f s))"

lemma ret_run [proc_simps, simp]: "ret a s = Some (Inr a, s)"
  by (simp add: ret_def)

lemma raise_run [proc_simps, simp]: "raise e s = Some (Inl e, s)"
  by (simp add: raise_def)

lemma lift_sum_run [proc_simps, simp]: "lift_sum r s = Some (r, s)"
  by (simp add: lift_sum_def)

lemma modify_run [proc_simps, simp]: "modify f s = Some (Inr (), f s)"
  by (simp add: modify_def)

lemma andThen_run_value [proc_simps]: "p s = Some (Inr a, s') \<Longrightarrow> andThen p f s = f a s'"
  by (simp add: andThen_def)

lemma andThen_run_error [proc_simps]: "p s = Some (Inl e, s') \<Longrightarrow> andThen p f s = Some (Inl e, s')"
  by (simp add: andThen_def)

lemma andThen_ret [simp]: "andThen (ret a) f = f a"
  by (simp add: andThen_def fun_eq_iff)

lemma andThen_raise [simp]: "andThen (raise e) f = raise e"
  by (simp add: andThen_def raise_def)

lemma andThen_lift_sum [simp]:
  "andThen (lift_sum r) f = (case r of Inl e \<Rightarrow> raise e | Inr a \<Rightarrow> f a)"
  by (auto simp: andThen_def fun_eq_iff split: sum.splits)

lemma andThen_assoc: "andThen (andThen p f) g = andThen p (\<lambda>a. andThen (f a) g)"
  by (auto simp: andThen_def fun_eq_iff split: option.splits sum.splits)

lemma tryExcept_ret [simp]: "tryExcept (ret a) h = ret a"
  by (simp add: tryExcept_def fun_eq_iff)

lemma tryExcept_raise:
  "tryExcept (raise e) h = (case h e of None \<Rightarrow> raise e | Some q \<Rightarrow> q)"
  by (auto simp: tryExcept_def fun_eq_iff split: option.splits)

lemma andThen_cases:
  assumes "andThen p f s = Some (r, s'')"
  obtains (raised) e where "p s = Some (Inl e, s'')" and "r = Inl e"
  | (returned) a s' where "p s = Some (Inr a, s')" and "f a s' = Some (r, s'')"
  using assms by (auto simp: andThen_def split: option.splits sum.splits)

lemma tryExcept_cases:
  assumes "tryExcept p h s = Some (r, s'')"
  obtains (returned) a where "p s = Some (Inr a, s'')" and "r = Inr a"
  | (passed) e where "p s = Some (Inl e, s'')" and "h e = None" and "r = Inl e"
  | (handled) e s' q where "p s = Some (Inl e, s')" and "h e = Some q" and "q s' = Some (r, s'')"
  using assms by (auto simp: tryExcept_def split: option.splits sum.splits)

lemma catching_run:
  "catching P p s = (case p s of
       None \<Rightarrow> None
     | Some (Inl e, s') \<Rightarrow> Some (if P e then Inr (Inl e) else Inl e, s')
     | Some (Inr a, s') \<Rightarrow> Some (Inr (Inr a), s'))"
  by (auto simp: catching_def tryExcept_def andThen_def split: option.splits sum.splits)

subsection \<open>Procedures that always return\<close>

definition total_proc :: "('s, 'a) proc \<Rightarrow> bool" where
  "total_proc p \<longleftrightarrow> (\<forall>s. p s \<noteq> None)"

lemma total_procD: "total_proc p \<Longrightarrow> \<exists>r s'. p s = Some (r, s')"
  by (auto simp: total_proc_def)

lemma total_ret [intro, simp]: "total_proc (ret a)"
  by (simp add: total_proc_def)

lemma total_raise [intro, simp]: "total_proc (raise e)"
  by (simp add: total_proc_def)

lemma total_lift_sum [intro, simp]: "total_proc (lift_sum r)"
  by (simp add: total_proc_def)

lemma total_andThen [intro]:
  "total_proc p \<Longrightarrow> (\<And>a. total_proc (f a)) \<Longrightarrow> total_proc (andThen p f)"
  by (auto simp: total_proc_def andThen_def split: option.splits sum.splits)

lemma total_tryExcept [intro]:
  "total_proc p \<Longrightarrow> (\<And>e q. h e = Some q \<Longrightarrow> total_proc q) \<Longrightarrow> total_proc (tryExcept p h)"
  by (auto simp: total_proc_def tryExcept_def split: option.splits sum.splits)

lemma total_catching [intro]: "total_proc p \<Longrightarrow> total_proc (catching P p)"
  by (auto simp: total_proc_def catching_run split: option.splits sum.splits)

subsection \<open>Procedures over a trace: which events they append\<close>

text \<open>
  A procedure \<open>appends\<close> events of a kind when each of its runs only appends such events to the list that a
  part of its state is; it \<open>emits\<close> them when its state is that list.
\<close>

definition appends :: "('s \<Rightarrow> 'e list) \<Rightarrow> ('e \<Rightarrow> bool) \<Rightarrow> ('s, 'a) proc \<Rightarrow> bool" where
  "appends sel A p \<longleftrightarrow> (\<forall>s r s'. p s = Some (r, s') \<longrightarrow> (\<exists>es. sel s' = sel s @ es \<and> list_all A es))"

abbreviation emits :: "('e \<Rightarrow> bool) \<Rightarrow> ('e list, 'a) proc \<Rightarrow> bool" where
  "emits A p \<equiv> appends (\<lambda>t. t) A p"

lemma appendsD: "appends sel A p \<Longrightarrow> p s = Some (r, s') \<Longrightarrow> \<exists>es. sel s' = sel s @ es \<and> list_all A es"
  by (auto simp: appends_def)

lemmas emits_def = appends_def [where sel = "\<lambda>t. t"]
lemmas emitsD = appendsD [where sel = "\<lambda>t. t"]

lemma appends_none:
  "(\<And>s r s'. p s = Some (r, s') \<Longrightarrow> sel s' = sel s) \<Longrightarrow> appends sel A p"
  unfolding appends_def by (metis append_Nil2 list.pred_inject(1))

lemma appends_ret [emits_intros]: "appends sel A (ret a)"
  by (rule appends_none) simp

lemma appends_raise [emits_intros]: "appends sel A (raise e)"
  by (rule appends_none) simp

lemma appends_lift_sum [emits_intros]: "appends sel A (lift_sum r)"
  by (rule appends_none) simp

lemma appends_modify: "(\<And>s. sel (f s) = sel s) \<Longrightarrow> appends sel A (modify f)"
  by (rule appends_none) auto

lemma appends_trans:
  "\<exists>es. u = t @ es \<and> list_all A es \<Longrightarrow> \<exists>es. v = u @ es \<and> list_all A es \<Longrightarrow> \<exists>es. v = t @ es \<and> list_all A es"
  by auto

lemma appends_andThen [emits_intros]:
  assumes "appends sel A p" and "\<And>a. appends sel A (f a)"
  shows "appends sel A (andThen p f)"
  unfolding appends_def
proof (intro allI impI)
  fix s r s''
  assume "andThen p f s = Some (r, s'')"
  then show "\<exists>es. sel s'' = sel s @ es \<and> list_all A es"
  proof (cases rule: andThen_cases)
    case (raised e)
    from appendsD [OF assms(1) raised(1)] show ?thesis .
  next
    case (returned a s')
    from appendsD [OF assms(1) returned(1)] appendsD [OF assms(2) returned(2)] show ?thesis by (rule appends_trans)
  qed
qed

lemma appends_tryExcept [emits_intros]:
  assumes "appends sel A p" and "\<And>e q. h e = Some q \<Longrightarrow> appends sel A q"
  shows "appends sel A (tryExcept p h)"
  unfolding appends_def
proof (intro allI impI)
  fix s r s''
  assume "tryExcept p h s = Some (r, s'')"
  then show "\<exists>es. sel s'' = sel s @ es \<and> list_all A es"
  proof (cases rule: tryExcept_cases)
    case (handled e s' q)
    from appendsD [OF assms(1) handled(1)] appendsD [OF assms(2) [OF handled(2)] handled(3)] show ?thesis
      by (rule appends_trans)
  qed (use appendsD [OF assms(1)] in blast)+
qed

lemma emits_catching [emits_intros]: "emits A p \<Longrightarrow> emits A (catching P p)"
  unfolding catching_def by (auto intro!: emits_intros split: if_splits)

lemma appends_case_sum [emits_intros]:
  "(\<And>a. appends sel A (f a)) \<Longrightarrow> (\<And>b. appends sel A (g b)) \<Longrightarrow>
    appends sel A (case x of Inl a \<Rightarrow> f a | Inr b \<Rightarrow> g b)"
  by (cases x) simp_all

lemma appends_if [emits_intros]: "appends sel A p \<Longrightarrow> appends sel A q \<Longrightarrow> appends sel A (if b then p else q)"
  by simp

lemma appends_mono: "appends sel A p \<Longrightarrow> (\<And>e. A e \<Longrightarrow> B e) \<Longrightarrow> appends sel B p"
  unfolding appends_def by (metis list.pred_mono_strong)

lemmas emits_mono = appends_mono [where sel = "\<lambda>t. t"]

subsection \<open>Procedures that keep a predicate of the state\<close>

definition keeps :: "('s \<Rightarrow> bool) \<Rightarrow> ('s, 'a) proc \<Rightarrow> bool" where
  "keeps I p \<longleftrightarrow> (\<forall>s r s'. p s = Some (r, s') \<longrightarrow> I s \<longrightarrow> I s')"

lemma keepsI: "(\<And>s r s'. p s = Some (r, s') \<Longrightarrow> I s \<Longrightarrow> I s') \<Longrightarrow> keeps I p"
  by (simp add: keeps_def)

lemma keepsD: "keeps I p \<Longrightarrow> p s = Some (r, s') \<Longrightarrow> I s \<Longrightarrow> I s'"
  unfolding keeps_def by blast

lemma keeps_ret [keeps_intros]: "keeps I (ret a)"
  by (simp add: keeps_def)

lemma keeps_raise [keeps_intros]: "keeps I (raise e)"
  by (simp add: keeps_def)

lemma keeps_modify [keeps_intros]: "(\<And>s. I s \<Longrightarrow> I (f s)) \<Longrightarrow> keeps I (modify f)"
  by (simp add: keeps_def)

lemma keeps_andThen [keeps_intros]:
  assumes "keeps I p" and "\<And>a. keeps I (f a)"
  shows "keeps I (andThen p f)"
proof (rule keepsI)
  fix s r s'
  assume "andThen p f s = Some (r, s')" and I: "I s"
  then show "I s'"
    by (cases rule: andThen_cases) (use I in \<open>blast dest: keepsD [OF assms(1)] keepsD [OF assms(2)]\<close>)+
qed

lemma keeps_tryExcept [keeps_intros]:
  assumes "keeps I p" and "\<And>e q. h e = Some q \<Longrightarrow> keeps I q"
  shows "keeps I (tryExcept p h)"
proof (rule keepsI)
  fix s r s'
  assume "tryExcept p h s = Some (r, s')" and I: "I s"
  then show "I s'"
    by (cases rule: tryExcept_cases) (use I in \<open>blast dest: keepsD [OF assms(1)] keepsD [OF assms(2)]\<close>)+
qed

section \<open>Simulation\<close>

text \<open>
  A machine with an invariant whose steps are runs of an abstract machine: so are its runs. The client sees the
  abstract machine only.
\<close>

locale forward_simulation =
  fixes step :: "'c \<Rightarrow> 'c \<Rightarrow> bool"
    and spec :: "'a \<Rightarrow> 'a \<Rightarrow> bool"
    and abs :: "'c \<Rightarrow> 'a"
    and inv :: "'c \<Rightarrow> bool"
  assumes step_inv: "step c c' \<Longrightarrow> inv c \<Longrightarrow> inv c'"
    and step_sim: "step c c' \<Longrightarrow> inv c \<Longrightarrow> spec\<^sup>*\<^sup>* (abs c) (abs c')"
begin

lemma run_inv: "step\<^sup>*\<^sup>* c c' \<Longrightarrow> inv c \<Longrightarrow> inv c'"
  by (induction rule: rtranclp_induct) (auto intro: step_inv)

lemma run_sim: "step\<^sup>*\<^sup>* c c' \<Longrightarrow> inv c \<Longrightarrow> spec\<^sup>*\<^sup>* (abs c) (abs c')"
proof (induction rule: rtranclp_induct)
  case (step c1 c2)
  then have "spec\<^sup>*\<^sup>* (abs c1) (abs c2)" using step_sim run_inv by blast
  with step show ?case by (metis rtranclp_trans)
qed simp

text \<open>What the runs of the abstract machine keep, the runs of this one keep.\<close>

lemma run_transfers:
  assumes "step\<^sup>*\<^sup>* c c'" and "inv c" and "\<And>x y. spec\<^sup>*\<^sup>* x y \<Longrightarrow> P x \<Longrightarrow> P y" and "P (abs c)"
  shows "P (abs c')"
  using assms run_sim by blast

end

section \<open>Python strings\<close>

text \<open>\<open>s.split(c)\<close> for a one-character separator: never the empty list.\<close>

fun py_split :: "char \<Rightarrow> string \<Rightarrow> string list" where
  "py_split c [] = [[]]"
| "py_split c (x # xs) =
     (if x = c then [] # py_split c xs
      else (case py_split c xs of [] \<Rightarrow> [[x]] | w # ws \<Rightarrow> (x # w) # ws))"

text \<open>\<open>sep.join(ws)\<close>.\<close>

fun py_join :: "string \<Rightarrow> string list \<Rightarrow> string" where
  "py_join sep [] = []"
| "py_join sep [w] = w"
| "py_join sep (w # v # ws) = w @ sep @ py_join sep (v # ws)"

text \<open>
  \<open>s.isdigit()\<close>: non-empty and digits only. Below code point 256 the digits are 0 to 9 and the
  superscripts two, three and one (0xB2, 0xB3, 0xB9).
\<close>

definition is_ascii_digit :: "char \<Rightarrow> bool" where
  "is_ascii_digit c \<longleftrightarrow> 48 \<le> (of_char c :: nat) \<and> (of_char c :: nat) \<le> 57"

definition py_digit_char :: "char \<Rightarrow> bool" where
  "py_digit_char c \<longleftrightarrow> is_ascii_digit c \<or> (of_char c :: nat) \<in> {178, 179, 185}"

definition py_isdigit :: "string \<Rightarrow> bool" where
  "py_isdigit s \<longleftrightarrow> s \<noteq> [] \<and> list_all py_digit_char s"

text \<open>\<open>s.strip()\<close>: the white space below code point 256.\<close>

definition py_space :: "char \<Rightarrow> bool" where
  "py_space c \<longleftrightarrow> (let n = (of_char c :: nat) in
     (9 \<le> n \<and> n \<le> 13) \<or> (28 \<le> n \<and> n \<le> 32) \<or> n = 133 \<or> n = 160)"

definition py_strip :: "string \<Rightarrow> string" where
  "py_strip s = rev (dropWhile py_space (rev (dropWhile py_space s)))"

text \<open>\<open>s.lower()\<close> below code point 256: A to Z and the accented capitals 0xC0 to 0xDE without 0xD7.\<close>

definition py_lower_char :: "char \<Rightarrow> char" where
  "py_lower_char c =
     (let n = (of_char c :: nat) in
      if (65 \<le> n \<and> n \<le> 90) \<or> (192 \<le> n \<and> n \<le> 222 \<and> n \<noteq> 215) then char_of (n + 32) else c)"

definition py_lower :: "string \<Rightarrow> string" where
  "py_lower s = map py_lower_char s"

text \<open>\<open>sub in s\<close>.\<close>

fun py_contains :: "string \<Rightarrow> string \<Rightarrow> bool" where
  "py_contains sub [] \<longleftrightarrow> sub = []"
| "py_contains sub (x # xs) \<longleftrightarrow> take (length sub) (x # xs) = sub \<or> py_contains sub xs"

text \<open>\<open>s or ''\<close> for an optional string.\<close>

fun str_or_empty :: "string option \<Rightarrow> string" where
  "str_or_empty None = []"
| "str_or_empty (Some s) = s"

lemma py_split_not_Nil [simp]: "py_split c s \<noteq> []"
  by (induction s) (auto split: list.splits)

lemma py_split_no_sep: "c \<notin> set s \<Longrightarrow> py_split c s = [s]"
  by (induction s) auto

lemma py_split_append: "py_split c (s @ c # t) = py_split c s @ py_split c t"
  by (induction s) (auto split: list.splits simp: neq_Nil_conv)

lemma py_join_append:
  "us \<noteq> [] \<Longrightarrow> vs \<noteq> [] \<Longrightarrow> py_join sep (us @ vs) = py_join sep us @ sep @ py_join sep vs"
  by (induction sep us rule: py_join.induct) (auto simp: neq_Nil_conv)

text \<open>Joining what \<open>split\<close> produced gives the string back.\<close>

lemma py_join_split: "py_join [c] (py_split c s) = s"
proof (induction s)
  case (Cons x s)
  obtain w ws where "py_split c s = w # ws"
    by (cases "py_split c s") auto
  with Cons show ?case by (cases ws) auto
qed simp

lemma py_contains_append: "py_contains sub (u @ sub @ v)"
proof (induction u)
  case Nil
  show ?case by (cases sub; cases v) auto
next
  case (Cons a u)
  then show ?case by simp
qed

lemma py_lower_append [simp]: "py_lower (s @ t) = py_lower s @ py_lower t"
  by (simp add: py_lower_def)

end
