(* ===== verification/Json.thy ===== *)
theory Json
  imports Agent_Prelude
begin

text \<open>
  The JSON values the agent reads and writes, with Python's \<open>json.loads\<close> and \<open>json.dumps\<close> (default
  arguments) as executable definitions, truthiness, and the three ways the source looks a key up:
  \<open>k in v\<close>, \<open>v[k]\<close> and \<open>v.get(k, d)\<close>, each raising where Python raises on a value that is not a
  dict. Objects are association lists in insertion order. A float is kept as its source text.

  Bounds: text is a list of code points below 256, so a \<open>\u\<close> escape of a higher code point is not
  decoded; Python's recursion limit and its limit on the digits of an int are not modelled.

  The lemmas end in the interface \<open>json_codec\<close>: decoding what was encoded gives the value back,
  for every value whose objects have distinct keys and whose floats are texts that \<open>json.dumps\<close> prints.
\<close>

section \<open>Values\<close>

datatype json =
    JNull
  | JBool bool
  | JInt int
  | JFloat string
  | JStr string
  | JArr "json list"
  | JObj "(string \<times> json) list"

text \<open>\<open>bool(v)\<close>. A float is falsy when its mantissa has zeros only.\<close>

fun py_truthy :: "json \<Rightarrow> bool" where
  "py_truthy JNull = False"
| "py_truthy (JBool b) = b"
| "py_truthy (JInt i) = (i \<noteq> 0)"
| "py_truthy (JFloat s) =
     (\<not> list_all (\<lambda>c. c \<in> set ''-0.'') (takeWhile (\<lambda>c. c \<notin> set ''eE'') s))"
| "py_truthy (JStr s) = (s \<noteq> [])"
| "py_truthy (JArr vs) = (vs \<noteq> [])"
| "py_truthy (JObj kvs) = (kvs \<noteq> [])"

text \<open>\<open>d[k] = v\<close>: an existing key keeps its place.\<close>

fun dict_set :: "string \<Rightarrow> json \<Rightarrow> (string \<times> json) list \<Rightarrow> (string \<times> json) list" where
  "dict_set k v [] = [(k, v)]"
| "dict_set k v ((k', v') # kvs) =
     (if k' = k then (k, v) # kvs else (k', v') # dict_set k v kvs)"

lemma map_of_dict_set: "map_of (dict_set k v kvs) = (map_of kvs)(k \<mapsto> v)"
  by (induction k v kvs rule: dict_set.induct) (auto simp: fun_eq_iff)

lemma dict_set_new: "k \<notin> fst ` set kvs \<Longrightarrow> dict_set k v kvs = kvs @ [(k, v)]"
  by (induction k v kvs rule: dict_set.induct) auto

text \<open>\<open>type(v).__name__\<close>, and a word in single quotes, for the messages of Python's own exceptions.\<close>

fun type_name :: "json \<Rightarrow> string" where
  "type_name JNull = ''NoneType''"
| "type_name (JBool _) = ''bool''"
| "type_name (JInt _) = ''int''"
| "type_name (JFloat _) = ''float''"
| "type_name (JStr _) = ''str''"
| "type_name (JArr _) = ''list''"
| "type_name (JObj _) = ''dict''"

abbreviation quoted :: "string \<Rightarrow> string" where
  "quoted s \<equiv> CHR 0x27 # s @ [CHR 0x27]"

text \<open>\<open>k in v\<close> for a string \<open>k\<close>.\<close>

fun py_in :: "string \<Rightarrow> json \<Rightarrow> py_exc + bool" where
  "py_in k (JObj kvs) = Inr (map_of kvs k \<noteq> None)"
| "py_in k (JArr vs) = Inr (JStr k \<in> set vs)"
| "py_in k (JStr s) = Inr (py_contains k s)"
| "py_in k v = Inl (TypeError (''argument of type '' @ quoted (type_name v) @ '' is not iterable''))"

text \<open>\<open>v[k]\<close> for a string \<open>k\<close>.\<close>

fun py_getitem :: "string \<Rightarrow> json \<Rightarrow> py_exc + json" where
  "py_getitem k (JObj kvs) = (case map_of kvs k of None \<Rightarrow> Inl (KeyError k) | Some v \<Rightarrow> Inr v)"
| "py_getitem k (JArr _) = Inl (TypeError ''list indices must be integers or slices, not str'')"
| "py_getitem k (JStr _) = Inl (TypeError (''string indices must be integers, not '' @ quoted ''str''))"
| "py_getitem k v = Inl (TypeError (quoted (type_name v) @ '' object is not subscriptable''))"

text \<open>\<open>v.get(k, d)\<close>: only a dict has \<open>get\<close>.\<close>

fun py_get :: "string \<Rightarrow> json \<Rightarrow> json \<Rightarrow> py_exc + json" where
  "py_get k d (JObj kvs) = Inr (case map_of kvs k of None \<Rightarrow> d | Some v \<Rightarrow> v)"
| "py_get k d v = Inl (AttributeError (quoted (type_name v) @ '' object has no attribute '' @ quoted ''get''))"

text \<open>\<open>for p in v\<close>: the items of a list, the keys of a dict, the characters of a string.\<close>

fun py_iter :: "json \<Rightarrow> py_exc + json list" where
  "py_iter (JArr vs) = Inr vs"
| "py_iter (JObj kvs) = Inr (map (\<lambda>kv. JStr (fst kv)) kvs)"
| "py_iter (JStr s) = Inr (map (\<lambda>c. JStr [c]) s)"
| "py_iter v = Inl (TypeError (quoted (type_name v) @ '' object is not iterable''))"

text \<open>An optional string as a value.\<close>

fun json_of_opt :: "string option \<Rightarrow> json" where
  "json_of_opt None = JNull"
| "json_of_opt (Some s) = JStr s"

section \<open>Encoding\<close>

abbreviation quote_char :: char where
  "quote_char \<equiv> CHR 0x22"

abbreviation backslash_char :: char where
  "backslash_char \<equiv> CHR 0x5C"

definition digit_char :: "nat \<Rightarrow> char" where
  "digit_char d = char_of (48 + d)"

fun show_nat :: "nat \<Rightarrow> string" where
  "show_nat n = (if n < 10 then [digit_char n] else show_nat (n div 10) @ [digit_char (n mod 10)])"

declare show_nat.simps [simp del]

definition show_int :: "int \<Rightarrow> string" where
  "show_int i = (if i < 0 then CHR ''-'' # show_nat (nat (- i)) else show_nat (nat i))"

definition hex_char :: "nat \<Rightarrow> char" where
  "hex_char d = char_of (if d < 10 then 48 + d else 87 + d)"

text \<open>One character of a string, as \<open>ensure_ascii\<close> writes it.\<close>

definition escape_char :: "char \<Rightarrow> string" where
  "escape_char c =
     (let n = (of_char c :: nat) in
      if n = 34 then [backslash_char, quote_char]
      else if n = 92 then [backslash_char, backslash_char]
      else if n = 10 then [backslash_char, CHR ''n'']
      else if n = 13 then [backslash_char, CHR ''r'']
      else if n = 9 then [backslash_char, CHR ''t'']
      else if n = 12 then [backslash_char, CHR ''f'']
      else if n = 8 then [backslash_char, CHR ''b'']
      else if 32 \<le> n \<and> n \<le> 126 then [c]
      else [backslash_char, CHR ''u'', CHR ''0'', CHR ''0'', hex_char (n div 16), hex_char (n mod 16)])"

definition dumps_str :: "string \<Rightarrow> string" where
  "dumps_str s = quote_char # concat (map escape_char s) @ [quote_char]"

fun json_dumps :: "json \<Rightarrow> string" where
  "json_dumps JNull = ''null''"
| "json_dumps (JBool b) = (if b then ''true'' else ''false'')"
| "json_dumps (JInt i) = show_int i"
| "json_dumps (JFloat s) = s"
| "json_dumps (JStr s) = dumps_str s"
| "json_dumps (JArr vs) = ''['' @ py_join '', '' (map json_dumps vs) @ '']''"
| "json_dumps (JObj kvs) =
     ''{'' @ py_join '', '' (map (\<lambda>(k, v). dumps_str k @ '': '' @ json_dumps v) kvs) @ ''}''"

section \<open>\<open>str\<close> of a value\<close>

text \<open>
  \<open>repr\<close> and \<open>str\<close> of a decoded value. A string is quoted with double quotes only when it has a
  single quote and no double quote.
\<close>

definition repr_char :: "char \<Rightarrow> char \<Rightarrow> string" where
  "repr_char q c =
     (let n = (of_char c :: nat) in
      if c = q \<or> n = 92 then [backslash_char, c]
      else if n = 10 then [backslash_char, CHR ''n'']
      else if n = 13 then [backslash_char, CHR ''r'']
      else if n = 9 then [backslash_char, CHR ''t'']
      else if n < 32 \<or> (127 \<le> n \<and> n \<le> 160) \<or> n = 173
      then [backslash_char, CHR ''x'', hex_char (n div 16), hex_char (n mod 16)]
      else [c])"

definition repr_str :: "string \<Rightarrow> string" where
  "repr_str s =
     (let q = (if CHR 0x27 \<in> set s \<and> quote_char \<notin> set s then quote_char else CHR 0x27)
      in q # concat (map (repr_char q) s) @ [q])"

fun py_repr :: "json \<Rightarrow> string" where
  "py_repr JNull = ''None''"
| "py_repr (JBool b) = (if b then ''True'' else ''False'')"
| "py_repr (JInt i) = show_int i"
| "py_repr (JFloat s) = s"
| "py_repr (JStr s) = repr_str s"
| "py_repr (JArr vs) = ''['' @ py_join '', '' (map py_repr vs) @ '']''"
| "py_repr (JObj kvs) =
     ''{'' @ py_join '', '' (map (\<lambda>(k, v). repr_str k @ '': '' @ py_repr v) kvs) @ ''}''"

fun py_str :: "json \<Rightarrow> string" where
  "py_str (JStr s) = s"
| "py_str v = py_repr v"

text \<open>\<open>str(e)\<close>; a \<open>KeyError\<close> shows the \<open>repr\<close> of its key. \<open>CloudClientError\<close> keeps its bare message in \<open>e.message\<close>.\<close>

fun exc_str :: "py_exc \<Rightarrow> string" where
  "exc_str (GrpcRpcError _ m) = m"
| "exc_str (HttpConnectError m) = m"
| "exc_str (HttpConnectTimeout m) = m"
| "exc_str (HttpStatusError m) = m"
| "exc_str (HttpOtherError m) = m"
| "exc_str (ContainerMakerClientError m) = m"
| "exc_str (CloudClientError m) = ''Cloud API error: '' @ m"
| "exc_str (JSONDecodeError m) = m"
| "exc_str (ValueError m) = m"
| "exc_str (TypeError m) = m"
| "exc_str (AttributeError m) = m"
| "exc_str (KeyError k) = repr_str k"
| "exc_str (AssertionError m) = m"
| "exc_str (OtherException m) = m"
| "exc_str CancelledError = []"
| "exc_str (SystemExit code) = code"

section \<open>Decoding\<close>

definition is_ws :: "char \<Rightarrow> bool" where
  "is_ws c \<longleftrightarrow> (of_char c :: nat) \<in> {32, 9, 10, 13}"

definition skip_ws :: "string \<Rightarrow> string" where
  "skip_ws s = dropWhile is_ws s"

definition hex_value :: "char \<Rightarrow> nat option" where
  "hex_value c =
     (let n = (of_char c :: nat) in
      if 48 \<le> n \<and> n \<le> 57 then Some (n - 48)
      else if 97 \<le> n \<and> n \<le> 102 then Some (n - 87)
      else if 65 \<le> n \<and> n \<le> 70 then Some (n - 55)
      else None)"

definition hex4 :: "string \<Rightarrow> nat option" where
  "hex4 s = (case map hex_value s of
       [Some a, Some b, Some c, Some d] \<Rightarrow> Some (((a * 16 + b) * 16 + c) * 16 + d)
     | _ \<Rightarrow> None)"

text \<open>The character after a backslash and what follows it.\<close>

definition unescape :: "string \<Rightarrow> (char \<times> string) option" where
  "unescape s = (case s of
       [] \<Rightarrow> None
     | c # cs \<Rightarrow>
        if c = quote_char \<or> c = backslash_char \<or> c = CHR ''/'' then Some (c, cs)
        else if c = CHR ''n'' then Some (char_of (10::nat), cs)
        else if c = CHR ''r'' then Some (char_of (13::nat), cs)
        else if c = CHR ''t'' then Some (char_of (9::nat), cs)
        else if c = CHR ''f'' then Some (char_of (12::nat), cs)
        else if c = CHR ''b'' then Some (char_of (8::nat), cs)
        else if c = CHR ''u'' then
          (case hex4 (take 4 cs) of
             None \<Rightarrow> None
           | Some n \<Rightarrow> if n < 256 then Some (char_of n, drop 4 cs) else None)
        else None)"

text \<open>The rest of a string after its opening quote; a raw control character is refused.\<close>

fun parse_str :: "nat \<Rightarrow> string \<Rightarrow> (string \<times> string) option" where
  "parse_str 0 s = None"
| "parse_str (Suc n) [] = None"
| "parse_str (Suc n) (c # cs) =
     (if c = quote_char then Some ([], cs)
      else if c = backslash_char then
        (case unescape cs of
           None \<Rightarrow> None
         | Some (d, ds) \<Rightarrow> map_option (apfst (Cons d)) (parse_str n ds))
      else if (of_char c :: nat) < 32 then None
      else map_option (apfst (Cons c)) (parse_str n cs))"

definition read_nat :: "string \<Rightarrow> nat" where
  "read_nat ds = foldl (\<lambda>n d. 10 * n + (of_char d - 48)) 0 ds"

definition split_digits :: "string \<Rightarrow> string \<times> string" where
  "split_digits s = (takeWhile is_ascii_digit s, dropWhile is_ascii_digit s)"

text \<open>\<open>(0|[1-9][0-9]*)\<close>, \<open>(\.[0-9]+)?\<close> and \<open>([eE][-+]?[0-9]+)?\<close>, as \<open>json.scanner.NUMBER_RE\<close> reads them.\<close>

definition scan_int :: "string \<Rightarrow> (string \<times> string) option" where
  "scan_int s = (case s of
       [] \<Rightarrow> None
     | c # cs \<Rightarrow> if c = CHR ''0'' then Some ([c], cs)
                else if is_ascii_digit c then Some (split_digits s) else None)"

definition scan_frac :: "string \<Rightarrow> string \<times> string" where
  "scan_frac s = (case s of
       [] \<Rightarrow> ([], s)
     | c # cs \<Rightarrow>
        (let (ds, r) = split_digits cs in
         if c = CHR ''.'' \<and> ds \<noteq> [] then (c # ds, r) else ([], s)))"

definition scan_exp :: "string \<Rightarrow> string \<times> string" where
  "scan_exp s = (case s of
       [] \<Rightarrow> ([], s)
     | c # cs \<Rightarrow>
        (let sgn = (case cs of [] \<Rightarrow> [] | d # _ \<Rightarrow> if d = CHR ''-'' \<or> d = CHR ''+'' then [d] else []);
             (ds, r) = split_digits (drop (length sgn) cs) in
         if (c = CHR ''e'' \<or> c = CHR ''E'') \<and> ds \<noteq> [] then (c # sgn @ ds, r) else ([], s)))"

definition parse_number :: "string \<Rightarrow> (json \<times> string) option" where
  "parse_number s =
     (let sgn = (case s of [] \<Rightarrow> [] | d # _ \<Rightarrow> if d = CHR ''-'' then [d] else []) in
      case scan_int (drop (length sgn) s) of
        None \<Rightarrow> None
      | Some (ds, r) \<Rightarrow>
         (let (frac, r1) = scan_frac r; (ex, r2) = scan_exp r1 in
          if frac = [] \<and> ex = []
          then Some (JInt (if sgn = [] then int (read_nat ds) else - int (read_nat ds)), r2)
          else Some (JFloat (sgn @ ds @ frac @ ex), r2)))"

fun parse_literal :: "(string \<times> json) list \<Rightarrow> string \<Rightarrow> (json \<times> string) option" where
  "parse_literal [] s = None"
| "parse_literal ((w, v) # wvs) s =
     (if take (length w) s = w then Some (v, drop (length w) s) else parse_literal wvs s)"

definition json_literals :: "(string \<times> json) list" where
  "json_literals =
     [(''null'', JNull), (''true'', JBool True), (''false'', JBool False), (''NaN'', JFloat ''NaN''),
      (''Infinity'', JFloat ''Infinity''), (''-Infinity'', JFloat ''-Infinity'')]"

definition parse_atom :: "string \<Rightarrow> (json \<times> string) option" where
  "parse_atom s = (case parse_literal json_literals s of Some r \<Rightarrow> Some r | None \<Rightarrow> parse_number s)"

text \<open>
  The recursive descent of \<open>json.scanner\<close> and \<open>json.decoder\<close>. The fuel is spent once per value,
  element or member; each of them reads at least one character, so the length of the text is
  enough (\<open>parse_value_dumps\<close> below proves it for encoded values).
\<close>

fun parse_value :: "nat \<Rightarrow> string \<Rightarrow> (json \<times> string) option"
  and parse_elems :: "nat \<Rightarrow> string \<Rightarrow> (json list \<times> string) option"
  and parse_members :: "nat \<Rightarrow> (string \<times> json) list \<Rightarrow> string \<Rightarrow> ((string \<times> json) list \<times> string) option"
where
  "parse_value 0 s = None"
| "parse_value (Suc n) [] = None"
| "parse_value (Suc n) (c # cs) =
     (if c = quote_char then map_option (apfst JStr) (parse_str (Suc (length cs)) cs)
      else if c = CHR ''{'' then
        (case skip_ws cs of
           [] \<Rightarrow> None
         | d # ds \<Rightarrow> if d = CHR ''}'' then Some (JObj [], ds)
                    else if d = quote_char then map_option (apfst JObj) (parse_members n [] ds)
                    else None)
      else if c = CHR ''['' then
        (case skip_ws cs of
           [] \<Rightarrow> None
         | d # ds \<Rightarrow> if d = CHR '']'' then Some (JArr [], ds)
                    else map_option (apfst JArr) (parse_elems n (d # ds)))
      else parse_atom (c # cs))"
| "parse_elems 0 s = None"
| "parse_elems (Suc n) s =
     (case parse_value n s of
        None \<Rightarrow> None
      | Some (v, r) \<Rightarrow>
         (case skip_ws r of
            [] \<Rightarrow> None
          | d # ds \<Rightarrow> if d = CHR '']'' then Some ([v], ds)
                     else if d = CHR '','' then map_option (apfst (Cons v)) (parse_elems n (skip_ws ds))
                     else None))"
| "parse_members 0 acc s = None"
| "parse_members (Suc n) acc s =
     (case parse_str (Suc (length s)) s of
        None \<Rightarrow> None
      | Some (k, r) \<Rightarrow>
         (case skip_ws r of
            [] \<Rightarrow> None
          | c # cs \<Rightarrow>
             if c \<noteq> CHR '':'' then None
             else (case parse_value n (skip_ws cs) of
                     None \<Rightarrow> None
                   | Some (v, r1) \<Rightarrow>
                      (case skip_ws r1 of
                         [] \<Rightarrow> None
                       | d # ds \<Rightarrow>
                          if d = CHR ''}'' then Some (dict_set k v acc, ds)
                          else if d = CHR '','' then
                            (case skip_ws ds of
                               [] \<Rightarrow> None
                             | q # qs \<Rightarrow> if q = quote_char
                                        then parse_members n (dict_set k v acc) qs else None)
                          else None))))"

definition json_loads :: "string \<Rightarrow> py_exc + json" where
  "json_loads s = (case parse_value (Suc (length s)) (skip_ws s) of
       None \<Rightarrow> Inl (JSONDecodeError ''Expecting value'')
     | Some (v, r) \<Rightarrow> if skip_ws r = [] then Inr v else Inl (JSONDecodeError ''Extra data''))"

section \<open>Decoding what was encoded\<close>

subsection \<open>Numbers\<close>

lemma of_char_digit: "d < 10 \<Longrightarrow> (of_char (digit_char d) :: nat) = 48 + d"
  by (simp add: digit_char_def of_char_of)

lemma digit_char_ascii: "d < 10 \<Longrightarrow> is_ascii_digit (digit_char d)"
  by (simp add: is_ascii_digit_def of_char_digit)

lemma show_nat_digits: "list_all is_ascii_digit (show_nat n)"
proof (induction n rule: show_nat.induct)
  case (1 n)
  then show ?case
    by (cases "n < 10") (simp_all add: show_nat.simps [of n] digit_char_ascii)
qed

lemma show_nat_not_Nil [simp]: "show_nat n \<noteq> []"
  by (simp add: show_nat.simps [of n])

lemma read_nat_snoc: "read_nat (xs @ [d]) = 10 * read_nat xs + (of_char d - 48)"
  by (simp add: read_nat_def)

lemma read_show_nat [simp]: "read_nat (show_nat n) = n"
proof (induction n rule: show_nat.induct)
  case (1 n)
  show ?case
  proof (cases "n < 10")
    case True
    then show ?thesis by (simp add: show_nat.simps [of n] read_nat_def of_char_digit)
  next
    case False
    with 1 have "read_nat (show_nat (n div 10)) = n div 10" by simp
    with False show ?thesis
      by (simp add: show_nat.simps [of n] read_nat_snoc of_char_digit)
  qed
qed

lemma hd_show_nat_zero: "hd (show_nat n) = CHR ''0'' \<Longrightarrow> n = 0"
proof (induction n rule: show_nat.induct)
  case (1 n)
  show ?case
  proof (cases "n < 10")
    case True
    with "1.prems" have "(of_char (digit_char n) :: nat) = of_char CHR ''0''"
      by (simp add: show_nat.simps [of n])
    with True show ?thesis by (simp add: of_char_digit)
  next
    case False
    with "1.prems" have "hd (show_nat (n div 10)) = CHR ''0''"
      by (simp add: show_nat.simps [of n])
    with "1.IH" False have "n div 10 = 0" by simp
    with False show ?thesis by simp
  qed
qed

text \<open>What may follow a value inside a document: nothing, a comma or a closing bracket.\<close>

definition value_end :: "string \<Rightarrow> bool" where
  "value_end r \<longleftrightarrow> r = [] \<or> hd r \<in> set '',]}''"

lemma value_end_Nil [simp]: "value_end []"
  by (simp add: value_end_def)

lemma value_end_close [simp]:
  "value_end (CHR '','' # r)" "value_end (CHR '']'' # r)" "value_end (CHR ''}'' # r)"
  by (simp_all add: value_end_def)

lemma split_digits_append:
  assumes "list_all is_ascii_digit ds" and "value_end r"
  shows "split_digits (ds @ r) = (ds, r)"
proof -
  have stop: "r = [] \<or> \<not> is_ascii_digit (hd r)"
    using assms(2) by (auto simp: value_end_def is_ascii_digit_def)
  have all: "\<And>x. x \<in> set ds \<Longrightarrow> is_ascii_digit x"
    using assms(1) by (auto simp: list_all_iff)
  then have "takeWhile is_ascii_digit (ds @ r) = ds @ takeWhile is_ascii_digit r"
    and "dropWhile is_ascii_digit (ds @ r) = dropWhile is_ascii_digit r"
    by (simp_all add: takeWhile_append2 dropWhile_append2)
  with stop show ?thesis
    by (cases r) (auto simp: split_digits_def)
qed

lemma scan_frac_end: "value_end r \<Longrightarrow> scan_frac r = ([], r)"
  by (cases r) (auto simp: scan_frac_def value_end_def split: prod.splits)

lemma scan_exp_end: "value_end r \<Longrightarrow> scan_exp r = ([], r)"
  by (cases r) (auto simp: scan_exp_def value_end_def Let_def split: prod.splits)

lemma scan_int_show:
  assumes "value_end r"
  shows "scan_int (show_nat n @ r) = Some (show_nat n, r)"
proof -
  obtain c cs where cs: "show_nat n = c # cs" by (cases "show_nat n") auto
  show ?thesis
  proof (cases "c = CHR ''0''")
    case True
    then have "n = 0" using hd_show_nat_zero [of n] cs by simp
    then have "show_nat n = [CHR ''0'']"
      by (simp add: show_nat.simps [of 0] digit_char_def char_of_eq_iff)
    then show ?thesis by (simp add: scan_int_def)
  next
    case False
    have "is_ascii_digit c" using show_nat_digits [of n] cs by simp
    with False show ?thesis
      using split_digits_append [OF show_nat_digits [of n] assms] cs by (simp add: scan_int_def)
  qed
qed

lemma show_nat_head: "\<exists>c cs. show_nat n = c # cs \<and> is_ascii_digit c"
  using show_nat_digits [of n] by (cases "show_nat n") auto

lemma digit_not_minus: "is_ascii_digit c \<Longrightarrow> c \<noteq> CHR ''-''"
  by (auto simp: is_ascii_digit_def)

lemma parse_number_show:
  assumes "value_end r"
  shows "parse_number (show_int i @ r) = Some (JInt i, r)"
proof (cases "i < 0")
  case True
  then show ?thesis
    by (simp add: parse_number_def show_int_def scan_int_show assms scan_frac_end scan_exp_end)
next
  case False
  obtain c cs where c: "show_nat (nat i) = c # cs" "is_ascii_digit c"
    using show_nat_head by blast
  then have "(case show_nat (nat i) @ r of [] \<Rightarrow> [] | d # _ \<Rightarrow> if d = CHR ''-'' then [d] else []) = []"
    using digit_not_minus by simp
  with False show ?thesis
    by (simp add: parse_number_def show_int_def scan_int_show assms scan_frac_end scan_exp_end)
qed

lemma parse_atom_int:
  assumes "value_end r"
  shows "parse_atom (show_int i @ r) = Some (JInt i, r)"
proof -
  obtain c cs where c: "show_nat (nat \<bar>i\<bar>) = c # cs" "is_ascii_digit c"
    using show_nat_head by blast
  have "c \<notin> set ''ntfNI''" using c(2) by (auto simp: is_ascii_digit_def)
  with c(1) have "parse_literal json_literals (show_int i @ r) = None"
    using digit_not_minus [OF c(2)]
    by (cases "i < 0") (auto simp: json_literals_def show_int_def)
  then show ?thesis by (simp add: parse_atom_def parse_number_show assms)
qed

text \<open>A float literal is read in full wherever a value may end.\<close>

lemma split_digits_more:
  assumes "split_digits s = (ds, u)" and "value_end r"
  shows "split_digits (s @ r) = (ds, u @ r)"
proof -
  have ds: "ds = takeWhile is_ascii_digit s" "u = dropWhile is_ascii_digit s"
    using assms(1) by (simp_all add: split_digits_def)
  have stop: "takeWhile is_ascii_digit r = []" "dropWhile is_ascii_digit r = r"
    using split_digits_append [of "[]" r] assms(2) by (simp_all add: split_digits_def)
  show ?thesis
  proof (cases "\<forall>c \<in> set s. is_ascii_digit c")
    case True
    then have "ds = s" "u = []" using ds by (simp_all add: takeWhile_eq_all_conv dropWhile_eq_Nil_conv)
    with True stop show ?thesis by (simp add: split_digits_def takeWhile_append2 dropWhile_append2)
  next
    case False
    then obtain c where "c \<in> set s" "\<not> is_ascii_digit c" by blast
    then show ?thesis using ds by (simp add: split_digits_def takeWhile_append1 dropWhile_append1)
  qed
qed

lemma scan_int_more: "scan_int s = Some (ds, u) \<Longrightarrow> value_end r \<Longrightarrow> scan_int (s @ r) = Some (ds, u @ r)"
  using split_digits_more [of s ds u r] by (cases s) (auto simp: scan_int_def split: if_splits)

lemma scan_frac_more: "scan_frac s = (fs, u) \<Longrightarrow> value_end r \<Longrightarrow> scan_frac (s @ r) = (fs, u @ r)"
proof (cases s)
  case (Cons c cs)
  assume "scan_frac s = (fs, u)" "value_end r"
  with Cons split_digits_more [of cs _ _ r] show ?thesis
    by (auto simp: scan_frac_def Let_def split: prod.splits if_splits)
qed (simp add: scan_frac_def [of "[]"] scan_frac_end)

lemma scan_exp_more: "scan_exp s = (es, u) \<Longrightarrow> value_end r \<Longrightarrow> scan_exp (s @ r) = (es, u @ r)"
proof (cases s)
  case (Cons c cs)
  assume run: "scan_exp s = (es, u)" and r: "value_end r"
  have sgn: "(case cs @ r of [] \<Rightarrow> [] | d # _ \<Rightarrow> if d = CHR ''-'' \<or> d = CHR ''+'' then [d] else []) =
      (case cs of [] \<Rightarrow> [] | d # _ \<Rightarrow> if d = CHR ''-'' \<or> d = CHR ''+'' then [d] else [])"
    using r by (cases cs; cases r) (auto simp: value_end_def)
  let ?sgn = "case cs of [] \<Rightarrow> [] | d # _ \<Rightarrow> if d = CHR ''-'' \<or> d = CHR ''+'' then [d] else []"
  obtain ds v where v: "split_digits (drop (length ?sgn) cs) = (ds, v)" by fastforce
  have len: "length ?sgn \<le> length cs" by (cases cs) auto
  with split_digits_more [OF v r] have v': "split_digits (drop (length ?sgn) (cs @ r)) = (ds, v @ r)" by simp
  from run Cons v have "es = (if (c = CHR ''e'' \<or> c = CHR ''E'') \<and> ds \<noteq> [] then c # ?sgn @ ds else [])"
    "u = (if (c = CHR ''e'' \<or> c = CHR ''E'') \<and> ds \<noteq> [] then v else s)"
    by (auto simp: scan_exp_def Let_def split: if_splits)
  with Cons show ?thesis unfolding scan_exp_def by (simp only: append_Cons list.case sgn Let_def v' prod.case) simp
qed (simp add: scan_exp_def [of "[]"] scan_exp_end)

lemma parse_number_more:
  assumes "parse_number s = Some (JFloat w, u)" and r: "value_end r"
  shows "parse_number (s @ r) = Some (JFloat w, u @ r)"
proof -
  let ?sgn = "\<lambda>s. case s of [] \<Rightarrow> [] | d # _ \<Rightarrow> if d = CHR ''-'' then [d] else []"
  obtain ds r0 where ds: "scan_int (drop (length (?sgn s)) s) = Some (ds, r0)"
    using assms(1) by (auto simp: parse_number_def Let_def split: option.splits)
  obtain fs r1 where fs: "scan_frac r0 = (fs, r1)" by fastforce
  obtain es r2 where es: "scan_exp r1 = (es, r2)" by fastforce
  have s: "s \<noteq> []" using ds by (auto simp: scan_int_def)
  then have sgn: "?sgn (s @ r) = ?sgn s" and len: "length (?sgn s) \<le> length s" by (cases s; simp)+
  from scan_int_more [OF ds r] len have "scan_int (drop (length (?sgn s)) (s @ r)) = Some (ds, r0 @ r)" by simp
  with assms(1) ds fs es scan_frac_more [OF fs r] scan_exp_more [OF es r] show ?thesis
    unfolding parse_number_def sgn Let_def by (auto split: if_splits)
qed

text \<open>What a number literal is made of, and how it starts.\<close>

lemma split_digits_parts: "split_digits s = (ds, u) \<Longrightarrow> s = ds @ u \<and> list_all is_ascii_digit ds"
  by (auto simp: split_digits_def list_all_iff dest: set_takeWhileD)

lemma scan_int_parts: "scan_int s = Some (ds, u) \<Longrightarrow> s = ds @ u \<and> list_all is_ascii_digit ds \<and> ds \<noteq> []"
proof (cases s)
  case (Cons c cs)
  assume run: "scan_int s = Some (ds, u)"
  show ?thesis
  proof (cases "c = CHR ''0''")
    case True
    with run Cons show ?thesis by (auto simp: scan_int_def is_ascii_digit_def)
  next
    case False
    with run Cons have "split_digits s = (ds, u)" "is_ascii_digit c" by (auto simp: scan_int_def split: if_splits)
    with Cons split_digits_parts show ?thesis by (auto simp: split_digits_def)
  qed
qed (simp add: scan_int_def)

definition number_char :: "char \<Rightarrow> bool" where
  "number_char c \<longleftrightarrow> is_ascii_digit c \<or> c \<in> set ''+-.eE''"

lemma scan_frac_parts: "scan_frac s = (fs, u) \<Longrightarrow> list_all number_char fs"
  by (cases s) (auto simp: scan_frac_def split_digits_def number_char_def list_all_iff Let_def
      dest: set_takeWhileD split: if_splits)

lemma scan_exp_parts: "scan_exp s = (es, u) \<Longrightarrow> list_all number_char es"
  by (cases s) (auto simp: scan_exp_def split_digits_def number_char_def list_all_iff Let_def
      dest: set_takeWhileD split: if_splits list.splits)

lemma parse_number_float:
  assumes "parse_number s = Some (JFloat w, u)"
  shows "list_all number_char w \<and> (\<exists>c cs. s = c # cs \<and> (is_ascii_digit c \<or> c = CHR ''-'' \<and> cs \<noteq> [] \<and> is_ascii_digit (hd cs)))"
proof -
  let ?sgn = "case s of [] \<Rightarrow> [] | d # _ \<Rightarrow> if d = CHR ''-'' then [d] else []"
  obtain ds r0 where ds: "scan_int (drop (length ?sgn) s) = Some (ds, r0)"
    using assms by (auto simp: parse_number_def Let_def split: option.splits)
  obtain fs r1 where fs: "scan_frac r0 = (fs, r1)" by fastforce
  obtain es r2 where es: "scan_exp r1 = (es, r2)" by fastforce
  from scan_int_parts [OF ds] have d: "drop (length ?sgn) s = ds @ r0" "list_all is_ascii_digit ds" "ds \<noteq> []" by blast+
  from d obtain e ds' where e: "ds = e # ds'" "is_ascii_digit e" by (cases ds) auto
  have "w = ?sgn @ ds @ fs @ es" using assms ds fs es by (auto simp: parse_number_def Let_def split: if_splits)
  moreover have "list_all number_char ds" using d(2) by (auto simp: list_all_iff number_char_def)
  moreover have "list_all number_char ?sgn" by (cases s) (auto simp: number_char_def)
  ultimately have "list_all number_char w" using scan_frac_parts [OF fs] scan_exp_parts [OF es] by simp
  moreover obtain c cs where "s = c # cs" using d e by (cases s) auto
  ultimately show ?thesis using d(1) e by (cases "c = CHR ''-''") auto
qed

subsection \<open>Strings\<close>

lemma hex_value_char: "d < 16 \<Longrightarrow> hex_value (hex_char d) = Some d"
  by (auto simp: hex_value_def hex_char_def of_char_of Let_def)

lemma char_of_quote: "char_of (34::nat) = quote_char" "char_of (92::nat) = backslash_char"
  by (simp_all add: char_of_eq_iff)

lemma parse_str_escape:
  "parse_str (Suc n) (escape_char c @ r) = map_option (apfst (Cons c)) (parse_str n r)"
proof -
  define k where "k = (of_char c :: nat)"
  have k: "k < 256" "c = char_of k" by (simp_all add: k_def)
  consider "k \<in> {34, 92, 10, 13, 9, 12, 8}" | "32 \<le> k" "k \<le> 126" "k \<noteq> 34" "k \<noteq> 92"
    | "k \<notin> {34, 92, 10, 13, 9, 12, 8}" "\<not> (32 \<le> k \<and> k \<le> 126)"
    by blast
  then show ?thesis
  proof cases
    case 1
    then show ?thesis
      using k by (auto simp: escape_char_def unescape_def k_def [symmetric] char_of_quote)
  next
    case 2
    then have "escape_char c = [c]" by (auto simp: escape_char_def k_def Let_def)
    moreover have "c \<noteq> quote_char" "c \<noteq> backslash_char" using 2 by (auto simp: k_def)
    ultimately show ?thesis using 2 by (simp add: k_def)
  next
    case 3
    have "k div 16 < 16" "k mod 16 < 16" using k(1) by auto
    then have "hex4 [CHR ''0'', CHR ''0'', hex_char (k div 16), hex_char (k mod 16)] = Some k"
      by (simp add: hex4_def hex_value_char) (simp add: hex_value_def)
    moreover have "escape_char c =
        [backslash_char, CHR ''u'', CHR ''0'', CHR ''0'', hex_char (k div 16), hex_char (k mod 16)]"
      using 3 unfolding escape_char_def k_def [symmetric] Let_def by (simp del: of_char_of)
    ultimately show ?thesis
      using k by (simp add: unescape_def del: k_def)
  qed
qed

lemma parse_str_dumps:
  "length s < n \<Longrightarrow> parse_str n (concat (map escape_char s) @ quote_char # r) = Some (s, r)"
proof (induction s arbitrary: n)
  case Nil
  then obtain m where "n = Suc m" by (cases n) auto
  then show ?case by simp
next
  case (Cons c s)
  then obtain m where "n = Suc m" "length s < m" by (cases n) auto
  then show ?case using Cons.IH by (simp add: parse_str_escape)
qed

lemma length_escape_char: "1 \<le> length (escape_char c)"
  by (simp add: escape_char_def Let_def)

lemma length_dumps_str: "length s + 2 \<le> length (dumps_str s)"
proof (induction s)
  case (Cons c s)
  then show ?case using length_escape_char [of c] by (simp add: dumps_str_def)
qed (simp add: dumps_str_def)

text \<open>After the opening quote, with the fuel the decoder gives it.\<close>

lemma parse_str_rest:
  "parse_str (Suc (length (tl (dumps_str s) @ r))) (tl (dumps_str s) @ r) = Some (s, r)"
  using parse_str_dumps [of s "Suc (length (tl (dumps_str s) @ r))" r] length_dumps_str [of s]
  by (simp add: dumps_str_def)

subsection \<open>Whole values\<close>

text \<open>
  The texts \<open>json.dumps\<close> prints for a float: a number literal with a fraction or an exponent, or one of its
  three names for the values that have none.
\<close>

definition float_text :: "string \<Rightarrow> bool" where
  "float_text s \<longleftrightarrow> s \<in> {''NaN'', ''Infinity'', ''-Infinity''} \<or> parse_number s = Some (JFloat s, [])"

lemma float_text_head:
  assumes "float_text s"
  shows "\<exists>c cs. s = c # cs \<and> c \<in> insert CHR ''N'' (insert CHR ''I'' (insert CHR ''-'' {d. is_ascii_digit d}))"
  using assms parse_number_float [of s s "[]"] unfolding float_text_def by auto

lemma parse_atom_float:
  assumes "float_text s" and r: "value_end r"
  shows "parse_atom (s @ r) = Some (JFloat s, r)"
proof (cases "s \<in> {''NaN'', ''Infinity'', ''-Infinity''}")
  case True
  then show ?thesis by (auto simp: parse_atom_def json_literals_def)
next
  case False
  with assms(1) have s: "parse_number s = Some (JFloat s, [])" by (simp add: float_text_def)
  from parse_number_float [OF s] obtain c cs where
    c: "s = c # cs" "is_ascii_digit c \<or> c = CHR ''-'' \<and> cs \<noteq> [] \<and> is_ascii_digit (hd cs)" by blast
  have digit: "d \<notin> set ''ntfNI-''" if "is_ascii_digit d" for d using that by (auto simp: is_ascii_digit_def)
  from c(2) have "parse_literal json_literals (s @ r) = None"
  proof
    assume "is_ascii_digit c"
    with c(1) digit show ?thesis by (simp add: json_literals_def)
  next
    assume "c = CHR ''-'' \<and> cs \<noteq> [] \<and> is_ascii_digit (hd cs)"
    then obtain d ds where "c = CHR ''-''" "cs = d # ds" "is_ascii_digit d" by (cases cs) auto
    with c(1) digit [of d] show ?thesis by (simp add: json_literals_def)
  qed
  with parse_number_more [OF s r] show ?thesis by (simp add: parse_atom_def)
qed

text \<open>Values whose floats are such texts and whose objects have distinct keys.\<close>

fun json_plain :: "json \<Rightarrow> bool" where
  "json_plain (JFloat s) = float_text s"
| "json_plain (JArr vs) = list_all json_plain vs"
| "json_plain (JObj kvs) =
     (distinct (map fst kvs) \<and> list_all (\<lambda>kv. json_plain (snd kv)) kvs)"
| "json_plain _ = True"

lemma fst_dict_set: "fst ` set (dict_set k v kvs) = insert k (fst ` set kvs)"
  by (induction k v kvs rule: dict_set.induct) auto

lemma distinct_dict_set: "distinct (map fst kvs) \<Longrightarrow> distinct (map fst (dict_set k v kvs))"
proof (induction k v kvs rule: dict_set.induct)
  case (2 k v k' v' kvs)
  then show ?case using fst_dict_set [of k v kvs] by (auto simp flip: set_map)
qed simp

lemma plain_dict_set:
  "json_plain v \<Longrightarrow> list_all (\<lambda>kv. json_plain (snd kv)) kvs \<Longrightarrow> list_all (\<lambda>kv. json_plain (snd kv)) (dict_set k v kvs)"
  by (induction k v kvs rule: dict_set.induct) auto

definition dumps_member :: "string \<times> json \<Rightarrow> string" where
  "dumps_member kv = dumps_str (fst kv) @ '': '' @ json_dumps (snd kv)"

lemma json_dumps_obj:
  "json_dumps (JObj kvs) = ''{'' @ py_join '', '' (map dumps_member kvs) @ ''}''"
proof -
  have "dumps_member = (\<lambda>(k, v). dumps_str k @ '': '' @ json_dumps v)"
    by (auto simp: dumps_member_def fun_eq_iff)
  then show ?thesis by simp
qed

lemma skip_ws_id [simp]: "\<not> is_ws c \<Longrightarrow> skip_ws (c # cs) = c # cs"
  by (simp add: skip_ws_def)

lemma skip_ws_space [simp]: "skip_ws (CHR '' '' # s) = skip_ws s"
  by (simp add: skip_ws_def is_ws_def)

lemma skip_ws_Nil [simp]: "skip_ws [] = []"
  by (simp add: skip_ws_def)

lemma not_ws [simp]:
  "\<not> is_ws quote_char" "\<not> is_ws CHR '',''" "\<not> is_ws CHR '':''" "\<not> is_ws CHR '']''"
  "\<not> is_ws CHR ''}''" "\<not> is_ws CHR ''{''" "\<not> is_ws CHR ''[''" "\<not> is_ws CHR ''-''"
  by (simp_all add: is_ws_def)

lemma digit_not_ws: "is_ascii_digit c \<Longrightarrow> \<not> is_ws c"
  by (auto simp: is_ws_def is_ascii_digit_def)

text \<open>An encoded value starts with a character that is neither blank nor a closing bracket.\<close>

lemma dumps_head:
  assumes "json_plain v"
  shows "\<exists>c cs. json_dumps v = c # cs \<and> \<not> is_ws c \<and> c \<noteq> CHR '']''"
proof (cases v)
  case (JInt i)
  obtain c cs where c: "show_nat (nat \<bar>i\<bar>) = c # cs" "is_ascii_digit c"
    using show_nat_head by blast
  then have "\<not> is_ws c" "c \<noteq> CHR '']''"
    by (auto simp: digit_not_ws) (auto simp: is_ascii_digit_def)
  with c JInt show ?thesis by (cases "i < 0") (auto simp: show_int_def)
next
  case (JFloat s)
  with assms float_text_head [of s] obtain c cs where "s = c # cs" "c = CHR ''N'' \<or> c = CHR ''I'' \<or> c = CHR ''-'' \<or> is_ascii_digit c"
    by auto
  with JFloat show ?thesis using digit_not_ws [of c] by (auto simp: is_ws_def) (auto simp: is_ascii_digit_def)
qed (use assms in \<open>auto simp: dumps_str_def is_ws_def\<close>)

lemma parse_elems_dumps:
  assumes "\<And>v n r. v \<in> set vs \<Longrightarrow> length (json_dumps v) \<le> n \<Longrightarrow> value_end r \<Longrightarrow>
      parse_value n (json_dumps v @ r) = Some (v, r)"
    and "vs \<noteq> []" and "list_all json_plain vs"
    and "length (py_join '', '' (map json_dumps vs)) < n"
  shows "parse_elems n (py_join '', '' (map json_dumps vs) @ CHR '']'' # r) = Some (vs, r)"
  using assms
proof (induction vs arbitrary: n)
  case (Cons v vs)
  from Cons.prems(4) obtain m where m: "n = Suc m" by (cases n) auto
  show ?case
  proof (cases vs)
    case Nil
    with Cons.prems m show ?thesis by (simp)
  next
    case (Cons w ws)
    let ?rest = "py_join '', '' (map json_dumps vs) @ CHR '']'' # r"
    obtain c cs where c: "json_dumps w = c # cs" "\<not> is_ws c"
      using dumps_head [of w] Cons.prems(3) local.Cons by auto
    have split: "py_join '', '' (map json_dumps (v # vs)) @ CHR '']'' # r =
        json_dumps v @ CHR '','' # CHR '' '' # ?rest"
      using local.Cons by simp
    have "skip_ws ?rest = ?rest"
      using c local.Cons by (cases ws) simp_all
    moreover have "parse_elems m ?rest = Some (vs, r)"
      using Cons.IH [of m] Cons.prems m local.Cons by simp
    moreover have "parse_value m (json_dumps v @ CHR '','' # CHR '' '' # ?rest) =
        Some (v, CHR '','' # CHR '' '' # ?rest)"
      using Cons.prems(1) [of v m] Cons.prems(4) m local.Cons by simp
    ultimately show ?thesis
      unfolding split m by simp
  qed
qed simp

lemma parse_members_dumps:
  assumes "\<And>v n r. v \<in> snd ` set kvs \<Longrightarrow> length (json_dumps v) \<le> n \<Longrightarrow> value_end r \<Longrightarrow>
      parse_value n (json_dumps v @ r) = Some (v, r)"
    and "kvs \<noteq> []" and "list_all (\<lambda>kv. json_plain (snd kv)) kvs"
    and "distinct (map fst (acc @ kvs))"
    and "length (py_join '', '' (map dumps_member kvs)) < n"
  shows "parse_members n acc (tl (py_join '', '' (map dumps_member kvs)) @ CHR ''}'' # r) =
      Some (acc @ kvs, r)"
  using assms
proof (induction kvs arbitrary: n acc)
  case (Cons kv kvs)
  obtain k v where kv: "kv = (k, v)" by (cases kv)
  from Cons.prems(5) obtain m where m: "n = Suc m" by (cases n) auto
  obtain c cs where c: "json_dumps v = c # cs" "\<not> is_ws c"
    using dumps_head [of v] Cons.prems(3) kv by auto
  have new: "dict_set k v acc = acc @ [(k, v)]"
    using Cons.prems(4) kv by (intro dict_set_new) (auto simp: image_iff)
  have tail: "tl (dumps_str k @ s) = tl (dumps_str k) @ s" for s
    by (simp add: dumps_str_def)
  have q: "dumps_str k = quote_char # tl (dumps_str k)" by (simp add: dumps_str_def)
  show ?case
  proof (cases kvs)
    case Nil
    have "parse_value m (json_dumps v @ CHR ''}'' # r) = Some (v, CHR ''}'' # r)"
      using Cons.prems(1) [of v m] Cons.prems(5) m kv Nil by (simp add: dumps_member_def)
    then show ?thesis
      using c Nil kv m new parse_str_rest [of k "'': '' @ json_dumps v @ CHR ''}'' # r"]
      by (simp add: dumps_member_def tail)
  next
    case (Cons kw kws)
    let ?J = "py_join '', '' (map dumps_member kvs)"
    have J: "?J = quote_char # tl ?J"
      using local.Cons by (cases kws) (simp_all add: dumps_member_def dumps_str_def)
    let ?rest = "tl ?J @ CHR ''}'' # r"
    have str: "tl (py_join '', '' (map dumps_member (kv # kvs))) @ CHR ''}'' # r =
        tl (dumps_str k) @ '': '' @ json_dumps v @ CHR '','' # CHR '' '' # quote_char # ?rest"
      using local.Cons kv J by (simp add: dumps_member_def tail)
    have len: "length (py_join '', '' (map dumps_member (kv # kvs))) =
        length (dumps_str k) + 2 + length (json_dumps v) + 2 + length ?J"
      using local.Cons kv by (simp add: dumps_member_def)
    have "parse_members m (acc @ [(k, v)]) ?rest = Some ((acc @ [(k, v)]) @ kvs, r)"
      using Cons.prems local.Cons len kv m by (intro Cons.IH) auto
    moreover have "parse_value m (json_dumps v @ CHR '','' # CHR '' '' # quote_char # ?rest) =
        Some (v, CHR '','' # CHR '' '' # quote_char # ?rest)"
      using Cons.prems(1) [of v m] Cons.prems(5) len m kv by simp
    ultimately show ?thesis
      using c new kv parse_str_rest
        [of k "'': '' @ json_dumps v @ CHR '','' # CHR '' '' # quote_char # ?rest"]
      unfolding str m by simp
  qed
qed simp

lemma parse_value_dumps:
  "json_plain v \<Longrightarrow> length (json_dumps v) \<le> n \<Longrightarrow> value_end r \<Longrightarrow>
    parse_value n (json_dumps v @ r) = Some (v, r)"
proof (induction v arbitrary: n r)
  case (JInt i)
  obtain c cs where c: "show_int i = c # cs" and "c = CHR ''-'' \<or> is_ascii_digit c"
    using show_nat_head [of "nat \<bar>i\<bar>"] by (cases "i < 0") (auto simp: show_int_def)
  then have "c \<noteq> quote_char" "c \<noteq> CHR ''{''" "c \<noteq> CHR ''[''"
    by (auto simp: is_ascii_digit_def)
  with c show ?case
    using JInt parse_atom_int [of r i] by (cases n) auto
next
  case (JStr s)
  then obtain m where "n = Suc m" using length_dumps_str [of s] by (cases n) auto
  then show ?case
    using parse_str_rest [of s r] by (simp add: dumps_str_def)
next
  case (JArr vs)
  then obtain m where m: "n = Suc m" by (cases n) auto
  show ?case
  proof (cases vs)
    case Nil
    with m show ?thesis by simp
  next
    case (Cons w ws)
    let ?J = "py_join '', '' (map json_dumps vs)"
    obtain c cs where c: "json_dumps w = c # cs" "\<not> is_ws c" "c \<noteq> CHR '']''"
      using dumps_head [of w] JArr.prems(1) Cons by auto
    then obtain cs' where J: "?J = c # cs'"
      using Cons by (cases ws) simp_all
    have "parse_elems m (?J @ CHR '']'' # r) = Some (vs, r)"
      using JArr m Cons by (intro parse_elems_dumps) (auto simp: list_all_iff)
    with c m J show ?thesis by simp
  qed
next
  case (JObj kvs)
  then obtain m where m: "n = Suc m" by (cases n) auto
  show ?case
  proof (cases kvs)
    case Nil
    with m show ?thesis by simp
  next
    case (Cons kw kws)
    let ?J = "py_join '', '' (map dumps_member kvs)"
    have J: "?J = quote_char # tl ?J"
      using Cons by (cases kws) (simp_all add: dumps_member_def dumps_str_def)
    have len: "length ?J < m"
      using JObj.prems(2) m unfolding json_dumps_obj by simp
    have "parse_members m [] (tl ?J @ CHR ''}'' # r) = Some ([] @ kvs, r)"
    proof (rule parse_members_dumps)
      fix v n r
      assume "v \<in> snd ` set kvs" "length (json_dumps v) \<le> n" "value_end r"
      with JObj.prems(1) show "parse_value n (json_dumps v @ r) = Some (v, r)"
        by (auto simp: list_all_iff intro!: JObj.IH)
    qed (use JObj.prems(1) Cons len in auto)
    moreover have "json_dumps (JObj kvs) @ r = CHR ''{'' # quote_char # tl ?J @ CHR ''}'' # r"
      unfolding json_dumps_obj using J by simp
    ultimately show ?thesis by (simp add: m)
  qed
next
  case (JFloat s)
  then obtain c cs where c: "s = c # cs" "c = CHR ''N'' \<or> c = CHR ''I'' \<or> c = CHR ''-'' \<or> is_ascii_digit c"
    using float_text_head [of s] by auto
  then have "c \<noteq> quote_char" "c \<noteq> CHR ''{''" "c \<noteq> CHR ''[''" by (auto simp: is_ascii_digit_def)
  moreover from JFloat have "parse_atom (s @ r) = Some (JFloat s, r)" by (intro parse_atom_float) simp_all
  ultimately show ?case using c(1) JFloat.prems(2) by (cases n) auto
next
  case JNull
  then show ?case by (cases n) (auto simp: parse_atom_def json_literals_def)
next
  case (JBool b)
  then show ?case by (cases n) (auto simp: parse_atom_def json_literals_def split: if_splits)
qed

text \<open>Decoding an encoded value gives it back.\<close>

lemma json_loads_dumps:
  assumes "json_plain v"
  shows "json_loads (json_dumps v) = Inr v"
proof -
  obtain c cs where "json_dumps v = c # cs" "\<not> is_ws c" using dumps_head [OF assms] by blast
  then have "skip_ws (json_dumps v) = json_dumps v" by simp
  moreover have "parse_value (Suc (length (json_dumps v))) (json_dumps v) = Some (v, [])"
    using parse_value_dumps [OF assms, of "Suc (length (json_dumps v))" "[]"] by simp
  ultimately show ?thesis by (simp only: json_loads_def) simp
qed

lemma json_dumps_not_Nil: "json_plain v \<Longrightarrow> json_dumps v \<noteq> []"
  using dumps_head by fastforce

lemma json_loads_Nil [simp]: "json_loads [] = Inl (JSONDecodeError ''Expecting value'')"
  by (simp add: json_loads_def)

section \<open>The codec as an interface\<close>

text \<open>
  What a reader and a writer of payloads rely on: a plain value survives the trip through text,
  and its text is never empty, so \<open>text or \"\"\<close> and \<open>if text\<close> see it.
\<close>

locale json_codec =
  fixes enc :: "json \<Rightarrow> string"
    and dec :: "string \<Rightarrow> py_exc + json"
    and plain :: "json \<Rightarrow> bool"
  assumes dec_enc: "plain v \<Longrightarrow> dec (enc v) = Inr v"
    and enc_not_Nil: "plain v \<Longrightarrow> enc v \<noteq> []"
begin

lemma enc_inj: "plain v \<Longrightarrow> plain w \<Longrightarrow> enc v = enc w \<Longrightarrow> v = w"
  by (metis dec_enc sum.inject(2))

lemma enc_member: "plain (JObj kvs) \<Longrightarrow> map_of kvs k = Some v \<Longrightarrow>
    (case dec (enc (JObj kvs)) of Inl e \<Rightarrow> Inl e | Inr w \<Rightarrow> py_getitem k w) = Inr v"
  using dec_enc [of "JObj kvs"] by simp

lemma stored_or_empty: "plain v \<Longrightarrow> str_or_empty (Some (enc v)) = enc v \<and> enc v \<noteq> []"
  using enc_not_Nil by simp

end

interpretation codec: json_codec json_dumps json_loads json_plain
  by unfold_locales (simp_all add: json_loads_dumps json_dumps_not_Nil)

end
