(* ===== verification/World.thy ===== *)
theory World
  imports Json
begin

text \<open>
  The outside world of the agent. Code that is not in the repository (the generated gRPC stub of
  Container Maker and its message constructors, the HTTP service of Cloud, clocks, the random
  source, cancellation) is the record \<open>env\<close>: each of its functions sees every event of the run so
  far and answers the next call, so a statement for all \<open>env\<close> covers every behaviour of the
  outside. A run's state is its trace, the list of events in the order they happened.

  Also here: the configuration of \<open>device_agent/config.py\<close>, \<open>ExecuteCommand\<close> and its operations,
  and \<open>operation_name\<close> with \<open>strip_container_maker_suffix\<close> of \<open>device_agent/commands/_util.py\<close>.
\<close>

section \<open>Messages of the generated protocol\<close>

text \<open>The \<open>CommandOperation\<close> enum; the constructor with a number is any other wire value.\<close>

datatype operation =
    COMMAND_OPERATION_CREATE
  | COMMAND_OPERATION_DELETE
  | COMMAND_OPERATION_HIBERNATE
  | COMMAND_OPERATION_RESUME
  | COMMAND_OPERATION_RECONCILE
  | COMMAND_OPERATION_SAVE
  | COMMAND_OPERATION_OTHER int

record execute_command =
  command_id :: string
  operation :: operation
  placement_generation :: int
  container_id :: string
  device_id :: string
  trace_id :: string
  container_config_json :: string

text \<open>The fields of a create request hold the Python values the constructor was called with.\<close>

record publish_info =
  publish_port :: json
  target_port :: json
  protocol :: json
  node_port :: json

record resource_requirements =
  cpu_request :: json
  cpu_limit :: json
  memory_request :: json
  memory_limit :: json
  ephemeral_request :: json
  ephemeral_limit :: json
  snapshot_size_limit :: json

record create_request =
  image_name :: json
  container_name :: json
  network_name :: json
  exposure_level :: json
  publish_information :: "publish_info list"
  environment_variables :: json
  resources :: resource_requirements

record container_request =
  req_container_id :: string
  req_network_name :: json

text \<open>
  Responses of Container Maker. \<open>container_ip\<close> and \<open>saved_pods\<close> are read with \<open>getattr\<close> and a
  default: \<open>None\<close> is a response without the field.
\<close>

record container_response =
  resp_container_id :: string
  resp_container_name :: string
  container_ip :: "string option"

record delete_response =
  del_container_id :: string
  del_status :: string

record saved_pod =
  sp_pod_name :: string
  sp_namespace_name :: string

record save_response =
  saved_pods :: "saved_pod list option"

datatype http_verb = GET | POST

record http_request =
  verb :: http_verb
  path :: string
  query :: "(string \<times> json) list"
  body :: "json option"

record http_response =
  status_code :: int
  content :: string

section \<open>Events and the environment\<close>

text \<open>A gRPC channel, with or without TLS.\<close>

datatype channel = SecureChannel string | InsecureChannel string

datatype event =
    CreateCall create_request string "py_exc + container_response"
  | DeleteCall container_request string "py_exc + delete_response"
  | SaveCall container_request string "py_exc + save_response"
  | HttpCall http_request "py_exc + http_response"
  | Slept rat
  | ReadMonotonic rat
  | ReadUtc string
  | ReadUnixMs int
  | Drew rat
  | LinkOpened channel "py_exc option"
  | ConnectCalled "(string \<times> string) list"
  | LinkClosed "py_exc option"

type_synonym trace = "event list"

text \<open>What \<open>_connect_once\<close> does with its channel; nothing else of the agent does such a thing.\<close>

fun link_event :: "event \<Rightarrow> bool" where
  "link_event (LinkOpened _ _) = True"
| "link_event (ConnectCalled _) = True"
| "link_event (LinkClosed _) = True"
| "link_event _ = False"

text \<open>
  The outside, asked with the whole trace so far: Container Maker and the checks of its message constructors,
  the checks of the constructors of the local API's responses (by their name, given the arguments in the
  code's order), Cloud over HTTP, opening and closing the channel of the control stream, cancellation, the clocks, random
  draws, whether SQLite refuses what the journal asks of it now and with which message, and the numbers of
  the operations.
\<close>

record env =
  stub_create :: "trace \<Rightarrow> create_request \<Rightarrow> string \<Rightarrow> py_exc + container_response"
  stub_delete :: "trace \<Rightarrow> container_request \<Rightarrow> string \<Rightarrow> py_exc + delete_response"
  stub_save :: "trace \<Rightarrow> container_request \<Rightarrow> string \<Rightarrow> py_exc + save_response"
  check_create :: "create_request \<Rightarrow> py_exc option"
  check_container :: "container_request \<Rightarrow> py_exc option"
  check_reply :: "string \<Rightarrow> json list \<Rightarrow> py_exc option"
  http :: "trace \<Rightarrow> http_request \<Rightarrow> py_exc + http_response"
  open_link :: "trace \<Rightarrow> channel \<Rightarrow> py_exc option"
  close_link :: "trace \<Rightarrow> py_exc option"
  cancelled :: "trace \<Rightarrow> bool"
  monotonic :: "trace \<Rightarrow> rat"
  utc_now :: "trace \<Rightarrow> string"
  unix_ms :: "trace \<Rightarrow> int"
  random_draw :: "trace \<Rightarrow> rat"
  disk_error :: "trace \<Rightarrow> string option"
  enum_number :: "operation \<Rightarrow> int"

text \<open>What a failed query or write of the journal raises; a disk that does not fail.\<close>

definition disk_failure :: "env \<Rightarrow> py_exc \<Rightarrow> bool" where
  "disk_failure E e \<longleftrightarrow> (\<exists>t m. disk_error E t = Some m \<and> e = OtherException m)"

definition disk_works :: "env \<Rightarrow> bool" where
  "disk_works E \<longleftrightarrow> (\<forall>t. disk_error E t = None)"

lemma disk_failure_exception: "disk_failure E e \<Longrightarrow> is_exception e"
  by (auto simp: disk_failure_def)

lemma disk_works_never: "disk_works E \<Longrightarrow> \<not> disk_failure E e"
  by (simp add: disk_works_def disk_failure_def)

text \<open>One call each: the environment answers, and the call with its answer joins the trace.\<close>

definition call_create :: "env \<Rightarrow> create_request \<Rightarrow> string \<Rightarrow> (trace, container_response) proc" where
  "call_create E req rid = (\<lambda>t. let r = stub_create E t req rid in Some (r, t @ [CreateCall req rid r]))"

definition call_delete :: "env \<Rightarrow> container_request \<Rightarrow> string \<Rightarrow> (trace, delete_response) proc" where
  "call_delete E req rid = (\<lambda>t. let r = stub_delete E t req rid in Some (r, t @ [DeleteCall req rid r]))"

definition call_save :: "env \<Rightarrow> container_request \<Rightarrow> string \<Rightarrow> (trace, save_response) proc" where
  "call_save E req rid = (\<lambda>t. let r = stub_save E t req rid in Some (r, t @ [SaveCall req rid r]))"

definition call_http :: "env \<Rightarrow> http_request \<Rightarrow> (trace, http_response) proc" where
  "call_http E req = (\<lambda>t. let r = http E t req in Some (r, t @ [HttpCall req r]))"

text \<open>The channel of the control stream, and \<open>stub.Connect\<close> with its metadata.\<close>

definition open_channel :: "env \<Rightarrow> channel \<Rightarrow> (trace, unit) proc" where
  "open_channel E ch = (\<lambda>t. let x = open_link E t ch in Some (verdict x, t @ [LinkOpened ch x]))"

definition call_connect :: "(string \<times> string) list \<Rightarrow> (trace, unit) proc" where
  "call_connect metadata = (\<lambda>t. Some (Inr (), t @ [ConnectCalled metadata]))"

definition close_channel :: "env \<Rightarrow> (trace, unit) proc" where
  "close_channel E = (\<lambda>t. let x = close_link E t in Some (verdict x, t @ [LinkClosed x]))"

text \<open>\<open>asyncio.sleep\<close>: it returns, or the task was cancelled while it slept.\<close>

definition sleep :: "env \<Rightarrow> rat \<Rightarrow> (trace, unit) proc" where
  "sleep E d = (\<lambda>t. Some (if cancelled E t then Inl CancelledError else Inr (), t @ [Slept d]))"

definition read_monotonic :: "env \<Rightarrow> (trace, rat) proc" where
  "read_monotonic E = (\<lambda>t. let r = monotonic E t in Some (Inr r, t @ [ReadMonotonic r]))"

definition read_utc :: "env \<Rightarrow> (trace, string) proc" where
  "read_utc E = (\<lambda>t. let r = utc_now E t in Some (Inr r, t @ [ReadUtc r]))"

definition read_unix_ms :: "env \<Rightarrow> (trace, int) proc" where
  "read_unix_ms E = (\<lambda>t. let r = unix_ms E t in Some (Inr r, t @ [ReadUnixMs r]))"

text \<open>\<open>random.uniform(a, b)\<close> is \<open>a + (b - a) * random()\<close>.\<close>

definition uniform :: "rat \<Rightarrow> rat \<Rightarrow> rat \<Rightarrow> rat" where
  "uniform u a b = a + (b - a) * u"

definition draw_uniform :: "env \<Rightarrow> rat \<Rightarrow> rat \<Rightarrow> (trace, rat) proc" where
  "draw_uniform E a b = (\<lambda>t. let u = random_draw E t in Some (Inr (uniform u a b), t @ [Drew u]))"

text \<open>\<open>response.json()\<close>.\<close>

definition response_json :: "http_response \<Rightarrow> py_exc + json" where
  "response_json r = json_loads (content r)"

lemmas call_defs = call_create_def call_delete_def call_save_def call_http_def sleep_def
  read_monotonic_def read_utc_def read_unix_ms_def draw_uniform_def

lemma total_calls [intro, simp]:
  "total_proc (call_create E req rid)" "total_proc (call_delete E creq rid)"
  "total_proc (call_save E creq rid)" "total_proc (call_http E hreq)" "total_proc (sleep E d)"
  "total_proc (read_monotonic E)" "total_proc (read_utc E)" "total_proc (read_unix_ms E)"
  "total_proc (draw_uniform E a b)"
  by (simp_all add: total_proc_def call_defs Let_def)

lemma emits_call_create [emits_intros]:
  "(\<And>r. A (CreateCall req rid r)) \<Longrightarrow> emits A (call_create E req rid)"
  by (simp add: emits_def call_create_def Let_def)

lemma emits_call_delete [emits_intros]:
  "(\<And>r. A (DeleteCall req rid r)) \<Longrightarrow> emits A (call_delete E req rid)"
  by (simp add: emits_def call_delete_def Let_def)

lemma emits_call_save [emits_intros]:
  "(\<And>r. A (SaveCall req rid r)) \<Longrightarrow> emits A (call_save E req rid)"
  by (simp add: emits_def call_save_def Let_def)

lemma emits_call_http [emits_intros]:
  "(\<And>r. A (HttpCall req r)) \<Longrightarrow> emits A (call_http E req)"
  by (simp add: emits_def call_http_def Let_def)

lemma emits_sleep [emits_intros]: "A (Slept d) \<Longrightarrow> emits A (sleep E d)"
  by (simp add: emits_def sleep_def)

lemma emits_read_monotonic [emits_intros]:
  "(\<And>r. A (ReadMonotonic r)) \<Longrightarrow> emits A (read_monotonic E)"
  by (simp add: emits_def read_monotonic_def Let_def)

lemma emits_read_utc [emits_intros]: "(\<And>r. A (ReadUtc r)) \<Longrightarrow> emits A (read_utc E)"
  by (simp add: emits_def read_utc_def Let_def)

lemma emits_read_unix_ms [emits_intros]: "(\<And>r. A (ReadUnixMs r)) \<Longrightarrow> emits A (read_unix_ms E)"
  by (simp add: emits_def read_unix_ms_def Let_def)

lemma emits_draw_uniform [emits_intros]:
  "(\<And>u. A (Drew u)) \<Longrightarrow> emits A (draw_uniform E a b)"
  by (simp add: emits_def draw_uniform_def Let_def)

section \<open>The random source as an interface\<close>

text \<open>What the delays rely on: a draw is in the half-open unit interval.\<close>

definition unit_draw :: "rat \<Rightarrow> bool" where
  "unit_draw u \<longleftrightarrow> 0 \<le> u \<and> u < 1"

definition fair_random :: "env \<Rightarrow> bool" where
  "fair_random E \<longleftrightarrow> (\<forall>t. unit_draw (random_draw E t))"

locale uniform_source =
  fixes ok :: "rat \<Rightarrow> bool"
    and pick :: "rat \<Rightarrow> rat \<Rightarrow> rat \<Rightarrow> rat"
  assumes pick_range: "ok u \<Longrightarrow> a \<le> b \<Longrightarrow> a \<le> pick u a b \<and> pick u a b \<le> b"
begin

text \<open>A symmetric jitter of a base delay stays within its fraction and is not negative.\<close>

lemma jitter_range:
  assumes "ok u" and "0 \<le> base" and "0 \<le> fr"
  shows "base * (1 - fr) \<le> base + pick u (- (base * fr)) (base * fr)"
    and "base + pick u (- (base * fr)) (base * fr) \<le> base * (1 + fr)"
proof -
  have "0 \<le> base * fr" using assms by simp
  then have "- (base * fr) \<le> base * fr" by linarith
  from pick_range [OF assms(1) this]
  show "base * (1 - fr) \<le> base + pick u (- (base * fr)) (base * fr)"
    and "base + pick u (- (base * fr)) (base * fr) \<le> base * (1 + fr)"
    by (simp_all add: algebra_simps)
qed

lemma scaled_range:
  assumes "ok u" and "0 \<le> d" and "a \<le> b"
  shows "d * a \<le> d * pick u a b" and "d * pick u a b \<le> d * b"
  using pick_range [OF assms(1,3)] assms(2) by (simp_all add: mult_left_mono)

end

interpretation rng: uniform_source unit_draw uniform
proof
  fix u a b :: rat
  assume u: "unit_draw u" and ab: "a \<le> b"
  have "0 \<le> (b - a) * u" using u ab by (simp add: unit_draw_def)
  moreover have "(b - a) * u \<le> (b - a) * 1"
    using u ab by (intro mult_left_mono) (simp_all add: unit_draw_def)
  ultimately show "a \<le> uniform u a b \<and> uniform u a b \<le> b"
    by (simp add: uniform_def)
qed

section \<open>Configuration\<close>

text \<open>The values of \<open>config.py\<close> the modelled code reads, with their defaults.\<close>

record config =
  agent_version :: string
  protocol_version :: string
  reconnect_schedule :: "rat list"
  reconnect_jitter_fraction :: rat
  heartbeat_interval_seconds :: rat
  snapshot_poll_interval_seconds :: rat
  snapshot_poll_timeout_seconds :: rat

definition default_config :: config where
  "default_config = \<lparr>
     agent_version = ''0.1.0'',
     protocol_version = ''v1'',
     reconnect_schedule = [1, 2, 4, 8, 15, 30],
     reconnect_jitter_fraction = 1 / 5,
     heartbeat_interval_seconds = 20,
     snapshot_poll_interval_seconds = 5,
     snapshot_poll_timeout_seconds = 600\<rparr>"

section \<open>Helpers of the command handlers\<close>

fun operation_name :: "operation \<Rightarrow> string" where
  "operation_name COMMAND_OPERATION_CREATE = ''Create''"
| "operation_name COMMAND_OPERATION_DELETE = ''Delete''"
| "operation_name COMMAND_OPERATION_HIBERNATE = ''Hibernate''"
| "operation_name COMMAND_OPERATION_RESUME = ''Resume''"
| "operation_name COMMAND_OPERATION_RECONCILE = ''Reconcile''"
| "operation_name COMMAND_OPERATION_SAVE = ''Save''"
| "operation_name (COMMAND_OPERATION_OTHER _) = ''Unknown''"

text \<open>\<open>parts[:-n]\<close>.\<close>

definition drop_last :: "nat \<Rightarrow> 'a list \<Rightarrow> 'a list" where
  "drop_last n xs = take (length xs - n) xs"

definition strip_container_maker_suffix :: "string \<Rightarrow> string" where
  "strip_container_maker_suffix name =
     (let parts = py_split (CHR ''-'') name in
      if 2 \<le> length parts \<and> py_isdigit (last parts) then py_join ''-'' (drop_last 2 parts)
      else if 1 \<le> length parts \<and> last parts \<in> {''pod'', ''service'', ''ingress''}
      then py_join ''-'' (drop_last 1 parts)
      else name)"

lemma drop_last_append [simp]: "length ys = n \<Longrightarrow> drop_last n (xs @ ys) = xs"
  by (simp add: drop_last_def)

lemma py_isdigit_no_dash: "py_isdigit s \<Longrightarrow> CHR ''-'' \<notin> set s"
  by (auto simp: py_isdigit_def list_all_iff py_digit_char_def is_ascii_digit_def)

text \<open>The names Container Maker gives, \<open>name-pod-timestamp\<close> and \<open>name-kind\<close>, are undone.\<close>

lemma strip_timestamped:
  assumes "CHR ''-'' \<notin> set kind" and "py_isdigit stamp"
  shows "strip_container_maker_suffix (name @ ''-'' @ kind @ ''-'' @ stamp) = name"
proof -
  have "py_split (CHR ''-'') (name @ ''-'' @ kind @ ''-'' @ stamp) =
      py_split (CHR ''-'') name @ [kind, stamp]"
    using assms py_isdigit_no_dash [OF assms(2)]
    by (simp add: py_split_append py_split_no_sep)
  with assms(2) show ?thesis
    by (simp add: strip_container_maker_suffix_def py_join_split)
qed

lemma strip_kind:
  assumes "kind \<in> {''pod'', ''service'', ''ingress''}"
  shows "strip_container_maker_suffix (name @ ''-'' @ kind) = name"
proof -
  have "CHR ''-'' \<notin> set kind" "\<not> py_isdigit kind"
    using assms by (auto simp: py_isdigit_def py_digit_char_def is_ascii_digit_def)
  then show ?thesis
    using assms by (auto simp: strip_container_maker_suffix_def py_split_append py_split_no_sep
        py_join_split Let_def)
qed

text \<open>
  Container Maker's suffixes are undone. Whatever the container was called, dashes included, the name is
  recovered from \<open>name-kind-timestamp\<close> for a kind without a dash, and from \<open>name-pod\<close>, \<open>name-service\<close>
  and \<open>name-ingress\<close>.
\<close>

lemma container_name_recovered:
  assumes "CHR ''-'' \<notin> set kind" and "py_isdigit stamp"
    and "suffix \<in> {''pod'', ''service'', ''ingress''}"
  shows "strip_container_maker_suffix (name @ ''-'' @ kind @ ''-'' @ stamp) = name \<and>
     strip_container_maker_suffix (name @ ''-'' @ suffix) = name"
  using strip_timestamped [OF assms(1,2)] strip_kind [OF assms(3)] by simp

end
