(* ===== verification/Journal.thy ===== *)
theory Journal
  imports World
begin

text \<open>
  \<open>device_agent/state/command_journal.py\<close>: the table \<open>command_journal\<close> as the list of its rows in
  insertion order, one definition per method of \<open>CommandJournal\<close>, and \<open>_init_schema\<close> over the
  three states a journal file can be in. Every write takes the timestamp it stores.

  The interface \<open>journal_store\<close> states what the agent relies on: a journal is a map from command
  ids to rows, and the resend list holds exactly its finished, unreported rows. Its
  interpretation on the table is \<open>jn\<close>.
\<close>

section \<open>Rows\<close>

datatype jstatus = Accepted | Running | Succeeded | Failed

text \<open>
  The order in which a row moves through its statuses; reporting a success can still fail and
  overwrite it (see the executor), so \<open>Failed\<close> is the last.
\<close>

fun status_rank :: "jstatus \<Rightarrow> nat" where
  "status_rank Accepted = 0"
| "status_rank Running = 1"
| "status_rank Succeeded = 2"
| "status_rank Failed = 3"

lemma status_rank_inj: "status_rank a = status_rank b \<Longrightarrow> a = b"
  by (cases a; cases b) simp_all

instantiation jstatus :: linorder
begin

definition less_eq_jstatus :: "jstatus \<Rightarrow> jstatus \<Rightarrow> bool" where
  "less_eq_jstatus a b \<longleftrightarrow> status_rank a \<le> status_rank b"

definition less_jstatus :: "jstatus \<Rightarrow> jstatus \<Rightarrow> bool" where
  "less_jstatus a b \<longleftrightarrow> status_rank a < status_rank b"

instance
  by standard (auto simp: less_eq_jstatus_def less_jstatus_def dest: status_rank_inj)

end

text \<open>\<open>status IN ('succeeded', 'failed')\<close>.\<close>

fun terminal :: "jstatus \<Rightarrow> bool" where
  "terminal Succeeded = True"
| "terminal Failed = True"
| "terminal _ = False"

lemma terminal_iff: "terminal s \<longleftrightarrow> Succeeded \<le> s"
  by (cases s) (simp_all add: less_eq_jstatus_def)

text \<open>
  A row of the first schema has no \<open>placement_generation\<close>; the column was added by
  \<open>ALTER TABLE\<close>, which is the record extension.
\<close>

record base_row =
  je_command_id :: string
  je_operation :: string
  je_status :: jstatus
  je_result_json :: "string option"
  je_error_code :: "string option"
  je_error_message :: "string option"
  je_reported_to_cloud :: bool
  je_created_at :: string
  je_updated_at :: string

record journal_row = base_row +
  je_placement_generation :: int

type_synonym journal = "journal_row list"

datatype journal_file = NoTable | OldTable "base_row list" | CurrentTable journal

text \<open>
  \<open>_init_schema\<close>: \<open>CREATE TABLE IF NOT EXISTS\<close>, then the \<open>ALTER\<close>, whose error on a table that has
  the column is ignored.
\<close>

fun create_table :: "journal_file \<Rightarrow> journal_file" where
  "create_table NoTable = CurrentTable []"
| "create_table f = f"

fun add_generation_column :: "journal_file \<Rightarrow> journal_file" where
  "add_generation_column (OldTable rows) =
     CurrentTable (map (\<lambda>r. base_row.extend r (journal_row.fields 0)) rows)"
| "add_generation_column f = f"

definition init_schema :: "journal_file \<Rightarrow> journal_file" where
  "init_schema f = add_generation_column (create_table f)"

section \<open>Operations\<close>

definition has_seen :: "string \<Rightarrow> journal \<Rightarrow> bool" where
  "has_seen cid j \<longleftrightarrow> list_ex (\<lambda>r. je_command_id r = cid) j"

definition has_terminal_result :: "string \<Rightarrow> journal \<Rightarrow> bool" where
  "has_terminal_result cid j \<longleftrightarrow> list_ex (\<lambda>r. je_command_id r = cid \<and> terminal (je_status r)) j"

definition get_entry :: "string \<Rightarrow> journal \<Rightarrow> journal_row option" where
  "get_entry cid j = find (\<lambda>r. je_command_id r = cid) j"

definition accepted_row :: "string \<Rightarrow> string \<Rightarrow> string \<Rightarrow> int \<Rightarrow> journal_row" where
  "accepted_row now cid op gen =
     \<lparr>je_command_id = cid, je_operation = op, je_status = Accepted, je_result_json = None,
      je_error_code = None, je_error_message = None, je_reported_to_cloud = False,
      je_created_at = now, je_updated_at = now, je_placement_generation = gen\<rparr>"

text \<open>\<open>INSERT OR IGNORE\<close> on the primary key \<open>command_id\<close>.\<close>

definition record_accepted :: "string \<Rightarrow> string \<Rightarrow> string \<Rightarrow> int \<Rightarrow> journal \<Rightarrow> journal" where
  "record_accepted now cid op gen j =
     (if has_seen cid j then j else j @ [accepted_row now cid op gen])"

definition update_where :: "string \<Rightarrow> (journal_row \<Rightarrow> journal_row) \<Rightarrow> journal \<Rightarrow> journal" where
  "update_where cid f j = map (\<lambda>r. if je_command_id r = cid then f r else r) j"

definition set_status :: "string \<Rightarrow> jstatus \<Rightarrow> journal_row \<Rightarrow> journal_row" where
  "set_status now s r = r\<lparr>je_status := s, je_updated_at := now\<rparr>"

definition record_running :: "string \<Rightarrow> string \<Rightarrow> journal \<Rightarrow> journal" where
  "record_running now cid j = update_where cid (set_status now Running) j"

definition set_result ::
  "string \<Rightarrow> jstatus \<Rightarrow> json option \<Rightarrow> string option \<Rightarrow> string option \<Rightarrow> journal_row \<Rightarrow> journal_row"
where
  "set_result now s result ec em r =
     r\<lparr>je_status := s, je_result_json := map_option json_dumps result, je_error_code := ec,
       je_error_message := em, je_reported_to_cloud := False, je_updated_at := now\<rparr>"

definition record_result ::
  "string \<Rightarrow> string \<Rightarrow> jstatus \<Rightarrow> json option \<Rightarrow> string option \<Rightarrow> string option \<Rightarrow> journal \<Rightarrow> journal"
where
  "record_result now cid s result ec em j = update_where cid (set_result now s result ec em) j"

definition set_reported :: "string \<Rightarrow> journal_row \<Rightarrow> journal_row" where
  "set_reported now r = r\<lparr>je_reported_to_cloud := True, je_updated_at := now\<rparr>"

definition mark_reported :: "string \<Rightarrow> string \<Rightarrow> journal \<Rightarrow> journal" where
  "mark_reported now cid j = update_where cid (set_reported now) j"

text \<open>
  \<open>ORDER BY created_at ASC\<close> on text; rows with the same timestamp keep their insertion order.
\<close>

definition unreported_terminal_entries :: "journal \<Rightarrow> journal" where
  "unreported_terminal_entries j =
     sort_key je_created_at (filter (\<lambda>r. \<not> je_reported_to_cloud r \<and> terminal (je_status r)) j)"

section \<open>The table as a map\<close>

definition journal_ok :: "journal \<Rightarrow> bool" where
  "journal_ok j \<longleftrightarrow> distinct (map je_command_id j)"

lemma setters_keep_key [simp]:
  "je_command_id (set_status now s r) = je_command_id r"
  "je_command_id (set_result now s res ec em r) = je_command_id r"
  "je_command_id (set_reported now r) = je_command_id r"
  by (simp_all add: set_status_def set_result_def set_reported_def)

lemma get_entry_key: "get_entry cid j = Some r \<Longrightarrow> je_command_id r = cid \<and> r \<in> set j"
  by (auto simp: get_entry_def find_Some_iff)

lemma has_seen_get: "has_seen cid j \<longleftrightarrow> get_entry cid j \<noteq> None"
  by (auto simp: has_seen_def get_entry_def find_None_iff list_ex_iff)

lemma get_entry_iff:
  assumes "journal_ok j"
  shows "get_entry cid j = Some r \<longleftrightarrow> r \<in> set j \<and> je_command_id r = cid"
proof
  assume "r \<in> set j \<and> je_command_id r = cid"
  moreover then obtain r' where "get_entry cid j = Some r'"
    using has_seen_get [of cid j] by (auto simp: has_seen_def list_ex_iff)
  ultimately show "get_entry cid j = Some r"
    using assms get_entry_key by (fastforce simp: journal_ok_def distinct_map inj_on_def)
qed (auto dest: get_entry_key)

lemma get_entry_terminal: "get_entry cid j = Some q \<Longrightarrow> terminal (je_status q) \<Longrightarrow> has_terminal_result cid j"
  by (auto simp: get_entry_def has_terminal_result_def list_ex_iff find_Some_iff intro: bexI [OF _ nth_mem])

lemma has_terminal_get:
  assumes "journal_ok j"
  shows "has_terminal_result cid j \<longleftrightarrow> (\<exists>r. get_entry cid j = Some r \<and> terminal (je_status r))"
  by (auto simp: has_terminal_result_def list_ex_iff get_entry_iff [OF assms])

lemma get_entry_update:
  assumes "\<And>r. je_command_id (f r) = je_command_id r"
  shows "get_entry cid' (update_where cid f j) =
      (if cid' = cid then map_option f (get_entry cid j) else get_entry cid' j)"
  by (induction j) (auto simp: get_entry_def update_where_def assms)

lemma get_entry_accepted [journal_simps]:
  "get_entry cid' (record_accepted now cid op gen j) =
     (if cid' = cid \<and> get_entry cid j = None then Some (accepted_row now cid op gen)
      else get_entry cid' j)"
proof -
  have "find P (xs @ ys) = (case find P xs of None \<Rightarrow> find P ys | Some x \<Rightarrow> Some x)"
    for P :: "journal_row \<Rightarrow> bool" and xs ys
    by (induction xs) auto
  then show ?thesis
    by (auto simp: record_accepted_def has_seen_get get_entry_def accepted_row_def split: option.splits)
qed

lemma get_entry_running [journal_simps]:
  "get_entry cid' (record_running now cid j) =
     (if cid' = cid then map_option (set_status now Running) (get_entry cid j) else get_entry cid' j)"
  by (simp add: record_running_def get_entry_update)

lemma get_entry_result [journal_simps]:
  "get_entry cid' (record_result now cid s res ec em j) =
     (if cid' = cid then map_option (set_result now s res ec em) (get_entry cid j)
      else get_entry cid' j)"
  by (simp add: record_result_def get_entry_update)

lemma get_entry_reported [journal_simps]:
  "get_entry cid' (mark_reported now cid j) =
     (if cid' = cid then map_option (set_reported now) (get_entry cid j) else get_entry cid' j)"
  by (simp add: mark_reported_def get_entry_update)

lemma journal_ok_update:
  assumes "\<And>r. je_command_id (f r) = je_command_id r" and "journal_ok j"
  shows "journal_ok (update_where cid f j)"
proof -
  have "map je_command_id (update_where cid f j) = map je_command_id j"
    using assms(1) by (induction j) (auto simp: update_where_def)
  with assms(2) show ?thesis by (simp add: journal_ok_def)
qed

lemma journal_ok_Nil [simp]: "journal_ok []"
  by (simp add: journal_ok_def)

lemma journal_ok_accepted [journal_simps]:
  "journal_ok j \<Longrightarrow> journal_ok (record_accepted now cid op gen j)"
  by (auto simp: record_accepted_def journal_ok_def has_seen_def list_ex_iff accepted_row_def)

lemma journal_ok_running [journal_simps]: "journal_ok j \<Longrightarrow> journal_ok (record_running now cid j)"
  by (simp add: record_running_def journal_ok_update)

lemma journal_ok_result [journal_simps]:
  "journal_ok j \<Longrightarrow> journal_ok (record_result now cid s res ec em j)"
  by (simp add: record_result_def journal_ok_update)

lemma journal_ok_reported [journal_simps]: "journal_ok j \<Longrightarrow> journal_ok (mark_reported now cid j)"
  by (simp add: mark_reported_def journal_ok_update)

lemma set_unreported:
  "set (unreported_terminal_entries j) =
     {r \<in> set j. \<not> je_reported_to_cloud r \<and> terminal (je_status r)}"
  by (auto simp: unreported_terminal_entries_def)

lemma sorted_unreported: "sorted (map je_created_at (unreported_terminal_entries j))"
  by (simp add: unreported_terminal_entries_def)

lemma distinct_unreported: "journal_ok j \<Longrightarrow> journal_ok (unreported_terminal_entries j)"
  by (simp add: journal_ok_def unreported_terminal_entries_def distinct_map_filter
      distinct_map inj_on_def)

section \<open>The interface\<close>

locale journal_store =
  fixes lookup :: "string \<Rightarrow> 'j \<Rightarrow> journal_row option"
    and accept :: "string \<Rightarrow> string \<Rightarrow> string \<Rightarrow> int \<Rightarrow> 'j \<Rightarrow> 'j"
    and start :: "string \<Rightarrow> string \<Rightarrow> 'j \<Rightarrow> 'j"
    and finish :: "string \<Rightarrow> string \<Rightarrow> jstatus \<Rightarrow> json option \<Rightarrow> string option \<Rightarrow> string option \<Rightarrow> 'j \<Rightarrow> 'j"
    and report :: "string \<Rightarrow> string \<Rightarrow> 'j \<Rightarrow> 'j"
    and pending :: "'j \<Rightarrow> journal_row list"
    and ok :: "'j \<Rightarrow> bool"
  assumes lookup_accept: "lookup k (accept now c op gen j) =
      (if k = c \<and> lookup c j = None then Some (accepted_row now c op gen) else lookup k j)"
    and lookup_start: "lookup k (start now c j) =
      (if k = c then map_option (set_status now Running) (lookup c j) else lookup k j)"
    and lookup_finish: "lookup k (finish now c s res ec em j) =
      (if k = c then map_option (set_result now s res ec em) (lookup c j) else lookup k j)"
    and lookup_report: "lookup k (report now c j) =
      (if k = c then map_option (set_reported now) (lookup c j) else lookup k j)"
    and pending_iff: "ok j \<Longrightarrow> r \<in> set (pending j) \<longleftrightarrow>
      lookup (je_command_id r) j = Some r \<and> \<not> je_reported_to_cloud r \<and> terminal (je_status r)"
    and ok_ops: "ok j \<Longrightarrow> ok (accept now c op gen j)" "ok j \<Longrightarrow> ok (start now c j)"
      "ok j \<Longrightarrow> ok (finish now c s res ec em j)" "ok j \<Longrightarrow> ok (report now c j)"
begin

lemmas lookup_ops = lookup_accept lookup_start lookup_finish lookup_report

text \<open>Accepting a known command changes nothing a reader can see.\<close>

lemma accept_known: "lookup c j = Some r \<Longrightarrow> lookup k (accept now c op gen j) = lookup k j"
  by (simp add: lookup_accept)

text \<open>
  A command taken through \<open>accept\<close>, \<open>start\<close> and \<open>finish\<close>: its row holds the generation it was
  first accepted with and the result, and it waits to be reported.
\<close>

lemma finish_after_accept:
  assumes "lookup c j = Some r"
  shows "lookup c (finish now c s res ec em j) = Some (set_result now s res ec em r)"
  using assms by (simp add: lookup_finish)

lemma finished_is_pending:
  assumes "ok j" and "lookup c j = Some r" and "je_command_id r = c" and "terminal s"
  shows "set_result now s res ec em r \<in> set (pending (finish now c s res ec em j))"
  using assms by (simp add: pending_iff ok_ops lookup_finish) (simp add: set_result_def)

lemma reported_not_pending:
  assumes "ok j" and "r \<in> set (pending (report now c j))"
  shows "je_command_id r \<noteq> c"
proof
  assume "je_command_id r = c"
  then have "map_option (set_reported now) (lookup c j) = Some r" "\<not> je_reported_to_cloud r"
    using assms by (auto simp: pending_iff ok_ops lookup_report)
  then show False by (auto simp: set_reported_def)
qed

lemma report_keeps_others:
  assumes "ok j" and "r \<in> set (pending j)" and "je_command_id r \<noteq> c"
  shows "r \<in> set (pending (report now c j))"
  using assms by (simp add: pending_iff ok_ops lookup_report)

lemma pending_after_report:
  assumes "ok j"
  shows "set (pending (report now c j)) = {q \<in> set (pending j). je_command_id q \<noteq> c}"
proof -
  have "q \<in> set (pending (report now c j)) \<longleftrightarrow> q \<in> set (pending j) \<and> je_command_id q \<noteq> c" for q
  proof (cases "je_command_id q = c")
    case True
    then show ?thesis using reported_not_pending [OF assms] by blast
  next
    case False
    then show ?thesis by (simp add: pending_iff ok_ops assms lookup_report)
  qed
  then show ?thesis by blast
qed

end

interpretation jn: journal_store get_entry record_accepted record_running record_result
  mark_reported unreported_terminal_entries journal_ok
  by unfold_locales
    (auto simp: journal_simps set_unreported get_entry_iff)

section \<open>Sequences of writes\<close>

datatype journal_op =
    WriteAccepted string string string int
  | WriteRunning string string
  | WriteResult string string jstatus "json option" "string option" "string option"
  | WriteReported string string

fun journal_step :: "journal_op \<Rightarrow> journal \<Rightarrow> journal" where
  "journal_step (WriteAccepted now cid op gen) j = record_accepted now cid op gen j"
| "journal_step (WriteRunning now cid) j = record_running now cid j"
| "journal_step (WriteResult now cid s res ec em) j = record_result now cid s res ec em j"
| "journal_step (WriteReported now cid) j = mark_reported now cid j"

fun journal_run :: "journal_op list \<Rightarrow> journal \<Rightarrow> journal" where
  "journal_run [] j = j"
| "journal_run (w # ws) j = journal_run ws (journal_step w j)"

lemma journal_step_ok: "journal_ok j \<Longrightarrow> journal_ok (journal_step w j)"
  by (cases w) (simp_all add: journal_simps)

lemma journal_run_ok: "journal_ok j \<Longrightarrow> journal_ok (journal_run ws j)"
  by (induction ws arbitrary: j) (simp_all add: journal_step_ok)

text \<open>What no write changes once a command is known.\<close>

definition same_command :: "journal_row \<Rightarrow> journal_row \<Rightarrow> bool" where
  "same_command r r' \<longleftrightarrow> je_command_id r' = je_command_id r \<and> je_operation r' = je_operation r \<and>
     je_placement_generation r' = je_placement_generation r \<and> je_created_at r' = je_created_at r"

lemma same_command_setters [simp]:
  "same_command r (set_status now s r)" "same_command r (set_result now s res ec em r)"
  "same_command r (set_reported now r)" "same_command r r"
  by (simp_all add: same_command_def set_status_def set_result_def set_reported_def)

lemma same_command_trans: "same_command a b \<Longrightarrow> same_command b c \<Longrightarrow> same_command a c"
  by (simp add: same_command_def)

lemma journal_step_keeps:
  "get_entry cid j = Some r \<Longrightarrow> \<exists>r'. get_entry cid (journal_step w j) = Some r' \<and> same_command r r'"
  by (cases w) (auto simp: journal_simps)

lemma journal_run_keeps:
  "get_entry cid j = Some r \<Longrightarrow> \<exists>r'. get_entry cid (journal_run ws j) = Some r' \<and> same_command r r'"
proof (induction ws arbitrary: j r)
  case (Cons w ws)
  then obtain r1 where "get_entry cid (journal_step w j) = Some r1" "same_command r r1"
    using journal_step_keeps by blast
  with Cons.IH show ?case by (fastforce intro: same_command_trans)
qed simp

section \<open>The properties of the journal\<close>

text \<open>
  The journal never forgets a command. Whatever sequence of writes follows, a row once present stays,
  under the same operation, placement generation and creation time it was accepted with; in
  particular a second acceptance with another generation changes nothing.
\<close>

lemma journal_never_forgets:
  assumes "get_entry cid j = Some r"
  shows "\<exists>r'. get_entry cid (journal_run ws j) = Some r' \<and> je_operation r' = je_operation r \<and>
     je_placement_generation r' = je_placement_generation r \<and> je_created_at r' = je_created_at r"
  using journal_run_keeps [OF assms, of ws] by (auto simp: same_command_def)

text \<open>
  The resend list is exact and in order. It holds the finished rows that are not marked reported and
  no others, each once, oldest first, and rows created at the same time in the order they were
  inserted.
\<close>

lemma resend_list_exact:
  assumes "journal_ok j"
  shows "set (unreported_terminal_entries j) =
      {r \<in> set j. \<not> je_reported_to_cloud r \<and> je_status r \<in> {Succeeded, Failed}} \<and>
     distinct (map je_command_id (unreported_terminal_entries j)) \<and>
     sorted (map je_created_at (unreported_terminal_entries j)) \<and>
     filter (\<lambda>r. je_created_at r = stamp) (unreported_terminal_entries j) =
      filter (\<lambda>r. je_created_at r = stamp \<and> \<not> je_reported_to_cloud r \<and> terminal (je_status r)) j"
proof -
  have "terminal s \<longleftrightarrow> s \<in> {Succeeded, Failed}" for s by (cases s) simp_all
  moreover have "distinct (map je_command_id (unreported_terminal_entries j))"
    using distinct_unreported [OF assms] by (simp add: journal_ok_def)
  moreover have "filter (\<lambda>r. je_created_at r = stamp) (sort_key je_created_at xs) =
      filter (\<lambda>r. je_created_at r = stamp) xs" for xs :: journal
    by (rule sort_key_stable)
  ultimately show ?thesis
    by (simp add: set_unreported sorted_unreported) (simp add: unreported_terminal_entries_def conj_ac)
qed

text \<open>
  Finishing and reporting a command change the resend list by that command only. A recorded result
  of a known command replaces its row by one that waits to be reported, with the recorded status, the
  encoded result and the generation of the acceptance; marking a command reported removes its row
  and keeps every other.
\<close>

lemma resend_list_changes:
  assumes "journal_ok j" and "get_entry cid j = Some r" and "s \<in> {Succeeded, Failed}"
  shows "set (unreported_terminal_entries (record_result now cid s res ec em j)) =
      insert (r\<lparr>je_status := s, je_result_json := map_option json_dumps res, je_error_code := ec,
          je_error_message := em, je_reported_to_cloud := False, je_updated_at := now\<rparr>)
        {q \<in> set (unreported_terminal_entries j). je_command_id q \<noteq> cid} \<and>
     set (unreported_terminal_entries (mark_reported now cid j)) =
      {q \<in> set (unreported_terminal_entries j). je_command_id q \<noteq> cid}"
proof -
  have "je_command_id r = cid" "terminal s" using assms(2,3) by (auto dest: get_entry_key)
  have "q \<in> set (unreported_terminal_entries (record_result now cid s res ec em j)) \<longleftrightarrow>
      q = set_result now s res ec em r \<or> q \<in> set (unreported_terminal_entries j) \<and> je_command_id q \<noteq> cid" for q
    using assms(1,2) \<open>je_command_id r = cid\<close> \<open>terminal s\<close>
    by (auto simp: jn.pending_iff jn.ok_ops journal_simps) (auto simp: set_result_def)
  moreover have "set (unreported_terminal_entries (mark_reported now cid j)) =
      {q \<in> set (unreported_terminal_entries j). je_command_id q \<noteq> cid}"
    using jn.pending_after_report [OF assms(1)] .
  ultimately show ?thesis by (auto simp: set_result_def)
qed

text \<open>
  Opening a journal upgrades it once and loses nothing. A missing table becomes an empty one, a table
  of the first schema keeps every column of every row in order and gets generation 0, a current one is
  unchanged, and opening again changes nothing.
\<close>

lemma init_schema_upgrades:
  "init_schema NoTable = CurrentTable [] \<and> init_schema (CurrentTable j) = CurrentTable j \<and>
   (\<exists>j'. init_schema (OldTable rows) = CurrentTable j' \<and> map base_row.truncate j' = rows \<and>
      list_all (\<lambda>r. je_placement_generation r = 0) j') \<and>
   init_schema (init_schema f) = init_schema f"
proof -
  have "map base_row.truncate (map (\<lambda>r. base_row.extend r (journal_row.fields 0)) rows) = rows"
    by (simp add: base_row.defs journal_row.defs map_idI)
  moreover have "list_all (\<lambda>r. je_placement_generation r = 0)
      (map (\<lambda>r. base_row.extend r (journal_row.fields 0)) rows)"
    by (simp add: list_all_iff base_row.defs journal_row.defs)
  moreover have "init_schema (init_schema f) = init_schema f"
    by (cases f) (simp_all add: init_schema_def)
  ultimately show ?thesis by (auto simp: init_schema_def)
qed

end
