(* ===== verification/Placement_Cache.thy ===== *)
theory Placement_Cache
  imports World
begin

text \<open>
  \<open>device_agent/state/placement_cache.py\<close>: the in-memory map from a container to the device and
  the placement generation it was placed under. The interface \<open>placement_store\<close> is what the
  executor and the local API use of it; \<open>pc\<close> is its interpretation.
\<close>

type_synonym placement_cache = "string \<rightharpoonup> string \<times> int"

definition cache_empty :: placement_cache where
  "cache_empty = Map.empty"

definition cache_record :: "string \<Rightarrow> string \<Rightarrow> int \<Rightarrow> placement_cache \<Rightarrow> placement_cache" where
  "cache_record cid did gen c = (if cid = [] then c else c(cid \<mapsto> (did, gen)))"

definition cache_forget :: "string \<Rightarrow> placement_cache \<Rightarrow> placement_cache" where
  "cache_forget cid c = c(cid := None)"

definition cache_get :: "string \<Rightarrow> placement_cache \<Rightarrow> (string \<times> int) option" where
  "cache_get cid c = c cid"

locale placement_store =
  fixes none :: 'c
    and put :: "string \<Rightarrow> string \<Rightarrow> int \<Rightarrow> 'c \<Rightarrow> 'c"
    and del :: "string \<Rightarrow> 'c \<Rightarrow> 'c"
    and get :: "string \<Rightarrow> 'c \<Rightarrow> (string \<times> int) option"
  assumes get_none: "get k none = None"
    and get_put: "get k (put cid did gen c) = (if k = cid \<and> cid \<noteq> [] then Some (did, gen) else get k c)"
    and get_del: "get k (del cid c) = (if k = cid then None else get k c)"
begin

lemma get_put_same: "cid \<noteq> [] \<Longrightarrow> get cid (put cid did gen c) = Some (did, gen)"
  by (simp add: get_put)

lemma get_put_other: "k \<noteq> cid \<Longrightarrow> get k (put cid did gen c) = get k c"
  by (simp add: get_put)

lemma put_put: "get k (put cid d2 g2 (put cid d1 g1 c)) = get k (put cid d2 g2 c)"
  by (simp add: get_put)

text \<open>The empty container id is never a key.\<close>

lemma empty_id_absent: "get [] c = None \<Longrightarrow> get [] (put cid did gen c) = None"
  by (simp add: get_put)

end

interpretation pc: placement_store cache_empty cache_record cache_forget cache_get
  by unfold_locales
    (auto simp: cache_empty_def cache_record_def cache_forget_def cache_get_def)

end
