(* ===== verification/Retry.thy ===== *)
theory Retry
  imports World
begin

text \<open>
  \<open>device_agent/clients/retry.py\<close>: \<open>call_with_retry\<close> as a recursion over the attempts that are
  left. \<open>call_with_retry_trace\<close> describes every run of it completely: which attempts were made,
  what lay between them and why it stopped. The locale \<open>retry_policy\<close> is what a client wants of
  its \<open>is_retryable\<close> argument: only the failures it takes to be harmless are retried.
\<close>

definition retry_delay :: "rat \<Rightarrow> rat \<Rightarrow> nat \<Rightarrow> rat" where
  "retry_delay base_delay max_delay attempt = min max_delay (base_delay * 2 ^ attempt)"

text \<open>The \<open>for\<close> loop from a given attempt on, with the number of attempts left.\<close>

fun retry_from ::
  "env \<Rightarrow> (trace, 'a) proc \<Rightarrow> (py_exc \<Rightarrow> bool) \<Rightarrow> nat \<Rightarrow> rat \<Rightarrow> rat \<Rightarrow> nat \<Rightarrow> nat \<Rightarrow> (trace, 'a) proc"
where
  "retry_from E fn retryable max_attempts base_delay max_delay attempt 0 =
     raise (AssertionError ''unreachable'')"
| "retry_from E fn retryable max_attempts base_delay max_delay attempt (Suc left) =
     tryExcept fn (\<lambda>e.
       if \<not> is_exception e then None
       else if Suc attempt = max_attempts \<or> \<not> retryable e then None
       else Some (andThen (draw_uniform E (1 / 2) (3 / 2)) (\<lambda>u.
              andThen (sleep E (retry_delay base_delay max_delay attempt * u)) (\<lambda>_.
                retry_from E fn retryable max_attempts base_delay max_delay (Suc attempt) left))))"

definition call_with_retry ::
  "env \<Rightarrow> (trace, 'a) proc \<Rightarrow> (py_exc \<Rightarrow> bool) \<Rightarrow> nat \<Rightarrow> rat \<Rightarrow> rat \<Rightarrow> (trace, 'a) proc"
where
  "call_with_retry E fn retryable max_attempts base_delay max_delay =
     retry_from E fn retryable max_attempts base_delay max_delay 0 max_attempts"

text \<open>The defaults of the signature: three attempts, half a second, five seconds.\<close>

abbreviation call_with_retry_default ::
  "env \<Rightarrow> (trace, 'a) proc \<Rightarrow> (py_exc \<Rightarrow> bool) \<Rightarrow> (trace, 'a) proc"
where
  "call_with_retry_default E fn retryable \<equiv> call_with_retry E fn retryable 3 (1 / 2) 5"

lemma total_retry_from: "total_proc fn \<Longrightarrow> total_proc (retry_from E fn ok m b d i k)"
proof (induction k arbitrary: i)
  case (Suc k)
  then show ?case
    by (auto intro!: total_tryExcept total_andThen split: if_splits)
qed simp

lemma total_call_with_retry [intro]:
  "total_proc fn \<Longrightarrow> total_proc (call_with_retry E fn ok m b d)"
  by (simp add: call_with_retry_def total_retry_from)

lemma emits_retry_from:
  assumes "emits A fn" and "\<And>u. A (Drew u)" and "\<And>d. A (Slept d)"
  shows "emits A (retry_from E fn ok m b d i k)"
proof (induction k arbitrary: i)
  case (Suc k)
  show ?case
    by (auto intro!: emits_intros assms Suc split: if_splits)
qed (simp add: appends_raise)

lemma emits_call_with_retry [emits_intros]:
  assumes "emits A fn" and "\<And>u. A (Drew u)" and "\<And>d. A (Slept d)"
  shows "emits A (call_with_retry E fn ok m b d)"
  using emits_retry_from [OF assms] by (simp add: call_with_retry_def)

section \<open>Every run, event by event\<close>

text \<open>A procedure that is one call: it appends one event, which holds its result.\<close>

definition single_call :: "(trace, 'a) proc \<Rightarrow> (py_exc + 'a \<Rightarrow> event) \<Rightarrow> bool" where
  "single_call fn mk \<longleftrightarrow> (\<forall>t. \<exists>r. fn t = Some (r, t @ [mk r]))"

lemma single_call_create [intro]: "single_call (call_create E req rid) (CreateCall req rid)"
  by (simp add: single_call_def call_create_def Let_def)

lemma single_call_delete [intro]: "single_call (call_delete E creq rid) (DeleteCall creq rid)"
  by (simp add: single_call_def call_delete_def Let_def)

lemma single_call_save [intro]: "single_call (call_save E creq rid) (SaveCall creq rid)"
  by (simp add: single_call_def call_save_def Let_def)

lemma single_call_http [intro]: "single_call (call_http E req) (HttpCall req)"
  by (simp add: single_call_def call_http_def Let_def)

text \<open>The failed attempts, each with its random draw and its sleep.\<close>

fun retry_events ::
  "(py_exc + 'a \<Rightarrow> event) \<Rightarrow> rat \<Rightarrow> rat \<Rightarrow> nat \<Rightarrow> (py_exc \<times> rat) list \<Rightarrow> event list"
where
  "retry_events mk base_delay max_delay i [] = []"
| "retry_events mk base_delay max_delay i ((e, u) # eus) =
     mk (Inl e) # Drew u # Slept (retry_delay base_delay max_delay i * uniform u (1 / 2) (3 / 2)) #
       retry_events mk base_delay max_delay (Suc i) eus"

text \<open>How a run ends: with the result of the last attempt, or cancelled in the last sleep.\<close>

definition retry_outcome ::
  "(py_exc + 'a \<Rightarrow> event) \<Rightarrow> (py_exc \<Rightarrow> bool) \<Rightarrow> nat \<Rightarrow> nat \<Rightarrow> py_exc + 'a \<Rightarrow> event list \<Rightarrow> bool"
where
  "retry_outcome mk retryable max_attempts failures r final \<longleftrightarrow>
     (final = [mk r] \<and>
        (case r of Inr _ \<Rightarrow> True
         | Inl e \<Rightarrow> \<not> is_exception e \<or> \<not> retryable e \<or> Suc failures = max_attempts)) \<or>
     (final = [] \<and> 0 < failures \<and> r = Inl CancelledError)"

lemma retry_from_trace:
  assumes "single_call fn mk"
    and "retry_from E fn ok m b d i k t = Some (r, t')" and "0 < k" and "i + k = m"
  shows "\<exists>eus final. t' = t @ retry_events mk b d i eus @ final \<and> length eus < k \<and>
     (\<forall>(e, u) \<in> set eus. is_exception e \<and> ok e) \<and>
     (final = [mk r] \<and> (case r of Inr _ \<Rightarrow> True
        | Inl e \<Rightarrow> \<not> is_exception e \<or> \<not> ok e \<or> Suc (i + length eus) = m) \<or>
      final = [] \<and> eus \<noteq> [] \<and> r = Inl CancelledError)"
  using assms(2-)
proof (induction k arbitrary: i t)
  case (Suc k)
  obtain r1 where fn: "fn t = Some (r1, t @ [mk r1])"
    using assms(1) by (auto simp: single_call_def)
  show ?case
  proof (cases "\<exists>e. r1 = Inl e \<and> is_exception e \<and> ok e \<and> Suc i \<noteq> m")
    case False
    then have "r = r1" "t' = t @ [mk r1]"
      using Suc.prems(1) fn by (auto simp: tryExcept_def split: sum.splits if_splits option.splits)
    with False show ?thesis
      by (intro exI [of _ "[]"] exI [of _ "[mk r]"]) (auto split: sum.splits)
  next
    case True
    then obtain e where e: "r1 = Inl e" "is_exception e" "ok e" "Suc i \<noteq> m" by blast
    define u where "u = random_draw E (t @ [mk r1])"
    define t1 where "t1 = t @ [mk (Inl e), Drew u]"
    define s where "s = retry_delay b d i * uniform u (1 / 2) (3 / 2)"
    have step: "Some (r, t') = (if cancelled E t1 then Some (Inl CancelledError, t1 @ [Slept s])
        else retry_from E fn ok m b d (Suc i) k (t1 @ [Slept s]))"
      using Suc.prems(1) fn e
      by (simp add: tryExcept_def andThen_def draw_uniform_def sleep_def Let_def u_def t1_def s_def
          split: if_splits)
    show ?thesis
    proof (cases "cancelled E t1")
      case True
      with step e Suc.prems(2,3) show ?thesis
        by (intro exI [of _ "[(e, u)]"] exI [of _ "[]"]) (auto simp: t1_def s_def)
    next
      case False
      have "0 < k" using e Suc.prems(3) by (cases k) auto
      with False step Suc.prems(3) obtain eus final where
        "t' = (t1 @ [Slept s]) @ retry_events mk b d (Suc i) eus @ final" "length eus < k"
        "\<forall>(e, u) \<in> set eus. is_exception e \<and> ok e"
        "final = [mk r] \<and> (case r of Inr _ \<Rightarrow> True
           | Inl e \<Rightarrow> \<not> is_exception e \<or> \<not> ok e \<or> Suc (Suc i + length eus) = m) \<or>
         final = [] \<and> eus \<noteq> [] \<and> r = Inl CancelledError"
        using Suc.IH [of "Suc i" "t1 @ [Slept s]"] by auto
      with e show ?thesis
        by (intro exI [of _ "(e, u) # eus"] exI [of _ final])
           (auto simp: t1_def s_def split: sum.splits)
    qed
  qed
qed simp

lemma call_with_retry_run:
  assumes "single_call fn mk" and "0 < m"
    and "call_with_retry E fn ok m b d t = Some (r, t')"
  obtains eus final where "t' = t @ retry_events mk b d 0 eus @ final" and "length eus < m"
    and "\<forall>(e, u) \<in> set eus. is_exception e \<and> ok e" and "retry_outcome mk ok m (length eus) r final"
proof -
  obtain eus final where *: "t' = t @ retry_events mk b d 0 eus @ final" "length eus < m"
    "\<forall>(e, u) \<in> set eus. is_exception e \<and> ok e"
    "final = [mk r] \<and> (case r of Inr _ \<Rightarrow> True
       | Inl e \<Rightarrow> \<not> is_exception e \<or> \<not> ok e \<or> Suc (0 + length eus) = m) \<or>
     final = [] \<and> eus \<noteq> [] \<and> r = Inl CancelledError"
    using retry_from_trace [OF assms(1), of E ok m b d 0 m t r t'] assms(2,3)
    by (auto simp: call_with_retry_def)
  from *(4) have "retry_outcome mk ok m (length eus) r final"
    by (auto simp: retry_outcome_def split: sum.splits)
  with *(1-3) show thesis by (rule that)
qed

section \<open>Policies\<close>

text \<open>
  A client names the failures it takes to be safe to repeat. Under a policy that retries nothing else, every
  attempt but the last ended with one of them.
\<close>

locale retry_policy =
  fixes retryable :: "py_exc \<Rightarrow> bool" and harmless :: "py_exc \<Rightarrow> bool"
  assumes retries_harmless: "retryable e \<Longrightarrow> harmless e"
begin

lemma earlier_attempts_harmless:
  assumes "single_call fn mk" and "0 < m"
    and "call_with_retry E fn retryable m b d t = Some (r, t')"
  shows "\<exists>eus final. t' = t @ retry_events mk b d 0 eus @ final \<and> length eus < m \<and>
      list_all (harmless \<circ> fst) eus \<and> retry_outcome mk retryable m (length eus) r final"
proof -
  obtain eus final where "t' = t @ retry_events mk b d 0 eus @ final" "length eus < m"
    "\<forall>(e, u) \<in> set eus. is_exception e \<and> retryable e"
    "retry_outcome mk retryable m (length eus) r final"
    using call_with_retry_run [OF assms] .
  moreover from this(3) have "list_all (harmless \<circ> fst) eus"
    using retries_harmless by (auto simp: list_all_iff)
  ultimately show ?thesis by blast
qed

end

text \<open>How many of the events are attempts.\<close>

definition count_events :: "(event \<Rightarrow> bool) \<Rightarrow> trace \<Rightarrow> nat" where
  "count_events P t = length (filter P t)"

lemma count_events_append [simp]: "count_events P (t @ t') = count_events P t + count_events P t'"
  by (simp add: count_events_def)

lemma count_events_Nil [simp]: "count_events P [] = 0"
  by (simp add: count_events_def)

lemma count_events_Cons [simp]:
  "count_events P (e # t) = (if P e then Suc (count_events P t) else count_events P t)"
  by (simp add: count_events_def)

lemma count_events_none: "list_all (\<lambda>e. \<not> P e) t \<Longrightarrow> count_events P t = 0"
  by (auto simp: count_events_def filter_empty_conv list_all_iff)

lemma count_retry_events:
  assumes "\<And>r. P (mk r)" and "\<And>u. \<not> P (Drew u)" and "\<And>d. \<not> P (Slept d)"
  shows "count_events P (retry_events mk b d i eus) = length eus"
  by (induction eus arbitrary: i) (auto simp: assms)

text \<open>The sleeps of a run, bounded by the attempts and the cap.\<close>

fun total_slept :: "trace \<Rightarrow> rat" where
  "total_slept [] = 0"
| "total_slept (Slept d # t) = d + total_slept t"
| "total_slept (_ # t) = total_slept t"

lemma total_slept_append [simp]: "total_slept (t @ t') = total_slept t + total_slept t'"
  by (induction t rule: total_slept.induct) simp_all

lemma retry_delay_bounds:
  "0 \<le> b \<Longrightarrow> 0 \<le> d \<Longrightarrow> 0 \<le> retry_delay b d i \<and> retry_delay b d i \<le> d"
  by (simp add: retry_delay_def)

text \<open>Counting the attempts that were not harmless: at most the last one.\<close>

lemma retry_events_none:
  assumes "\<And>e. harmless e \<Longrightarrow> \<not> P (mk (Inl e))" and "\<And>u. \<not> P (Drew u)" and "\<And>d. \<not> P (Slept d)"
    and "list_all (harmless \<circ> fst) eus"
  shows "count_events P (retry_events mk b d i eus) = 0"
  using assms(4) by (induction eus arbitrary: i) (auto simp: assms(1-3))

context retry_policy
begin

lemma harmful_once:
  assumes "single_call fn mk" and "0 < m"
    and "call_with_retry E fn retryable m b d t = Some (r, t')"
    and "\<And>e. harmless e \<Longrightarrow> \<not> P (mk (Inl e))" and "\<And>u. \<not> P (Drew u)" and "\<And>d. \<not> P (Slept d)"
  shows "\<exists>es. t' = t @ es \<and> count_events P es \<le> 1"
proof -
  obtain eus final where run: "t' = t @ retry_events mk b d 0 eus @ final"
    "list_all (harmless \<circ> fst) eus" "retry_outcome mk retryable m (length eus) r final"
    using earlier_attempts_harmless [OF assms(1-3)] by blast
  have "count_events P (retry_events mk b d 0 eus) = 0"
    using retry_events_none [of harmless P mk eus b d 0] run(2) assms(4-6)
    by blast
  with run(1,3) show ?thesis
    by (intro exI [of _ "retry_events mk b d 0 eus @ final"]) (auto simp: retry_outcome_def)
qed

end

end
