(* ===== verification/Agent_State.thy ===== *)
theory Agent_State
  imports Journal Placement_Cache Retry
begin

text \<open>
  The state of a running agent process: the journal, the placement cache, the outbound queue of the
  control stream with the ids of the resend batch and the stop flag of \<open>ConnectionManager\<close>, and the
  trace of calls to the outside. Also the messages of the control stream
  (\<open>device_control_spec\<close>, generated code of which only the fields the source sets are kept).
\<close>

text \<open>The status texts of the journal and the wire.\<close>

fun status_text :: "jstatus \<Rightarrow> string" where
  "status_text Accepted = ''accepted''"
| "status_text Running = ''running''"
| "status_text Succeeded = ''succeeded''"
| "status_text Failed = ''failed''"

lemma status_text_inj: "status_text s = status_text s' \<longleftrightarrow> s = s'"
  by (cases s; cases s') simp_all

section \<open>Messages to Cloud\<close>

datatype wire_status = COMMAND_STATUS_SUCCEEDED | COMMAND_STATUS_FAILED

record command_result =
  cr_command_id :: string
  cr_status :: wire_status
  cr_result_json :: string
  cr_error_code :: string
  cr_error_message :: string
  cr_placement_generation :: int

record hello =
  hello_device_id :: string
  hello_agent_version :: string
  hello_protocol_version :: string
  hello_platform :: int
  hello_architecture :: int
  hello_runtime_version :: string
  hello_startup_id :: string

datatype device_message =
    HelloMsg hello
  | HeartbeatMsg int
  | PongMsg int
  | CommandResultMsg command_result
  | CommandAcceptedMsg string int
  | CommandProgressMsg string string string
  | LocalEventMsg string string
  | TunnelRegistrationMsg string string int string

section \<open>The process\<close>

record agent =
  ag_journal :: journal
  ag_cache :: "placement_cache option"
  ag_outbound :: "device_message list option"
  ag_pending :: "string list"
  ag_stopped :: bool
  ag_trace :: trace

text \<open>A call to the outside, seen from the process.\<close>

definition on_trace :: "(trace, 'a) proc \<Rightarrow> (agent, 'a) proc" where
  "on_trace p = on_part ag_trace (\<lambda>t a. a\<lparr>ag_trace := t\<rparr>) p"

text \<open>
  A write of the journal, which stores the time it read before. SQLite commits it or raises, an
  \<open>sqlite3.OperationalError\<close> such as a full disk or a locked file, and then the table is as it was.
\<close>

definition write_journal :: "env \<Rightarrow> (string \<Rightarrow> journal \<Rightarrow> journal) \<Rightarrow> (agent, unit) proc" where
  "write_journal E f =
     andThen (on_trace (read_utc E)) (\<lambda>now a. case disk_error E (ag_trace a) of
       None \<Rightarrow> Some (Inr (), a\<lparr>ag_journal := f now (ag_journal a)\<rparr>)
     | Some m \<Rightarrow> Some (Inl (OtherException m), a))"

text \<open>A query of the journal, which SQLite answers or refuses in the same way.\<close>

definition read_journal :: "env \<Rightarrow> (journal \<Rightarrow> 'a) \<Rightarrow> (agent, 'a) proc" where
  "read_journal E f = (\<lambda>a. case disk_error E (ag_trace a) of
       None \<Rightarrow> Some (Inr (f (ag_journal a)), a)
     | Some m \<Rightarrow> Some (Inl (OtherException m), a))"

lemma on_trace_run:
  "on_trace p a = (case p (ag_trace a) of None \<Rightarrow> None | Some (r, t) \<Rightarrow> Some (r, a\<lparr>ag_trace := t\<rparr>))"
  by (simp add: on_trace_def on_part_def split: option.splits prod.splits)

lemma write_journal_run:
  "write_journal E f a = (let now = utc_now E (ag_trace a); b = a\<lparr>ag_trace := ag_trace a @ [ReadUtc now]\<rparr> in
     case disk_error E (ag_trace b) of
       None \<Rightarrow> Some (Inr (), b\<lparr>ag_journal := f now (ag_journal a)\<rparr>)
     | Some m \<Rightarrow> Some (Inl (OtherException m), b))"
  by (simp add: write_journal_def andThen_def on_trace_run read_utc_def Let_def split: option.split)

lemma write_journal_works [proc_simps]:
  "disk_works E \<Longrightarrow> write_journal E f a = Some (Inr (), a\<lparr>ag_trace := ag_trace a @ [ReadUtc (utc_now E (ag_trace a))],
     ag_journal := f (utc_now E (ag_trace a)) (ag_journal a)\<rparr>)"
  by (simp add: write_journal_run disk_works_def Let_def)

text \<open>Written or not: the journal is the only other thing that changes.\<close>

lemma write_journal_cases:
  assumes "write_journal E f a = Some (r, a')"
  obtains (written) now where "r = Inr ()" and "a' = a\<lparr>ag_trace := ag_trace a @ [ReadUtc now], ag_journal := f now (ag_journal a)\<rparr>"
  | (refused) now e where "r = Inl e" and "disk_failure E e" and "a' = a\<lparr>ag_trace := ag_trace a @ [ReadUtc now]\<rparr>"
      and "disk_error E (ag_trace a') \<noteq> None"
proof (cases "disk_error E (ag_trace a @ [ReadUtc (utc_now E (ag_trace a))])")
  case None
  with assms show thesis by (intro written [of "utc_now E (ag_trace a)"]) (simp_all add: write_journal_run Let_def)
next
  case (Some m)
  with assms show thesis
    by (intro refused [of "OtherException m" "utc_now E (ag_trace a)"]) (auto simp: write_journal_run disk_failure_def)
qed

lemma read_journal_cases:
  assumes "read_journal E f a = Some (r, a')"
  obtains (answered) "r = Inr (f (ag_journal a))" and "a' = a" and "disk_error E (ag_trace a) = None"
  | (unread) e where "r = Inl e" and "disk_failure E e" and "a' = a" and "disk_error E (ag_trace a) \<noteq> None"
proof (cases "disk_error E (ag_trace a)")
  case None
  with assms show thesis by (auto simp: read_journal_def intro: answered)
next
  case (Some m)
  with assms show thesis by (auto simp: read_journal_def disk_failure_def intro!: unread [of "OtherException m"])
qed

lemma read_journal_works [proc_simps]: "disk_works E \<Longrightarrow> read_journal E f a = Some (Inr (f (ag_journal a)), a)"
  by (simp add: read_journal_def disk_works_def)

lemma total_on_trace [intro]: "total_proc p \<Longrightarrow> total_proc (on_trace p)"
  by (auto simp: total_proc_def on_trace_run split: option.splits)

lemma total_write_journal [intro, simp]: "total_proc (write_journal E f)"
  by (simp add: total_proc_def write_journal_run Let_def split: option.splits)

lemma total_read_journal [intro, simp]: "total_proc (read_journal E f)"
  by (simp add: total_proc_def read_journal_def split: option.splits)

lemma total_modify [intro, simp]: "total_proc (modify f)"
  by (simp add: total_proc_def)

text \<open>A call to the outside leaves everything but the trace.\<close>

lemma on_trace_keeps:
  assumes "on_trace p a = Some (r, a')"
  shows "ag_journal a' = ag_journal a" "ag_cache a' = ag_cache a" "ag_outbound a' = ag_outbound a"
    "ag_pending a' = ag_pending a" "ag_stopped a' = ag_stopped a" "p (ag_trace a) = Some (r, ag_trace a')"
  using assms by (auto simp: on_trace_run split: option.splits)

end
