(* ===== verification/Container_Maker.thy ===== *)
theory Container_Maker
  imports Retry
begin

text \<open>
  \<open>device_agent/clients/container_maker_client.py\<close>: the three calls to Container Maker. Each builds
  its request first (the generated constructors may refuse a value: \<open>check_create\<close> and
  \<open>check_container\<close> of the environment, asked once the whole request is there), then calls the stub under the default retries and turns an
  \<open>RpcError\<close> into \<open>ContainerMakerClientError\<close>.
\<close>

text \<open>\<open>_is_retryable\<close>: only \<open>UNAVAILABLE\<close>.\<close>

fun grpc_retryable :: "py_exc \<Rightarrow> bool" where
  "grpc_retryable (GrpcRpcError (Some UNAVAILABLE) _) = True"
| "grpc_retryable _ = False"

definition wrap_rpc_error :: "string \<Rightarrow> py_exc \<Rightarrow> (trace, 'a) proc option" where
  "wrap_rpc_error what e = (case e of
       GrpcRpcError c m \<Rightarrow> Some (raise (ContainerMakerClientError
         (''Error '' @ what @ '' container in ContainerMaker: '' @ exc_str e)))
     | _ \<Rightarrow> None)"

definition build_publish :: "json \<Rightarrow> py_exc + publish_info" where
  "build_publish p =
     sum_bind (py_get ''publish_port'' (JInt 2222) p) (\<lambda>pp.
     sum_bind (py_get ''target_port'' (JInt 22) p) (\<lambda>tp.
     sum_bind (py_get ''protocol'' (JStr ''TCP'') p) (\<lambda>pr.
     sum_bind (py_get ''node_port'' JNull p) (\<lambda>np.
       Inr \<lparr>publish_port = pp, target_port = tp, protocol = pr, node_port = np\<rparr>))))"

definition create_container ::
  "env \<Rightarrow> json \<Rightarrow> json \<Rightarrow> json \<Rightarrow> json \<Rightarrow> json \<Rightarrow> json \<Rightarrow> resource_requirements \<Rightarrow> string \<Rightarrow>
    (trace, container_response) proc"
where
  "create_container E img name network exposure publish envs res request_id =
     andThen (lift_sum (sum_bind (py_iter publish) (sum_map build_publish))) (\<lambda>pubs.
       let request = \<lparr>image_name = img, container_name = name, network_name = network,
             exposure_level = exposure, publish_information = pubs, environment_variables = envs,
             resources = res\<rparr>
       in andThen (lift_sum (verdict (check_create E request))) (\<lambda>_.
            tryExcept (call_with_retry_default E (call_create E request request_id) grpc_retryable)
              (wrap_rpc_error ''creating'')))"

definition delete_container ::
  "env \<Rightarrow> string \<Rightarrow> json \<Rightarrow> string \<Rightarrow> (trace, delete_response) proc"
where
  "delete_container E cid network request_id =
     (let request = \<lparr>req_container_id = cid, req_network_name = network\<rparr>
      in andThen (lift_sum (verdict (check_container E request))) (\<lambda>_.
           tryExcept (call_with_retry_default E (call_delete E request request_id) grpc_retryable)
             (wrap_rpc_error ''deleting'')))"

definition save_container ::
  "env \<Rightarrow> string \<Rightarrow> json \<Rightarrow> string \<Rightarrow> (trace, save_response) proc"
where
  "save_container E cid network request_id =
     (let request = \<lparr>req_container_id = cid, req_network_name = network\<rparr>
      in andThen (lift_sum (verdict (check_container E request))) (\<lambda>_.
           tryExcept (call_with_retry_default E (call_save E request request_id) grpc_retryable)
             (wrap_rpc_error ''saving'')))"

section \<open>What the calls do to the trace\<close>

lemma total_wrap: "wrap_rpc_error w e = Some q \<Longrightarrow> total_proc q"
  by (auto simp: wrap_rpc_error_def split: py_exc.splits)

lemma emits_wrap: "wrap_rpc_error w e = Some q \<Longrightarrow> emits A q"
  by (auto simp: wrap_rpc_error_def intro: appends_raise split: py_exc.splits)

lemma total_container_maker [intro, simp]:
  "total_proc (create_container E img name network exposure publish envs res rid)"
  "total_proc (delete_container E cid network rid)"
  "total_proc (save_container E cid network rid)"
  by (auto simp: create_container_def delete_container_def save_container_def Let_def
      simp del: andThen_lift_sum
      intro!: total_andThen total_tryExcept total_call_with_retry intro: total_wrap)

text \<open>Pauses between attempts, which every call may take.\<close>

fun is_pause :: "event \<Rightarrow> bool" where
  "is_pause (Drew _) = True"
| "is_pause (Slept _) = True"
| "is_pause _ = False"

lemma emits_create_container:
  assumes "\<And>req r. A (CreateCall req rid r)" and "\<And>e. is_pause e \<Longrightarrow> A e"
  shows "emits A (create_container E img name network exposure publish envs res rid)"
  by (auto simp: create_container_def Let_def simp del: andThen_lift_sum
      intro!: emits_intros assms intro: emits_wrap)

lemma emits_delete_container:
  assumes "\<And>r. A (DeleteCall \<lparr>req_container_id = cid, req_network_name = network\<rparr> rid r)"
    and "\<And>e. is_pause e \<Longrightarrow> A e"
  shows "emits A (delete_container E cid network rid)"
  by (auto simp: delete_container_def Let_def simp del: andThen_lift_sum
      intro!: emits_intros assms intro: emits_wrap)

lemma emits_save_container:
  assumes "\<And>r. A (SaveCall \<lparr>req_container_id = cid, req_network_name = network\<rparr> rid r)"
    and "\<And>e. is_pause e \<Longrightarrow> A e"
  shows "emits A (save_container E cid network rid)"
  by (auto simp: save_container_def Let_def simp del: andThen_lift_sum
      intro!: emits_intros assms intro: emits_wrap)

text \<open>
  The failures that are retried. The source takes them for calls that never reached Container Maker; that is not
  assumed here, and gRPC does not promise it.
\<close>

fun unavailable :: "py_exc \<Rightarrow> bool" where
  "unavailable (GrpcRpcError (Some s) _) = (s = UNAVAILABLE)"
| "unavailable _ = False"

interpretation maker: retry_policy grpc_retryable unavailable
proof
  fix e
  assume "grpc_retryable e"
  then show "unavailable e" by (cases e rule: grpc_retryable.cases) simp_all
qed

text \<open>The errors the three calls can end with.\<close>

lemma wrapped_not_rpc:
  "tryExcept p (wrap_rpc_error w) t = Some (Inl e, t') \<Longrightarrow> e \<noteq> GrpcRpcError c m"
  by (auto simp: tryExcept_def wrap_rpc_error_def split: option.splits sum.splits py_exc.splits)

section \<open>The attempts of a call\<close>

text \<open>
  The attempts of one call: those before the last were \<open>UNAVAILABLE\<close>, there are at most
  three, and the last one, unless the task was cancelled in a pause, has the outcome \<open>r\<close>.
\<close>

definition maker_attempts :: "(py_exc + 'a \<Rightarrow> event) \<Rightarrow> py_exc + 'a \<Rightarrow> event list \<Rightarrow> bool" where
  "maker_attempts mk r es \<longleftrightarrow>
     (\<exists>eus final. es = retry_events mk (1 / 2) 5 0 eus @ final \<and> length eus < 3 \<and>
        list_all (unavailable \<circ> fst) eus \<and>
        retry_outcome mk grpc_retryable 3 (length eus) r final)"

text \<open>What an \<open>RpcError\<close> becomes outside the client.\<close>

definition outside_error :: "string \<Rightarrow> py_exc + 'a \<Rightarrow> py_exc + 'a" where
  "outside_error what r = (case r of
       Inl (GrpcRpcError c m) \<Rightarrow>
         Inl (ContainerMakerClientError (''Error '' @ what @ '' container in ContainerMaker: '' @ m))
     | _ \<Rightarrow> r)"

lemma outside_error_value [simp]: "outside_error w r = Inr a \<longleftrightarrow> r = Inr a"
  by (auto simp: outside_error_def split: sum.splits py_exc.splits)

lemma maker_call_run:
  assumes "single_call fn mk"
    and "andThen (lift_sum (verdict v)) (\<lambda>_. tryExcept (call_with_retry_default E fn grpc_retryable)
       (wrap_rpc_error what)) t = Some (r, t')"
  shows "(\<exists>e. v = Some e \<and> r = Inl e \<and> t' = t) \<or>
     (\<exists>r0 es. v = None \<and> t' = t @ es \<and> maker_attempts mk r0 es \<and> r = outside_error what r0)"
proof (cases v)
  case (Some e)
  with assms(2) show ?thesis by simp
next
  case None
  with assms(2) have "tryExcept (call_with_retry_default E fn grpc_retryable)
       (wrap_rpc_error what) t = Some (r, t')" by simp
  then obtain r0 where r0: "call_with_retry_default E fn grpc_retryable t = Some (r0, t')"
    "r = outside_error what r0"
    by (auto simp: tryExcept_def wrap_rpc_error_def outside_error_def
        split: option.splits sum.splits py_exc.splits)
  obtain eus final where "t' = t @ retry_events mk (1 / 2) 5 0 eus @ final" "length eus < 3"
    "list_all (unavailable \<circ> fst) eus" "retry_outcome mk grpc_retryable 3 (length eus) r0 final"
    using maker.earlier_attempts_harmless [OF assms(1) _ r0(1)] by auto
  with None r0(2) show ?thesis by (auto simp: maker_attempts_def)
qed

lemma delete_container_run:
  assumes "delete_container E cid network rid t = Some (r, t')"
  shows "(\<exists>e. check_container E \<lparr>req_container_id = cid, req_network_name = network\<rparr> = Some e \<and>
        r = Inl e \<and> t' = t) \<or>
     (\<exists>r0 es. t' = t @ es \<and> r = outside_error ''deleting'' r0 \<and>
        maker_attempts (DeleteCall \<lparr>req_container_id = cid, req_network_name = network\<rparr> rid) r0 es)"
  using maker_call_run [OF single_call_delete assms [unfolded delete_container_def Let_def]] by blast

lemma create_container_run:
  assumes "create_container E img name network exposure publish envs res rid t = Some (r, t')"
  shows "(\<exists>e. r = Inl e \<and> t' = t) \<or>
     (\<exists>r0 es pubs. t' = t @ es \<and> r = outside_error ''creating'' r0 \<and>
        sum_bind (py_iter publish) (sum_map build_publish) = Inr pubs \<and>
        maker_attempts (CreateCall \<lparr>image_name = img, container_name = name, network_name = network,
             exposure_level = exposure, publish_information = pubs, environment_variables = envs,
             resources = res\<rparr> rid) r0 es)"
proof (cases "sum_bind (py_iter publish) (sum_map build_publish)")
  case (Inl e)
  with assms show ?thesis by (auto simp: create_container_def)
next
  case (Inr pubs)
  from assms Inr have "andThen (lift_sum (verdict (check_create E \<lparr>image_name = img,
        container_name = name, network_name = network, exposure_level = exposure,
        publish_information = pubs, environment_variables = envs, resources = res\<rparr>)))
     (\<lambda>_. tryExcept (call_with_retry_default E (call_create E \<lparr>image_name = img,
        container_name = name, network_name = network, exposure_level = exposure,
        publish_information = pubs, environment_variables = envs, resources = res\<rparr> rid)
        grpc_retryable) (wrap_rpc_error ''creating'')) t = Some (r, t')"
    by (simp add: create_container_def Let_def del: verdict.simps)
  from maker_call_run [OF single_call_create this] Inr show ?thesis by blast
qed

text \<open>A value comes from the last event.\<close>

lemma maker_attempts_value: "maker_attempts mk (Inr a) es \<Longrightarrow> \<exists>fs. es = fs @ [mk (Inr a)]"
  by (auto simp: maker_attempts_def retry_outcome_def)

lemma retry_events_all:
  "(\<And>r. A (mk r)) \<Longrightarrow> (\<And>e. is_pause e \<Longrightarrow> A e) \<Longrightarrow> list_all A (retry_events mk b d i eus)"
  by (induction eus arbitrary: i) auto

lemma maker_attempts_all:
  assumes "maker_attempts mk r es" and "\<And>r. A (mk r)" and "\<And>e. is_pause e \<Longrightarrow> A e"
  shows "list_all A es"
  using assms(1) retry_events_all [of A mk, OF assms(2,3)] assms(2)
  by (auto simp: maker_attempts_def retry_outcome_def)

text \<open>The calls that ended otherwise than \<open>UNAVAILABLE\<close>, and that there is at most one.\<close>

definition conclusive :: "py_exc + 'a \<Rightarrow> bool" where
  "conclusive r = (case r of Inl e \<Rightarrow> \<not> unavailable e | Inr _ \<Rightarrow> True)"

fun conclusive_call :: "event \<Rightarrow> bool" where
  "conclusive_call (CreateCall _ _ r) = conclusive r"
| "conclusive_call (DeleteCall _ _ r) = conclusive r"
| "conclusive_call (SaveCall _ _ r) = conclusive r"
| "conclusive_call _ = False"

lemma maker_attempts_once:
  assumes "maker_attempts mk r es" and "\<And>x. conclusive_call (mk x) = conclusive x"
  shows "count_events conclusive_call es \<le> 1"
proof -
  have "count_events conclusive_call (retry_events mk b d i eus) = 0"
    if "list_all (unavailable \<circ> fst) eus" for b d i and eus :: "(py_exc \<times> rat) list"
    using that by (induction eus arbitrary: i) (auto simp: assms(2) conclusive_def)
  with assms(1) show ?thesis
    by (auto simp: maker_attempts_def retry_outcome_def)
qed

text \<open>How the attempts end, and what those before the last were.\<close>

lemma last_retry_events: "eus \<noteq> [] \<Longrightarrow> \<exists>fs d. retry_events mk b m i eus = fs @ [Slept d]"
proof (induction eus arbitrary: i)
  case (Cons eu eus)
  obtain e u where eu: "eu = (e, u)" by (cases eu)
  show ?case
  proof (cases eus)
    case Nil
    with eu show ?thesis by simp
  next
    case (Cons x xs)
    with Cons.IH [of "Suc i"] obtain fs d where "retry_events mk b m (Suc i) eus = fs @ [Slept d]" by blast
    with eu show ?thesis
      by (intro exI [of _ "mk (Inl e) # Drew u # Slept (retry_delay b m i * uniform u (1 / 2) (3 / 2)) # fs"] exI [of _ d]) simp
  qed
qed simp

lemma maker_attempts_ends:
  assumes "maker_attempts mk r es"
  shows "(\<exists>fs. es = fs @ [mk r]) \<or> (\<exists>fs d. es = fs @ [Slept d]) \<and> r = Inl CancelledError"
proof -
  obtain eus final where es: "es = retry_events mk (1 / 2) 5 0 eus @ final"
    and final: "retry_outcome mk grpc_retryable 3 (length eus) r final"
    using assms by (auto simp: maker_attempts_def)
  from final last_retry_events [of eus mk "1 / 2" 5 0] show ?thesis by (auto simp: es retry_outcome_def)
qed

lemma set_retry_events:
  "x \<in> set (retry_events mk b m i eus) \<Longrightarrow> is_pause x \<or> (\<exists>eu \<in> set eus. x = mk (Inl (fst eu)))"
proof (induction eus arbitrary: i)
  case (Cons eu eus)
  obtain e u where "eu = (e, u)" by (cases eu)
  with Cons.prems consider "x = mk (Inl (fst eu))" | "is_pause x" | "x \<in> set (retry_events mk b m (Suc i) eus)" by auto
  then show ?case by cases (use Cons.IH in auto)
qed simp

lemma maker_attempts_retried:
  assumes "maker_attempts mk r es" and "e \<in> set (butlast es)" and "\<not> is_pause e"
  shows "\<exists>m. e = mk (Inl (GrpcRpcError (Some UNAVAILABLE) m))"
proof -
  obtain eus final where es: "es = retry_events mk (1 / 2) 5 0 eus @ final" and eus: "list_all (unavailable \<circ> fst) eus"
    and final: "retry_outcome mk grpc_retryable 3 (length eus) r final"
    using assms(1) by (auto simp: maker_attempts_def)
  from final assms(2) have "e \<in> set (retry_events mk (1 / 2) 5 0 eus)"
    by (auto simp: es retry_outcome_def dest: in_set_butlastD)
  with set_retry_events assms(3) obtain eu where eu: "eu \<in> set eus" "e = mk (Inl (fst eu))" by blast
  with eus have "unavailable (fst eu)" by (simp add: list_all_iff)
  then obtain m where "fst eu = GrpcRpcError (Some UNAVAILABLE) m" by (cases "fst eu" rule: unavailable.cases) auto
  with eu show ?thesis by auto
qed

lemma maker_attempts_three:
  assumes "maker_attempts mk r es" and "\<And>x. P (mk x)" and "\<And>e. is_pause e \<Longrightarrow> \<not> P e"
  shows "count_events P es \<le> 3"
proof -
  obtain eus final where es: "es = retry_events mk (1 / 2) 5 0 eus @ final" and eus: "length eus < 3"
    and final: "retry_outcome mk grpc_retryable 3 (length eus) r final"
    using assms(1) by (auto simp: maker_attempts_def)
  have "count_events P (retry_events mk (1 / 2) 5 0 eus) = length eus" by (rule count_retry_events) (simp_all add: assms(2,3))
  with eus final show ?thesis by (auto simp: es retry_outcome_def)
qed

end
