(* ===== verification/Cloud_Client.thy ===== *)
theory Cloud_Client
  imports Retry
begin

text \<open>
  \<open>device_agent/clients/cloud_client.py\<close>: the device-scoped HTTP calls to Cloud, one definition per
  method with its path, its retry policy, its reading of the status code and of the body. A
  decoded body is a \<open>json\<close> value and \<open>None\<close> is \<open>JNull\<close>, since every caller only tests truthiness.
\<close>

section \<open>Retry policies\<close>

fun is_http_status_error :: "py_exc \<Rightarrow> bool" where
  "is_http_status_error (HttpStatusError _) = True"
| "is_http_status_error _ = False"

definition transport_retryable :: "py_exc \<Rightarrow> bool" where
  "transport_retryable e \<longleftrightarrow> is_http_error e \<and> \<not> is_http_status_error e"

fun connect_retryable :: "py_exc \<Rightarrow> bool" where
  "connect_retryable (HttpConnectError _) = True"
| "connect_retryable (HttpConnectTimeout _) = True"
| "connect_retryable _ = False"

text \<open>Failures in which no response was received, and those in which nothing was sent.\<close>

fun no_response :: "py_exc \<Rightarrow> bool" where
  "no_response (HttpConnectError _) = True"
| "no_response (HttpConnectTimeout _) = True"
| "no_response (HttpOtherError _) = True"
| "no_response _ = False"

fun never_sent :: "py_exc \<Rightarrow> bool" where
  "never_sent (HttpConnectError _) = True"
| "never_sent (HttpConnectTimeout _) = True"
| "never_sent _ = False"

interpretation transport: retry_policy transport_retryable no_response
proof
  fix e
  assume "transport_retryable e"
  then show "no_response e" by (cases e) (simp_all add: transport_retryable_def)
qed

interpretation connect: retry_policy connect_retryable never_sent
proof
  fix e
  assume "connect_retryable e"
  then show "never_sent e" by (cases e) simp_all
qed

section \<open>Requests\<close>

definition devices_path :: "string \<Rightarrow> string \<Rightarrow> string" where
  "devices_path dev suffix = ''/devices/'' @ dev @ suffix"

definition container_path :: "string \<Rightarrow> string \<Rightarrow> string \<Rightarrow> string" where
  "container_path dev cid suffix = devices_path dev (''/containers/'' @ cid @ suffix)"

definition post :: "string \<Rightarrow> json \<Rightarrow> http_request" where
  "post p b = \<lparr>verb = POST, path = p, query = [], body = Some b\<rparr>"

definition get_with :: "string \<Rightarrow> (string \<times> json) list \<Rightarrow> http_request" where
  "get_with p q = \<lparr>verb = GET, path = p, query = q, body = None\<rparr>"

text \<open>\<open>except httpx.HTTPError as e: raise CloudClientError(str(e)) from e\<close>.\<close>

definition or_cloud_error :: "(trace, 'a) proc \<Rightarrow> (trace, 'a) proc" where
  "or_cloud_error p =
     tryExcept p (\<lambda>e. if is_http_error e then Some (raise (CloudClientError (exc_str e))) else None)"

definition unexpected_status :: "http_response \<Rightarrow> (trace, 'a) proc" where
  "unexpected_status r = raise (CloudClientError (''unexpected status '' @ show_int (status_code r)))"

section \<open>The calls with a safe default\<close>

record hibernate_result =
  hr_created :: bool
  hr_command_id :: json
  hr_error :: json

definition hibernate_body :: "bool \<Rightarrow> json" where
  "hibernate_body skip_save = JObj (if skip_save then [(''skip_save'', JBool True)] else [])"

definition hibernate_request_req :: "string \<Rightarrow> string \<Rightarrow> bool \<Rightarrow> http_request" where
  "hibernate_request_req dev cid skip_save =
     post (container_path dev cid ''/hibernate-request'') (hibernate_body skip_save)"

definition request_hibernate :: "env \<Rightarrow> string \<Rightarrow> string \<Rightarrow> bool \<Rightarrow> (trace, hibernate_result) proc" where
  "request_hibernate E dev cid skip_save =
     andThen (catching is_http_error
        (call_with_retry_default E (call_http E (hibernate_request_req dev cid skip_save))
           transport_retryable))
     (\<lambda>x. case x of
        Inl e \<Rightarrow> ret \<lparr>hr_created = False, hr_command_id = JNull, hr_error = JStr (exc_str e)\<rparr>
      | Inr response \<Rightarrow>
          if status_code response = 202 then
            lift_sum (sum_bind (response_json response) (\<lambda>b.
              sum_bind (py_get ''command'' (JObj []) b) (\<lambda>c.
              sum_bind (py_get ''id'' JNull c) (\<lambda>i.
                Inr \<lparr>hr_created = True, hr_command_id = i, hr_error = JNull\<rparr>))))
          else
            (case sum_bind (response_json response) (py_get ''error'' JNull) of
               Inl e \<Rightarrow> if is_value_error e
                  then ret \<lparr>hr_created = False, hr_command_id = JNull, hr_error = JStr (content response)\<rparr>
                  else raise e
             | Inr err \<Rightarrow>
                  ret \<lparr>hr_created = False, hr_command_id = JNull, hr_error = JStr (py_str err)\<rparr>))"

definition consume_ticket_req :: "string \<Rightarrow> http_request" where
  "consume_ticket_req ticket =
     post ''/internal/terminal-tickets/consume'' (JObj [(''ticket'', JStr ticket)])"

definition consume_terminal_ticket :: "env \<Rightarrow> string \<Rightarrow> (trace, json) proc" where
  "consume_terminal_ticket E ticket =
     andThen (catching is_http_error
        (call_with_retry_default E (call_http E (consume_ticket_req ticket)) connect_retryable))
     (\<lambda>x. case x of
        Inl e \<Rightarrow> ret JNull
      | Inr response \<Rightarrow> if status_code response \<noteq> 200 then ret JNull
          else lift_sum (response_json response))"

definition no_save_status :: json where
  "no_save_status = JObj [(''status'', JNull), (''image_reference'', JNull), (''error_detail'', JNull)]"

definition save_status_req :: "string \<Rightarrow> string \<Rightarrow> string \<Rightarrow> http_request" where
  "save_status_req dev cid request_id =
     get_with (container_path dev cid ''/save-status'') [(''request_id'', JStr request_id)]"

definition get_save_status :: "env \<Rightarrow> string \<Rightarrow> string \<Rightarrow> string \<Rightarrow> (trace, json) proc" where
  "get_save_status E dev cid request_id =
     andThen (catching is_http_error (call_http E (save_status_req dev cid request_id)))
     (\<lambda>x. case x of
        Inl e \<Rightarrow> ret no_save_status
      | Inr response \<Rightarrow> if status_code response \<noteq> 200 then ret no_save_status
          else lift_sum (response_json response))"

definition get_tunnel_generation :: "env \<Rightarrow> string \<Rightarrow> (trace, json) proc" where
  "get_tunnel_generation E dev =
     andThen (catching is_http_error
        (call_http E (get_with (devices_path dev ''/tunnel/generation'') [])))
     (\<lambda>x. case x of
        Inl e \<Rightarrow> ret JNull
      | Inr response \<Rightarrow> if status_code response \<noteq> 200 then ret JNull
          else lift_sum (sum_bind (response_json response) (py_get ''generation'' JNull)))"

definition command_result_body ::
  "string \<Rightarrow> json option \<Rightarrow> string option \<Rightarrow> string option \<Rightarrow> int \<Rightarrow> json"
where
  "command_result_body status result error_code error_message gen =
     JObj [(''status'', JStr status),
       (''result'', case result of None \<Rightarrow> JNull | Some v \<Rightarrow> v),
       (''placement_generation'', JInt gen),
       (''error_code'', json_of_opt error_code), (''error_message'', json_of_opt error_message)]"

definition command_result_req ::
  "string \<Rightarrow> string \<Rightarrow> string \<Rightarrow> json option \<Rightarrow> string option \<Rightarrow> string option \<Rightarrow> int \<Rightarrow> http_request"
where
  "command_result_req dev cmd status result error_code error_message gen =
     post (devices_path dev (''/commands/'' @ cmd @ ''/result''))
       (command_result_body status result error_code error_message gen)"

definition report_command_result ::
  "env \<Rightarrow> string \<Rightarrow> string \<Rightarrow> string \<Rightarrow> json option \<Rightarrow> string option \<Rightarrow> string option \<Rightarrow> int \<Rightarrow>
    (trace, bool) proc"
where
  "report_command_result E dev cmd status result error_code error_message gen =
     andThen (catching is_http_error
        (call_with_retry E
           (call_http E (command_result_req dev cmd status result error_code error_message gen))
           transport_retryable 5 (1 / 2) 5))
     (\<lambda>x. case x of Inl e \<Rightarrow> ret False | Inr response \<Rightarrow> ret (status_code response = 200))"

section \<open>The calls that raise \<open>CloudClientError\<close>\<close>

definition get_active_container_ids :: "env \<Rightarrow> string \<Rightarrow> (trace, json) proc" where
  "get_active_container_ids E dev =
     andThen (or_cloud_error (call_with_retry_default E
        (call_http E (get_with (devices_path dev ''/active-containers'') [])) transport_retryable))
     (\<lambda>response. if status_code response \<noteq> 200 then unexpected_status response
        else lift_sum (sum_bind (response_json response) (py_get ''container_ids'' (JArr []))))"

definition reconcile_device_resources ::
  "env \<Rightarrow> string \<Rightarrow> string list \<Rightarrow> (string \<times> string) list \<Rightarrow> (trace, unit) proc"
where
  "reconcile_device_resources E dev running_ids pod_ips =
     andThen (or_cloud_error (call_with_retry_default E
        (call_http E (post (devices_path dev ''/resources/reconcile'')
           (JObj [(''running_container_ids'', JArr (map JStr running_ids)),
                  (''running_pod_ips'', JObj (map (\<lambda>(k, v). (k, JStr v)) pod_ips))])))
        transport_retryable))
     (\<lambda>response. if status_code response \<noteq> 200 then unexpected_status response else ret ())"

definition get_idle_containers :: "env \<Rightarrow> string \<Rightarrow> int \<Rightarrow> (trace, json list) proc" where
  "get_idle_containers E dev threshold =
     andThen (or_cloud_error (call_with_retry_default E
        (call_http E (get_with (devices_path dev ''/containers/idle'')
           [(''idle_threshold_seconds'', JInt threshold)])) transport_retryable))
     (\<lambda>response. if status_code response \<noteq> 200 then unexpected_status response
        else lift_sum (sum_bind (response_json response) (\<lambda>b.
          sum_bind (py_get ''containers'' (JArr []) b) (\<lambda>cs.
          sum_bind (py_iter cs) (sum_map (py_getitem ''id''))))))"

definition allocate_snapshot :: "env \<Rightarrow> string \<Rightarrow> string \<Rightarrow> string \<Rightarrow> (trace, json) proc" where
  "allocate_snapshot E dev cid request_id =
     andThen (or_cloud_error (call_with_retry_default E
        (call_http E (post (container_path dev cid ''/snapshots/allocate'')
           (JObj [(''request_id'', JStr request_id)]))) transport_retryable))
     (\<lambda>response. if status_code response \<notin> {200, 201} then unexpected_status response
        else lift_sum (sum_bind (response_json response) (py_getitem ''snapshot'')))"

definition opt_member :: "string \<Rightarrow> string option \<Rightarrow> (string \<times> json) list" where
  "opt_member k v = (case v of None \<Rightarrow> [] | Some s \<Rightarrow> [(k, JStr s)])"

definition report_snapshot_result ::
  "env \<Rightarrow> string \<Rightarrow> string \<Rightarrow> string \<Rightarrow> string \<Rightarrow> string option \<Rightarrow> string option \<Rightarrow> string option \<Rightarrow>
    (trace, unit) proc"
where
  "report_snapshot_result E dev cid snapshot_id status image_reference registry_digest error_detail =
     andThen (or_cloud_error (call_with_retry E
        (call_http E (post (container_path dev cid (''/snapshots/'' @ snapshot_id @ ''/report''))
           (JObj ([(''status'', JStr status)] @ opt_member ''image_reference'' image_reference @
              opt_member ''registry_digest'' registry_digest @ opt_member ''error_detail'' error_detail))))
        transport_retryable 5 (1 / 2) 30))
     (\<lambda>response. if status_code response \<noteq> 200 then unexpected_status response else ret ())"

definition get_container :: "env \<Rightarrow> string \<Rightarrow> string \<Rightarrow> (trace, json) proc" where
  "get_container E dev cid =
     andThen (or_cloud_error (call_with_retry_default E
        (call_http E (get_with (container_path dev cid '''') [])) transport_retryable))
     (\<lambda>response. if status_code response = 404 then ret JNull
        else if status_code response \<noteq> 200 then unexpected_status response
        else lift_sum (sum_bind (response_json response) (py_getitem ''container'')))"

definition update_container_kubernetes_id ::
  "env \<Rightarrow> string \<Rightarrow> string \<Rightarrow> string \<Rightarrow> (trace, unit) proc"
where
  "update_container_kubernetes_id E dev cid kubernetes_id =
     andThen (or_cloud_error (call_with_retry_default E
        (call_http E (post (container_path dev cid ''/kubernetes-id'')
           (JObj [(''kubernetes_id'', JStr kubernetes_id)]))) transport_retryable))
     (\<lambda>response. if status_code response \<noteq> 200 then unexpected_status response else ret ())"

lemmas cloud_defs = request_hibernate_def consume_terminal_ticket_def get_save_status_def
  get_tunnel_generation_def report_command_result_def get_active_container_ids_def
  reconcile_device_resources_def get_idle_containers_def allocate_snapshot_def
  report_snapshot_result_def get_container_def update_container_kubernetes_id_def

section \<open>What the calls do to the trace\<close>

lemma total_or_cloud_error [intro]: "total_proc p \<Longrightarrow> total_proc (or_cloud_error p)"
  by (auto simp: or_cloud_error_def intro!: total_tryExcept split: if_splits)

lemma emits_or_cloud_error [emits_intros]: "emits A p \<Longrightarrow> emits A (or_cloud_error p)"
  by (auto simp: or_cloud_error_def intro!: emits_intros split: if_splits)

lemma emits_unexpected [emits_intros]: "emits A (unexpected_status r)"
  by (simp add: unexpected_status_def appends_raise)

lemma total_unexpected [intro, simp]: "total_proc (unexpected_status r)"
  by (simp add: unexpected_status_def)

lemma total_get_save_status [intro, simp]: "total_proc (get_save_status E dev cid rid)"
  by (auto simp: get_save_status_def intro!: total_andThen split: sum.splits)

lemma total_report_command_result [intro, simp]:
  "total_proc (report_command_result E dev cmd s r c m g)"
  by (auto simp: report_command_result_def intro!: total_andThen split: sum.splits)

lemma get_save_status_run:
  "get_save_status E dev cid rid t =
     (let q = save_status_req dev cid rid; a = http E t q; t' = t @ [HttpCall q a] in
      case a of
        Inl e \<Rightarrow> Some (if is_http_error e then Inr no_save_status else Inl e, t')
      | Inr r \<Rightarrow> Some (if status_code r \<noteq> 200 then Inr no_save_status else response_json r, t'))"
  by (auto simp: get_save_status_def andThen_def catching_run call_http_def Let_def
      split: sum.splits)

end
