(* ===== verification/Save_Execution.thy ===== *)
theory Save_Execution
  imports Container_Maker Cloud_Client
begin

text \<open>
  \<open>device_agent/commands/save_execution.py\<close>: \<open>perform_save\<close> triggers a snapshot and polls Cloud until
  it confirms the outcome or the deadline passes. The loop has no bound of its own, so it is a
  \<open>partial_function (option)\<close>, \<open>None\<close> standing for a run that polls forever; under a clock that
  advances with every sleep it returns, after at most one poll more than the timeout holds
  intervals.
\<close>

record save_outcome =
  so_succeeded :: bool
  so_timed_out :: bool
  so_image_reference :: json
  so_pod_name :: json
  so_namespace :: json
  so_error :: json

definition failed_outcome :: "bool \<Rightarrow> json \<Rightarrow> json \<Rightarrow> json \<Rightarrow> save_outcome" where
  "failed_outcome timed_out pod ns err =
     \<lparr>so_succeeded = False, so_timed_out = timed_out, so_image_reference = JNull,
      so_pod_name = pod, so_namespace = ns, so_error = err\<rparr>"

definition saved_outcome :: "json \<Rightarrow> json \<Rightarrow> json \<Rightarrow> save_outcome" where
  "saved_outcome img pod ns =
     \<lparr>so_succeeded = True, so_timed_out = False, so_image_reference = img,
      so_pod_name = pod, so_namespace = ns, so_error = JNull\<rparr>"

text \<open>
  What one status answer decides: a terminal outcome, or nothing yet. \<open>status.get\<close> raises on a
  body that is not a dict, which the loop does not catch.
\<close>

definition judge_status :: "json \<Rightarrow> json \<Rightarrow> json \<Rightarrow> py_exc + save_outcome option" where
  "judge_status status pod ns =
     sum_bind (py_get ''status'' JNull status) (\<lambda>st.
     sum_bind (py_get ''image_reference'' JNull status) (\<lambda>img.
       if st = JStr ''Succeeded'' \<and> py_truthy img then Inr (Some (saved_outcome img pod ns))
       else if st = JStr ''Failed'' then
         sum_bind (py_get ''error_detail'' JNull status) (\<lambda>d.
           Inr (Some (failed_outcome False pod ns
             (if py_truthy d then d else JStr ''Snapshot reported failed''))))
       else Inr None))"

text \<open>One turn of the loop: \<open>Some\<close> leaves it, \<open>None\<close> goes on.\<close>

definition poll_once ::
  "env \<Rightarrow> config \<Rightarrow> string \<Rightarrow> string \<Rightarrow> string \<Rightarrow> json \<Rightarrow> json \<Rightarrow> rat \<Rightarrow> (trace, save_outcome option) proc"
where
  "poll_once E C dev cid request_id pod ns deadline =
     andThen (catching is_exception (get_save_status E dev cid request_id)) (\<lambda>x.
     andThen (lift_sum (judge_status (case x of Inl e \<Rightarrow> JObj [] | Inr s \<Rightarrow> s) pod ns)) (\<lambda>judged.
       case judged of
         Some out \<Rightarrow> ret (Some out)
       | None \<Rightarrow> andThen (read_monotonic E) (\<lambda>now.
           if deadline \<le> now
           then ret (Some (failed_outcome True pod ns (JStr ''Timed out waiting for snapshot confirmation'')))
           else andThen (sleep E (snapshot_poll_interval_seconds C)) (\<lambda>_. ret None))))"

partial_function (option) poll_loop ::
  "env \<Rightarrow> config \<Rightarrow> string \<Rightarrow> string \<Rightarrow> string \<Rightarrow> json \<Rightarrow> json \<Rightarrow> rat \<Rightarrow> trace \<Rightarrow>
    ((py_exc + save_outcome) \<times> trace) option"
where
  "poll_loop E C dev cid request_id pod ns deadline t =
     (case poll_once E C dev cid request_id pod ns deadline t of
        None \<Rightarrow> None
      | Some (r, t') \<Rightarrow>
         (case r of
            Inl e \<Rightarrow> Some (Inl e, t')
          | Inr judged \<Rightarrow>
             (case judged of
                Some out \<Rightarrow> Some (Inr out, t')
              | None \<Rightarrow> poll_loop E C dev cid request_id pod ns deadline t')))"

definition trigger_failed :: "py_exc \<Rightarrow> save_outcome" where
  "trigger_failed e = failed_outcome False JNull JNull (JStr (take 1000 (exc_str e)))"

fun is_maker_error :: "py_exc \<Rightarrow> bool" where
  "is_maker_error (ContainerMakerClientError _) = True"
| "is_maker_error _ = False"

definition perform_save ::
  "env \<Rightarrow> config \<Rightarrow> string \<Rightarrow> string \<Rightarrow> json \<Rightarrow> string \<Rightarrow> (trace, save_outcome) proc"
where
  "perform_save E C dev cid network request_id =
     andThen (catching is_maker_error (save_container E cid network request_id)) (\<lambda>x.
       case x of
         Inl e \<Rightarrow> ret (trigger_failed e)
       | Inr response \<Rightarrow>
           (case saved_pods response of
              Some (pod # _) \<Rightarrow>
                andThen (read_monotonic E) (\<lambda>now.
                  poll_loop E C dev cid request_id (JStr (sp_pod_name pod))
                    (JStr (sp_namespace_name pod)) (now + snapshot_poll_timeout_seconds C))
            | _ \<Rightarrow> ret (failed_outcome False JNull JNull
                  (JStr ''Snapshot trigger returned no pod information''))))"

section \<open>One turn\<close>

lemma failed_outcome_sel [simp]:
  "so_succeeded (failed_outcome b p n e) = False" "so_timed_out (failed_outcome b p n e) = b"
  "so_error (failed_outcome b p n e) = e"
  by (simp_all add: failed_outcome_def)

lemma saved_outcome_sel [simp]:
  "so_succeeded (saved_outcome i p n) = True" "so_image_reference (saved_outcome i p n) = i"
  "so_pod_name (saved_outcome i p n) = p" "so_namespace (saved_outcome i p n) = n"
  by (simp_all add: saved_outcome_def)

text \<open>A save-status answer from Cloud that confirms a pushed image.\<close>

definition confirms :: "http_response \<Rightarrow> json \<Rightarrow> bool" where
  "confirms r img \<longleftrightarrow> status_code r = 200 \<and> py_truthy img \<and>
     (\<exists>kvs. response_json r = Inr (JObj kvs) \<and> map_of kvs ''status'' = Some (JStr ''Succeeded'') \<and>
       map_of kvs ''image_reference'' = Some img)"

text \<open>The events of a poll.\<close>

fun poll_event :: "http_request \<Rightarrow> event \<Rightarrow> bool" where
  "poll_event q (HttpCall q' _) = (q' = q)"
| "poll_event q (ReadMonotonic _) = True"
| "poll_event q (Slept _) = True"
| "poll_event q _ = False"

fun is_http_of :: "http_request \<Rightarrow> event \<Rightarrow> bool" where
  "is_http_of q (HttpCall q' _) = (q' = q)"
| "is_http_of q _ = False"

lemma judge_saved:
  assumes "judge_status s pod ns = Inr (Some out)" and "so_succeeded out"
  shows "\<exists>kvs img. s = JObj kvs \<and> map_of kvs ''status'' = Some (JStr ''Succeeded'') \<and>
    map_of kvs ''image_reference'' = Some img \<and> py_truthy img \<and> out = saved_outcome img pod ns"
  using assms
  by (cases s) (auto simp: judge_status_def split: if_splits option.splits)

lemma poll_once_run:
  "poll_once E C dev cid rid pod ns deadline t =
     (let q = save_status_req dev cid rid; a = http E t q; t1 = t @ [HttpCall q a];
          answer = (case a of
             Inl e \<Rightarrow> if is_http_error e then Inr no_save_status
                      else if is_exception e then Inr (JObj []) else Inl e
           | Inr r \<Rightarrow> if status_code r \<noteq> 200 then Inr no_save_status
                      else (case response_json r of Inl e \<Rightarrow> if is_exception e then Inr (JObj []) else Inl e
                            | Inr v \<Rightarrow> Inr v)) in
      case sum_bind answer (\<lambda>s. judge_status s pod ns) of
        Inl e \<Rightarrow> Some (Inl e, t1)
      | Inr (Some out) \<Rightarrow> Some (Inr (Some out), t1)
      | Inr None \<Rightarrow>
         (let now = monotonic E t1; t2 = t1 @ [ReadMonotonic now] in
          if deadline \<le> now
          then Some (Inr (Some (failed_outcome True pod ns
                 (JStr ''Timed out waiting for snapshot confirmation''))), t2)
          else Some (if cancelled E t2 then Inl CancelledError else Inr None,
                 t2 @ [Slept (snapshot_poll_interval_seconds C)])))"
  by (auto simp: poll_once_def get_save_status_run catching_run andThen_def read_monotonic_def
      sleep_def Let_def split: sum.splits option.splits if_splits)

lemma poll_once_total: "poll_once E C dev cid rid pod ns deadline t \<noteq> None"
  by (auto simp: poll_once_run Let_def split: sum.splits option.splits if_splits)

text \<open>A turn that goes on polled once, saw the deadline ahead and slept one interval.\<close>

lemma poll_once_continues:
  assumes "poll_once E C dev cid rid pod ns deadline t = Some (Inr None, t')"
  shows "\<exists>a. t' = t @ [HttpCall (save_status_req dev cid rid) a,
        ReadMonotonic (monotonic E (t @ [HttpCall (save_status_req dev cid rid) a])),
        Slept (snapshot_poll_interval_seconds C)] \<and>
      monotonic E (t @ [HttpCall (save_status_req dev cid rid) a]) < deadline"
  using assms
  by (auto simp: poll_once_run Let_def split: sum.splits option.splits if_splits)

lemma poll_once_events:
  assumes "poll_once E C dev cid rid pod ns deadline t = Some (r, t')"
  shows "\<exists>a es. t' = t @ HttpCall (save_status_req dev cid rid) a # es \<and>
      list_all (\<lambda>e. \<not> is_http_of (save_status_req dev cid rid) e \<and>
         poll_event (save_status_req dev cid rid) e) es"
  using assms
  by (auto simp: poll_once_run Let_def split: sum.splits option.splits if_splits)

lemma response_json_exception: "response_json r = Inl e \<Longrightarrow> is_exception e"
  by (auto simp: response_json_def json_loads_def split: option.splits if_splits prod.splits)

text \<open>A turn that leaves the loop with success saw the confirmation.\<close>

lemma poll_once_confirmed:
  assumes "poll_once E C dev cid rid pod ns deadline t = Some (Inr (Some out), t')"
    and "so_succeeded out"
  shows "\<exists>r img. t' = t @ [HttpCall (save_status_req dev cid rid) (Inr r)] \<and> confirms r img \<and>
      out = saved_outcome img pod ns"
proof -
  let ?q = "save_status_req dev cid rid"
  have no: "\<not> so_succeeded out'" if "judge_status no_save_status pod ns = Inr (Some out')" for out'
    using that by (auto simp: no_save_status_def judge_status_def)
  have empty: "\<not> so_succeeded out'" if "judge_status (JObj []) pod ns = Inr (Some out')" for out'
    using that by (auto simp: judge_status_def)
  from assms obtain r v where r: "http E t ?q = Inr r" "status_code r = 200"
      "response_json r = Inr v" "judge_status v pod ns = Inr (Some out)"
      "t' = t @ [HttpCall ?q (Inr r)]"
    by (auto simp: poll_once_run Let_def sum_bind_Inr_iff dest: no empty response_json_exception
        split: sum.splits option.splits if_splits)
  with judge_saved [OF r(4) assms(2)] show ?thesis
    by (auto simp: confirms_def)
qed

section \<open>The loop\<close>

lemma poll_loop_step:
  "poll_once E C dev cid rid pod ns dl t = Some (Inr None, t') \<Longrightarrow>
    poll_loop E C dev cid rid pod ns dl t = poll_loop E C dev cid rid pod ns dl t'"
  by (subst poll_loop.simps) simp

lemma poll_loop_leave:
  "poll_once E C dev cid rid pod ns dl t = Some (Inr (Some out), t') \<Longrightarrow>
    poll_loop E C dev cid rid pod ns dl t = Some (Inr out, t')"
  by (subst poll_loop.simps) simp

lemma poll_loop_raise:
  "poll_once E C dev cid rid pod ns dl t = Some (Inl e, t') \<Longrightarrow>
    poll_loop E C dev cid rid pod ns dl t = Some (Inl e, t')"
  by (subst poll_loop.simps) simp

text \<open>
  Every returning run ends in a last turn whose verdict it returns, after turns that only polled,
  read the clock and slept.
\<close>

lemma poll_loop_last:
  assumes "poll_loop E C dev cid rid pod ns dl t = Some (r, t')"
  shows "\<exists>es. list_all (poll_event (save_status_req dev cid rid)) es \<and>
     ((\<exists>e. r = Inl e \<and> poll_once E C dev cid rid pod ns dl (t @ es) = Some (Inl e, t')) \<or>
      (\<exists>out. r = Inr out \<and> poll_once E C dev cid rid pod ns dl (t @ es) = Some (Inr (Some out), t')))"
proof -
  define P where "P = (\<lambda>E C dev cid rid pod ns dl t (x :: (py_exc + save_outcome) \<times> trace).
     \<exists>es. list_all (poll_event (save_status_req dev cid rid)) es \<and>
     ((\<exists>e. fst x = Inl e \<and> poll_once E C dev cid rid pod ns dl (t @ es) = Some (Inl e, snd x)) \<or>
      (\<exists>out. fst x = Inr out \<and>
         poll_once E C dev cid rid pod ns dl (t @ es) = Some (Inr (Some out), snd x))))"
  have "P E C dev cid rid pod ns dl t (r, t')"
  proof (rule poll_loop.raw_induct [where P = P, OF _ assms])
    fix loop E C dev cid rid pod ns dl t x
    assume IH: "\<And>E C dev cid rid pod ns dl t y. loop E C dev cid rid pod ns dl t = Some y \<Longrightarrow>
        P E C dev cid rid pod ns dl t y"
      and eq: "(case poll_once E C dev cid rid pod ns dl t of None \<Rightarrow> None
         | Some (r, t') \<Rightarrow> (case r of Inl e \<Rightarrow> Some (Inl e, t')
             | Inr v \<Rightarrow> (case v of Some out \<Rightarrow> Some (Inr out, t')
                 | None \<Rightarrow> loop E C dev cid rid pod ns dl t'))) = Some x"
    show "P E C dev cid rid pod ns dl t x"
    proof (cases "\<exists>t'. poll_once E C dev cid rid pod ns dl t = Some (Inr None, t')")
      case True
      then obtain t' where t': "poll_once E C dev cid rid pod ns dl t = Some (Inr None, t')" ..
      with eq IH have "P E C dev cid rid pod ns dl t' x" by simp
      moreover obtain a where "t' = t @ [HttpCall (save_status_req dev cid rid) a,
          ReadMonotonic (monotonic E (t @ [HttpCall (save_status_req dev cid rid) a])),
          Slept (snapshot_poll_interval_seconds C)]"
        using poll_once_continues [OF t'] by blast
      ultimately obtain es a m d where
        "list_all (poll_event (save_status_req dev cid rid)) es"
        "t' = t @ [HttpCall (save_status_req dev cid rid) a, ReadMonotonic m, Slept d]"
        "(\<exists>e. fst x = Inl e \<and> poll_once E C dev cid rid pod ns dl (t' @ es) = Some (Inl e, snd x)) \<or>
         (\<exists>out. fst x = Inr out \<and>
           poll_once E C dev cid rid pod ns dl (t' @ es) = Some (Inr (Some out), snd x))"
        unfolding P_def by blast
      then show ?thesis
        unfolding P_def
        by (intro exI [of _ "[HttpCall (save_status_req dev cid rid) a, ReadMonotonic m, Slept d] @ es"])
           simp
    next
      case False
      with eq show ?thesis
        unfolding P_def
        by (intro exI [of _ "[]"]) (auto split: option.splits sum.splits)
    qed
  qed
  then show ?thesis by (simp add: P_def)
qed

section \<open>Termination\<close>

text \<open>What the loop relies on: \<open>time.monotonic\<close> never goes back, and a sleep takes its time.\<close>

definition clock_advances :: "env \<Rightarrow> bool" where
  "clock_advances E \<longleftrightarrow> (\<forall>t e. monotonic E t \<le> monotonic E (t @ [e])) \<and>
     (\<forall>t d. monotonic E t + d \<le> monotonic E (t @ [Slept d]))"

lemma poll_loop_leaves:
  assumes "poll_once E C dev cid rid pod ns dl t = Some (v, t')" and "v \<noteq> Inr None"
  shows "(\<exists>r. poll_loop E C dev cid rid pod ns dl t = Some (r, t')) \<and>
     count_events (is_http_of (save_status_req dev cid rid)) t' =
       Suc (count_events (is_http_of (save_status_req dev cid rid)) t)"
proof -
  obtain a es where "t' = t @ HttpCall (save_status_req dev cid rid) a # es"
    "list_all (\<lambda>e. \<not> is_http_of (save_status_req dev cid rid) e \<and>
       poll_event (save_status_req dev cid rid) e) es"
    using poll_once_events [OF assms(1)] by blast
  then have "count_events (is_http_of (save_status_req dev cid rid)) t' =
       Suc (count_events (is_http_of (save_status_req dev cid rid)) t)"
    by (auto simp: list_all_iff intro!: count_events_none)
  with assms show ?thesis
    by (cases v) (auto simp: poll_loop_raise poll_loop_leave)
qed

lemma poll_loop_returns:
  assumes "clock_advances E" and "0 < snapshot_poll_interval_seconds C"
    and "dl - monotonic E t \<le> of_nat n * snapshot_poll_interval_seconds C"
  shows "\<exists>r t'. poll_loop E C dev cid rid pod ns dl t = Some (r, t') \<and>
     count_events (is_http_of (save_status_req dev cid rid)) t' \<le>
       count_events (is_http_of (save_status_req dev cid rid)) t + Suc n"
  using assms(3)
proof (induction n arbitrary: t)
  case 0
  have now: "dl \<le> monotonic E (t @ [e])" for e
  proof -
    have "dl \<le> monotonic E t" using 0 by simp
    also have "\<dots> \<le> monotonic E (t @ [e])" using assms(1) by (simp add: clock_advances_def)
    finally show ?thesis .
  qed
  obtain v t' where v: "poll_once E C dev cid rid pod ns dl t = Some (v, t')"
    using poll_once_total by fast
  have "v \<noteq> Inr None"
  proof
    assume "v = Inr None"
    then obtain a where "monotonic E (t @ [HttpCall (save_status_req dev cid rid) a]) < dl"
      using poll_once_continues v by blast
    with now show False by (simp add: leD)
  qed
  with poll_loop_leaves [OF v] show ?case by auto
next
  let ?q = "save_status_req dev cid rid" and ?I = "snapshot_poll_interval_seconds C"
  case (Suc n)
  obtain v t' where v: "poll_once E C dev cid rid pod ns dl t = Some (v, t')"
    using poll_once_total by fast
  show ?case
  proof (cases "v = Inr None")
    case True
    obtain a m where t': "t' = ((t @ [HttpCall ?q a]) @ [ReadMonotonic m]) @ [Slept ?I]"
      using poll_once_continues v True by fastforce
    have "monotonic E t \<le> monotonic E ((t @ [HttpCall ?q a]) @ [ReadMonotonic m])"
      using assms(1) unfolding clock_advances_def by (meson order_trans)
    moreover have "monotonic E ((t @ [HttpCall ?q a]) @ [ReadMonotonic m]) + ?I \<le> monotonic E t'"
      using assms(1) unfolding clock_advances_def t' by blast
    ultimately have "dl - monotonic E t' \<le> of_nat n * ?I"
      using Suc.prems by (simp add: algebra_simps)
    from Suc.IH [OF this] obtain r t'' where
      "poll_loop E C dev cid rid pod ns dl t' = Some (r, t'')"
      "count_events (is_http_of ?q) t'' \<le> count_events (is_http_of ?q) t' + Suc n" by blast
    moreover have "count_events (is_http_of ?q) t' = Suc (count_events (is_http_of ?q) t)"
      by (simp add: t')
    ultimately show ?thesis
      using v True by (auto simp: poll_loop_step)
  next
    case False
    with poll_loop_leaves [OF v] show ?thesis by auto
  qed
qed

section \<open>The whole operation\<close>

lemma emits_poll_loop:
  assumes "\<And>e. poll_event (save_status_req dev cid rid) e \<Longrightarrow> A e"
  shows "emits A (poll_loop E C dev cid rid pod ns dl)"
  unfolding emits_def
proof (intro allI impI)
  fix t r t'
  assume "poll_loop E C dev cid rid pod ns dl t = Some (r, t')"
  then obtain es v where es: "list_all (poll_event (save_status_req dev cid rid)) es"
    "poll_once E C dev cid rid pod ns dl (t @ es) = Some (v, t')"
    using poll_loop_last by blast
  then obtain a fs where "t' = (t @ es) @ HttpCall (save_status_req dev cid rid) a # fs"
    "list_all (\<lambda>e. \<not> is_http_of (save_status_req dev cid rid) e \<and>
       poll_event (save_status_req dev cid rid) e) fs"
    using poll_once_events by blast
  with es(1) assms show "\<exists>es. t' = t @ es \<and> list_all A es"
    by (intro exI [of _ "es @ HttpCall (save_status_req dev cid rid) a # fs"])
       (auto simp: list_all_iff)
qed

text \<open>The events of a save: its trigger, the polls, and pauses.\<close>

definition save_event :: "string \<Rightarrow> string \<Rightarrow> json \<Rightarrow> string \<Rightarrow> event \<Rightarrow> bool" where
  "save_event dev cid network rid e \<longleftrightarrow> is_pause e \<or> poll_event (save_status_req dev cid rid) e \<or>
     (\<exists>r. e = SaveCall \<lparr>req_container_id = cid, req_network_name = network\<rparr> rid r)"

lemma emits_perform_save: "emits (save_event dev cid network rid) (perform_save E C dev cid network rid)"
  unfolding perform_save_def
  by (intro appends_andThen emits_catching appends_case_sum appends_ret emits_save_container)
     (auto simp: save_event_def split: option.splits list.splits
       intro!: appends_ret appends_andThen emits_read_monotonic emits_poll_loop)

lemma perform_save_confirmed:
  assumes "perform_save E C dev cid network rid t = Some (Inr out, t')" and "so_succeeded out"
  shows "\<exists>es r img. t' = t @ es @ [HttpCall (save_status_req dev cid rid) (Inr r)] \<and>
     confirms r img \<and> so_image_reference out = img"
  using assms(1) unfolding perform_save_def
proof (cases rule: andThen_cases)
  case (returned x t1)
  show ?thesis
  proof (cases "\<exists>resp pod pods. x = Inr resp \<and> saved_pods resp = Some (pod # pods)")
    case False
    with returned(2) assms(2) show ?thesis
      by (auto simp: trigger_failed_def split: sum.splits option.splits list.splits)
  next
    case True
    then obtain resp pod pods where x: "x = Inr resp" "saved_pods resp = Some (pod # pods)" by blast
    let ?now = "monotonic E t1"
    have loop: "poll_loop E C dev cid rid (JStr (sp_pod_name pod)) (JStr (sp_namespace_name pod))
        (?now + snapshot_poll_timeout_seconds C) (t1 @ [ReadMonotonic ?now]) = Some (Inr out, t')"
      using returned(2) x by (simp add: andThen_def read_monotonic_def Let_def)
    then obtain es where "poll_once E C dev cid rid (JStr (sp_pod_name pod)) (JStr (sp_namespace_name pod))
        (?now + snapshot_poll_timeout_seconds C) ((t1 @ [ReadMonotonic ?now]) @ es) =
        Some (Inr (Some out), t')"
      using poll_loop_last [OF loop] by auto
    from poll_once_confirmed [OF this assms(2)] obtain r img where
      "t' = ((t1 @ [ReadMonotonic ?now]) @ es) @ [HttpCall (save_status_req dev cid rid) (Inr r)]"
      "confirms r img" "so_image_reference out = img" by auto
    moreover have "emits (save_event dev cid network rid)
        (catching is_maker_error (save_container E cid network rid))"
      by (intro emits_catching emits_save_container) (auto simp: save_event_def)
    from emitsD [OF this returned(1)] obtain es1 where "t1 = t @ es1" by blast
    ultimately show ?thesis
      by (intro exI [of _ "es1 @ [ReadMonotonic ?now] @ es"]) auto
  qed
next
  case (raised e)
  then show ?thesis by blast
qed

lemma perform_save_returns:
  assumes "clock_advances E" and "0 < snapshot_poll_interval_seconds C"
    and "snapshot_poll_timeout_seconds C \<le> of_nat n * snapshot_poll_interval_seconds C"
  shows "\<exists>r t'. perform_save E C dev cid network rid t = Some (r, t') \<and>
     count_events (is_http_of (save_status_req dev cid rid)) t' \<le>
       count_events (is_http_of (save_status_req dev cid rid)) t + Suc n"
proof -
  let ?count = "count_events (is_http_of (save_status_req dev cid rid))"
  let ?trigger = "catching is_maker_error (save_container E cid network rid)"
  have trig: "total_proc ?trigger" by (intro total_catching) simp
  obtain x t1 where x: "?trigger t = Some (x, t1)" using total_procD [OF trig, of t] by blast
  have "emits (\<lambda>e. \<not> is_http_of (save_status_req dev cid rid) e) ?trigger"
  proof (intro emits_catching emits_save_container)
    fix e
    assume "is_pause e"
    then show "\<not> is_http_of (save_status_req dev cid rid) e" by (cases e) simp_all
  qed simp
  from emitsD [OF this x] have t1: "?count t1 = ?count t"
    by (auto simp: count_events_none)
  show ?thesis
  proof (cases "\<exists>resp pod pods. x = Inr (Inr resp) \<and> saved_pods resp = Some (pod # pods)")
    case False
    then have "\<exists>r. perform_save E C dev cid network rid t = Some (r, t1)"
      unfolding perform_save_def andThen_def x
      by (auto split: sum.splits option.splits list.splits)
    then show ?thesis using t1 by auto
  next
    case True
    then obtain resp pod pods where
      x': "x = Inr (Inr resp)" "saved_pods resp = Some (pod # pods)" by blast
    let ?now = "monotonic E t1" and ?t2 = "t1 @ [ReadMonotonic (monotonic E t1)]"
    have "?now \<le> monotonic E ?t2" using assms(1) by (simp add: clock_advances_def)
    then have "?now + snapshot_poll_timeout_seconds C - monotonic E ?t2 \<le>
        of_nat n * snapshot_poll_interval_seconds C" using assms(3) by linarith
    from poll_loop_returns [OF assms(1,2) this] obtain r t' where
      "poll_loop E C dev cid rid (JStr (sp_pod_name pod)) (JStr (sp_namespace_name pod))
         (?now + snapshot_poll_timeout_seconds C) ?t2 = Some (r, t')" "?count t' \<le> ?count ?t2 + Suc n"
      by blast
    moreover from this(1) have "perform_save E C dev cid network rid t = Some (r, t')"
      unfolding perform_save_def andThen_def x x'(1) read_monotonic_def Let_def
      by (simp add: x'(2))
    moreover have "?count ?t2 = ?count t" using t1 by simp
    ultimately show ?thesis by auto
  qed
qed

end
