(* ===== verification/Demo_World.thy ===== *)
theory Demo_World
  imports Retry
begin

text \<open>
  One concrete outside world for the witnesses: Container Maker and Cloud answer every call, Cloud
  with a body of the caller's choice, the monotonic clock is the time slept so far, and random
  draws are one half.
\<close>

fun demo_clock :: "trace \<Rightarrow> rat" where
  "demo_clock [] = 0"
| "demo_clock (Slept d # t) = max 0 d + demo_clock t"
| "demo_clock (_ # t) = demo_clock t"

lemma demo_clock_append [simp]: "demo_clock (t @ t') = demo_clock t + demo_clock t'"
  by (induction t rule: demo_clock.induct) simp_all

definition demo_env :: "json \<Rightarrow> env" where
  "demo_env reply = \<lparr>
     stub_create = (\<lambda>_ _ _. Inr \<lparr>resp_container_id = ''c-1'',
       resp_container_name = ''app-pod-1706565890'', container_ip = Some ''10.0.0.7''\<rparr>),
     stub_delete = (\<lambda>_ _ _. Inr \<lparr>del_container_id = ''c-1'', del_status = ''Deleted''\<rparr>),
     stub_save = (\<lambda>_ _ _. Inr \<lparr>saved_pods =
       Some [\<lparr>sp_pod_name = ''app-pod-1706565890'', sp_namespace_name = ''ns''\<rparr>]\<rparr>),
     check_create = (\<lambda>_. None),
     check_container = (\<lambda>_. None),
     check_reply = (\<lambda>_ _. None),
     http = (\<lambda>_ _. Inr \<lparr>status_code = 200, content = json_dumps reply\<rparr>),
     open_link = (\<lambda>_ _. None),
     close_link = (\<lambda>_. None),
     cancelled = (\<lambda>_. False),
     monotonic = demo_clock,
     utc_now = (\<lambda>_. ''2026-09-30T00:00:00+00:00''),
     unix_ms = (\<lambda>_. 0),
     random_draw = (\<lambda>_. 1 / 2),
     disk_error = (\<lambda>_. None),
     enum_number = (\<lambda>_. 1)\<rparr>"

lemma demo_sel [simp]:
  "stub_create (demo_env v) t creq rid = Inr \<lparr>resp_container_id = ''c-1'',
     resp_container_name = ''app-pod-1706565890'', container_ip = Some ''10.0.0.7''\<rparr>"
  "stub_delete (demo_env v) t dreq rid = Inr \<lparr>del_container_id = ''c-1'', del_status = ''Deleted''\<rparr>"
  "stub_save (demo_env v) t dreq rid = Inr \<lparr>saved_pods =
     Some [\<lparr>sp_pod_name = ''app-pod-1706565890'', sp_namespace_name = ''ns''\<rparr>]\<rparr>"
  "check_create (demo_env v) creq = None" "check_container (demo_env v) dreq = None"
  "check_reply (demo_env v) rname args = None"
  "http (demo_env v) t hreq = Inr \<lparr>status_code = 200, content = json_dumps v\<rparr>"
  "open_link (demo_env v) t ch = None" "close_link (demo_env v) t = None" "cancelled (demo_env v) t = False" "monotonic (demo_env v) t = demo_clock t"
  "utc_now (demo_env v) t = ''2026-09-30T00:00:00+00:00''" "unix_ms (demo_env v) t = 0"
  "random_draw (demo_env v) t = 1 / 2" "disk_error (demo_env v) t = None" "enum_number (demo_env v) opn = 1"
  by (simp_all add: demo_env_def)

lemma demo_disk [simp]: "disk_works (demo_env v)"
  by (simp add: disk_works_def)

lemma demo_fair [simp]: "fair_random (demo_env v)"
  by (simp add: fair_random_def unit_draw_def)

text \<open>The answer of Cloud to a finished save.\<close>

definition saved_reply :: json where
  "saved_reply = JObj [(''status'', JStr ''Succeeded''), (''image_reference'', JStr ''reg/app:1'')]"

lemma saved_reply_plain [simp]: "json_plain saved_reply"
  by (simp add: saved_reply_def)

text \<open>Cloud answering with an error status, or with a transport failure.\<close>

definition with_http :: "(http_request \<Rightarrow> py_exc + http_response) \<Rightarrow> env \<Rightarrow> env" where
  "with_http h E = E\<lparr>http := (\<lambda>_. h)\<rparr>"

text \<open>The same world with a Container Maker that refuses every delete.\<close>

definition demo_stuck_env :: "json \<Rightarrow> env" where
  "demo_stuck_env v = (demo_env v)\<lparr>stub_delete := (\<lambda>_ _ _. Inl (GrpcRpcError (Some UNKNOWN) ''stuck''))\<rparr>"

lemma demo_stuck_sel [simp]:
  "stub_save (demo_stuck_env v) = stub_save (demo_env v)" "http (demo_stuck_env v) = http (demo_env v)"
  "check_container (demo_stuck_env v) = check_container (demo_env v)"
  "monotonic (demo_stuck_env v) = monotonic (demo_env v)" "disk_error (demo_stuck_env v) = disk_error (demo_env v)"
  "stub_delete (demo_stuck_env v) t creq rid = Inl (GrpcRpcError (Some UNKNOWN) ''stuck'')"
  by (simp_all add: demo_stuck_env_def)

text \<open>A command for the witnesses.\<close>

definition demo_command :: "operation \<Rightarrow> json \<Rightarrow> execute_command" where
  "demo_command opn cfg =
     \<lparr>command_id = ''cmd-1'', operation = opn, placement_generation = 3, container_id = ''c-1'',
      device_id = ''dev-1'', trace_id = ''req-1'', container_config_json = json_dumps cfg\<rparr>"

lemma demo_command_sel [simp]:
  "command_id (demo_command opn cfg) = ''cmd-1''" "operation (demo_command opn cfg) = opn"
  "placement_generation (demo_command opn cfg) = 3" "container_id (demo_command opn cfg) = ''c-1''"
  "device_id (demo_command opn cfg) = ''dev-1''" "trace_id (demo_command opn cfg) = ''req-1''"
  "container_config_json (demo_command opn cfg) = json_dumps cfg"
  by (simp_all add: demo_command_def)

definition demo_create_config :: json where
  "demo_create_config = JObj [(''image_name'', JStr ''base:1''), (''saved_image'', JStr ''reg/app:1''),
     (''container_name'', JStr ''app''), (''network_name'', JStr ''ns''),
     (''cpu_request'', JStr ''1''), (''cpu_limit'', JStr ''2''),
     (''memory_request'', JStr ''1Gi''), (''memory_limit'', JStr ''2Gi''),
     (''ephemeral_request'', JStr ''1Gi''), (''ephemeral_limit'', JStr ''2Gi'')]"

lemma demo_create_config_plain [simp]: "json_plain demo_create_config"
  by (simp add: demo_create_config_def)

definition demo_network_config :: json where
  "demo_network_config = JObj [(''network_name'', JStr ''ns'')]"

definition demo_skip_config :: json where
  "demo_skip_config = JObj [(''network_name'', JStr ''ns''), (''skip_save'', JBool True)]"

lemma demo_configs_plain [simp]: "json_plain demo_network_config" "json_plain demo_skip_config"
  by (simp_all add: demo_network_config_def demo_skip_config_def)

lemma demo_configs_get [simp]:
  "py_get ''network_name'' d demo_network_config = Inr (JStr ''ns'')"
  "py_get ''skip_save'' d demo_network_config = Inr d"
  "py_get ''network_name'' d demo_skip_config = Inr (JStr ''ns'')"
  "py_get ''skip_save'' d demo_skip_config = Inr (JBool True)"
  by (simp_all add: demo_network_config_def demo_skip_config_def)

end
