(* ===== verification/Handlers.thy ===== *)
theory Handlers
  imports Save_Execution Demo_World
begin

text \<open>
  The command handlers of \<open>device_agent/commands/\<close>: create, delete, resume, save and hibernate, each
  the function \<open>make_handler\<close> returns, with the device id of the Cloud client it closes over. A
  handler returns the tuple (result, error code, error message), or raises.
\<close>

type_synonym handler_result = "json option \<times> string option \<times> string option"

type_synonym handler = "execute_command \<Rightarrow> (trace, handler_result) proc"

definition done_with :: "json \<Rightarrow> handler_result" where
  "done_with v = (Some v, None, None)"

definition failed_with :: "string \<Rightarrow> string \<Rightarrow> handler_result" where
  "failed_with code msg = (None, Some code, Some msg)"

text \<open>\<open>str(e)[:1000]\<close>.\<close>

definition clipped :: "py_exc \<Rightarrow> string" where
  "clipped e = take 1000 (exc_str e)"

section \<open>Create and resume\<close>

definition create_required :: "string list" where
  "create_required = [''image_name'', ''container_name'', ''network_name'', ''cpu_request'',
     ''cpu_limit'', ''memory_request'', ''memory_limit'', ''ephemeral_request'', ''ephemeral_limit'']"

definition resume_required :: "string list" where
  "resume_required = [''saved_image'', ''container_name'', ''network_name'', ''cpu_request'',
     ''cpu_limit'', ''memory_request'', ''memory_limit'', ''ephemeral_request'', ''ephemeral_limit'']"

text \<open>\<open>[k for k in required if k not in cfg]\<close>.\<close>

fun missing_fields :: "string list \<Rightarrow> json \<Rightarrow> py_exc + string list" where
  "missing_fields [] cfg = Inr []"
| "missing_fields (k # ks) cfg =
     sum_bind (py_in k cfg) (\<lambda>there. sum_bind (missing_fields ks cfg) (\<lambda>rest.
       Inr (if there then rest else k # rest)))"

record create_args =
  ca_image :: json
  ca_name :: json
  ca_network :: json
  ca_exposure :: json
  ca_publish :: json
  ca_environment :: json
  ca_resources :: resource_requirements

text \<open>The arguments of \<open>create_container\<close> in the order they are evaluated.\<close>

definition create_args_of :: "string \<Rightarrow> json \<Rightarrow> py_exc + create_args" where
  "create_args_of image_key cfg =
     sum_bind (py_getitem image_key cfg) (\<lambda>img.
     sum_bind (py_getitem ''container_name'' cfg) (\<lambda>name.
     sum_bind (py_getitem ''network_name'' cfg) (\<lambda>network.
     sum_bind (py_get ''exposure_level'' (JInt 0) cfg) (\<lambda>exposure.
     sum_bind (py_get ''publish_information'' (JArr []) cfg) (\<lambda>publish.
     sum_bind (py_get ''environment_variables'' (JObj []) cfg) (\<lambda>envs.
     sum_bind (py_getitem ''cpu_request'' cfg) (\<lambda>cr.
     sum_bind (py_getitem ''cpu_limit'' cfg) (\<lambda>cl.
     sum_bind (py_getitem ''memory_request'' cfg) (\<lambda>mr.
     sum_bind (py_getitem ''memory_limit'' cfg) (\<lambda>ml.
     sum_bind (py_getitem ''ephemeral_request'' cfg) (\<lambda>er.
     sum_bind (py_getitem ''ephemeral_limit'' cfg) (\<lambda>el.
     sum_bind (py_get ''snapshot_size_limit'' JNull cfg) (\<lambda>sl.
       Inr \<lparr>ca_image = img, ca_name = name, ca_network = network, ca_exposure = exposure,
            ca_publish = publish, ca_environment = envs,
            ca_resources = \<lparr>cpu_request = cr, cpu_limit = cl, memory_request = mr,
              memory_limit = ml, ephemeral_request = er, ephemeral_limit = el,
              snapshot_size_limit = sl\<rparr>\<rparr>)))))))))))))"

definition created_result :: "container_response \<Rightarrow> json \<Rightarrow> json" where
  "created_result response network =
     JObj [(''kubernetes_id'', JStr (resp_container_id response)),
       (''container_name'', JStr (strip_container_maker_suffix (resp_container_name response))),
       (''ip_address'', json_of_opt (container_ip response)),
       (''associated_resources'', JArr [
          JObj [(''resource_type'', JStr ''pod''), (''resource_name'', JStr (resp_container_name response))],
          JObj [(''resource_type'', JStr ''network''), (''resource_name'', network)]])]"

text \<open>The call to Container Maker and the answer, which create and resume share word for word.\<close>

definition create_from_config :: "env \<Rightarrow> string \<Rightarrow> json \<Rightarrow> string \<Rightarrow> (trace, handler_result) proc" where
  "create_from_config E image_key cfg request_id =
     andThen (lift_sum (create_args_of image_key cfg)) (\<lambda>args.
     andThen (catching is_maker_error
        (create_container E (ca_image args) (ca_name args) (ca_network args) (ca_exposure args)
           (ca_publish args) (ca_environment args) (ca_resources args) request_id)) (\<lambda>x.
       case x of
         Inl e \<Rightarrow> ret (failed_with ''CONTAINER_MAKER_ERROR'' (clipped e))
       | Inr response \<Rightarrow> ret (done_with (created_result response (ca_network args)))))"

definition invalid_json :: "handler_result" where
  "invalid_json = failed_with ''INVALID_CONFIG'' ''container_config_json was missing or not valid JSON''"

definition fields_missing :: "string list \<Rightarrow> handler_result" where
  "fields_missing ks = failed_with ''INVALID_CONFIG''
     (''container_config_json missing required fields: '' @ py_repr (JArr (map JStr ks)))"

definition create_handler :: "env \<Rightarrow> handler" where
  "create_handler E cmd =
     (case json_loads (container_config_json cmd) of
        Inl e \<Rightarrow> if is_value_error e then ret invalid_json else raise e
      | Inr cfg \<Rightarrow>
          andThen (lift_sum (missing_fields create_required cfg)) (\<lambda>missing.
            if missing \<noteq> [] then ret (fields_missing missing)
            else create_from_config E ''image_name'' cfg (trace_id cmd)))"

definition resume_handler :: "env \<Rightarrow> handler" where
  "resume_handler E cmd =
     (case json_loads (container_config_json cmd) of
        Inl e \<Rightarrow> if is_value_error e then ret invalid_json else raise e
      | Inr cfg \<Rightarrow>
          andThen (lift_sum (missing_fields resume_required cfg)) (\<lambda>missing.
            if missing \<noteq> [] then ret (fields_missing missing)
            else andThen (lift_sum (py_getitem ''saved_image'' cfg)) (\<lambda>img.
              if \<not> py_truthy img
              then ret (failed_with ''MISSING_SAVED_IMAGE'' ''Container has no saved_image to resume from'')
              else create_from_config E ''saved_image'' cfg (trace_id cmd))))"

section \<open>Delete\<close>

text \<open>The config of the other handlers: absent or unreadable text is an empty dict.\<close>

definition optional_config :: "string \<Rightarrow> json" where
  "optional_config s =
     (if s = [] then JObj [] else case json_loads s of Inl e \<Rightarrow> JObj [] | Inr v \<Rightarrow> v)"

definition already_gone_markers :: "string list" where
  "already_gone_markers = [''404'', ''not found'', ''notfound'']"

definition already_gone :: "py_exc \<Rightarrow> bool" where
  "already_gone e \<longleftrightarrow> list_ex (\<lambda>m. py_contains m (py_lower (exc_str e))) already_gone_markers"

definition delete_handler :: "env \<Rightarrow> handler" where
  "delete_handler E cmd =
     andThen (lift_sum (py_get ''network_name'' (JStr []) (optional_config (container_config_json cmd))))
     (\<lambda>network.
     andThen (catching is_maker_error (delete_container E (container_id cmd) network (trace_id cmd)))
     (\<lambda>x. case x of
        Inr response \<Rightarrow> ret (done_with (JObj [(''container_id'', JStr (del_container_id response)),
            (''status'', JStr (del_status response))]))
      | Inl e \<Rightarrow> if already_gone e
          then ret (done_with (JObj [(''container_id'', JStr (container_id cmd)),
            (''status'', JStr ''already_deleted'')]))
          else ret (failed_with ''CONTAINER_MAKER_ERROR'' (clipped e))))"

section \<open>Save and hibernate\<close>

text \<open>
  \<open>(outcome.error or default)[:1000]\<close>. Only strings and lists can be sliced. A list is raised here as the
  exception its binding raises when \<open>record_result\<close> is called with it, which the executor turns into the same
  row.
\<close>

fun clipped_error :: "json \<Rightarrow> string \<Rightarrow> py_exc + string" where
  "clipped_error (JStr s) dflt = Inr (if s = [] then dflt else take 1000 s)"
| "clipped_error (JArr vs) dflt =
     (if vs = [] then Inr dflt
      else Inl (OtherException (''Error binding parameter 4: type '' @ quoted ''list'' @ '' is not supported'')))"
| "clipped_error (JObj kvs) dflt =
     (if kvs = [] then Inr dflt else Inl (TypeError (''unhashable type: '' @ quoted ''slice'')))"
| "clipped_error v dflt =
     (if py_truthy v then Inl (TypeError (quoted (type_name v) @ '' object is not subscriptable'')) else Inr dflt)"

definition save_failure_code :: "save_outcome \<Rightarrow> string" where
  "save_failure_code out = (if so_timed_out out then ''SNAPSHOT_TIMED_OUT'' else ''SNAPSHOT_FAILED'')"

definition saved_result :: "save_outcome \<Rightarrow> json" where
  "saved_result out = JObj [(''saved_image'', so_image_reference out),
     (''pod_name'', so_pod_name out), (''namespace'', so_namespace out)]"

definition save_handler :: "env \<Rightarrow> config \<Rightarrow> string \<Rightarrow> handler" where
  "save_handler E C dev cmd =
     andThen (lift_sum (py_get ''network_name'' (JStr []) (optional_config (container_config_json cmd))))
     (\<lambda>network.
     andThen (perform_save E C dev (container_id cmd) network (trace_id cmd)) (\<lambda>out.
       if \<not> so_succeeded out
       then andThen (lift_sum (clipped_error (so_error out) ''Save failed'')) (\<lambda>msg.
              ret (failed_with (save_failure_code out) msg))
       else ret (done_with (saved_result out))))"

text \<open>The fast path of hibernate: delete without a save.\<close>

definition hibernate_without_save :: "env \<Rightarrow> execute_command \<Rightarrow> json \<Rightarrow> (trace, handler_result) proc" where
  "hibernate_without_save E cmd network =
     andThen (catching is_maker_error (delete_container E (container_id cmd) network (trace_id cmd)))
     (\<lambda>x. case x of
        Inr response \<Rightarrow> ret (done_with (JObj []))
      | Inl e \<Rightarrow> if already_gone e then ret (done_with (JObj []))
          else ret (failed_with ''POD_DELETE_FAILED'' (clipped e)))"

definition delete_after_save_error :: "json \<Rightarrow> py_exc \<Rightarrow> string" where
  "delete_after_save_error saved_image e =
     json_dumps (JObj [(''saved_image'', saved_image), (''detail'', JStr (take 800 (exc_str e)))])"

definition hibernate_with_save ::
  "env \<Rightarrow> config \<Rightarrow> string \<Rightarrow> execute_command \<Rightarrow> json \<Rightarrow> (trace, handler_result) proc"
where
  "hibernate_with_save E C dev cmd network =
     andThen (perform_save E C dev (container_id cmd) network (trace_id cmd)) (\<lambda>out.
       if \<not> so_succeeded out
       then andThen (lift_sum (clipped_error (so_error out) ''Snapshot failed'')) (\<lambda>msg.
              ret (failed_with (save_failure_code out) msg))
       else
         andThen (catching is_maker_error (delete_container E (container_id cmd) network (trace_id cmd)))
         (\<lambda>x. case x of
            Inl e \<Rightarrow> ret (failed_with ''POD_DELETE_FAILED_AFTER_SAVE''
              (delete_after_save_error (so_image_reference out) e))
          | Inr response \<Rightarrow> ret (done_with (saved_result out))))"

definition hibernate_handler :: "env \<Rightarrow> config \<Rightarrow> string \<Rightarrow> handler" where
  "hibernate_handler E C dev cmd =
     (let cfg = optional_config (container_config_json cmd) in
      andThen (lift_sum (py_get ''network_name'' (JStr []) cfg)) (\<lambda>network.
      andThen (lift_sum (py_get ''skip_save'' JNull cfg)) (\<lambda>skip.
        if py_truthy skip then hibernate_without_save E cmd network
        else hibernate_with_save E C dev cmd network)))"

section \<open>Runs of the handlers\<close>

text \<open>The events of a delete.\<close>

definition delete_event :: "string \<Rightarrow> json \<Rightarrow> string \<Rightarrow> event \<Rightarrow> bool" where
  "delete_event cid network rid e \<longleftrightarrow> is_pause e \<or>
     (\<exists>r. e = DeleteCall \<lparr>req_container_id = cid, req_network_name = network\<rparr> rid r)"

fun is_delete_call :: "event \<Rightarrow> bool" where
  "is_delete_call (DeleteCall _ _ _) = True"
| "is_delete_call _ = False"

fun is_save_call :: "event \<Rightarrow> bool" where
  "is_save_call (SaveCall _ _ _) = True"
| "is_save_call _ = False"

fun is_create_call :: "event \<Rightarrow> bool" where
  "is_create_call (CreateCall _ _ _) = True"
| "is_create_call _ = False"

fun is_http_call :: "event \<Rightarrow> bool" where
  "is_http_call (HttpCall _ _) = True"
| "is_http_call _ = False"

lemma save_event_no_delete: "save_event dev cid network rid e \<Longrightarrow> \<not> is_delete_call e \<and> \<not> is_create_call e"
  by (cases e) (auto simp: save_event_def)

lemma delete_event_kind:
  "delete_event cid network rid e \<Longrightarrow> \<not> is_save_call e \<and> \<not> is_create_call e \<and> \<not> is_http_call e"
  by (cases e) (auto simp: delete_event_def)

lemma delete_container_emits:
  "emits (delete_event cid network rid) (delete_container E cid network rid)"
  by (intro emits_delete_container) (auto simp: delete_event_def)

lemma delete_container_value:
  assumes "delete_container E cid network rid t = Some (Inr resp, t')"
  shows "\<exists>es. t' = t @ es @ [DeleteCall \<lparr>req_container_id = cid, req_network_name = network\<rparr> rid (Inr resp)]"
proof -
  from delete_container_run [OF assms] obtain r0 es where es: "t' = t @ es"
    and r0: "Inr resp = outside_error ''deleting'' r0"
    and run: "maker_attempts (DeleteCall \<lparr>req_container_id = cid, req_network_name = network\<rparr> rid) r0 es"
    by auto
  from r0 [symmetric] have "r0 = Inr resp" by simp
  with run maker_attempts_value obtain fs where
    "es = fs @ [DeleteCall \<lparr>req_container_id = cid, req_network_name = network\<rparr> rid (Inr resp)]"
    by metis
  with es show ?thesis by simp
qed

text \<open>Cloud has confirmed a pushed image for this save request.\<close>

definition save_confirmed :: "string \<Rightarrow> string \<Rightarrow> string \<Rightarrow> json \<Rightarrow> trace \<Rightarrow> bool" where
  "save_confirmed dev cid rid img t \<longleftrightarrow>
     (\<exists>r. HttpCall (save_status_req dev cid rid) (Inr r) \<in> set t \<and> confirms r img)"

lemma catching_cases:
  assumes "catching P p t = Some (x, t')"
  obtains (gave) a where "p t = Some (Inr a, t')" and "x = Inr (Inr a)"
  | (caught) e where "p t = Some (Inl e, t')" and "P e" and "x = Inr (Inl e)"
  | (raised) e where "p t = Some (Inl e, t')" and "\<not> P e" and "x = Inl e"
  using assms by (auto simp: catching_run split: option.splits sum.splits if_splits)

text \<open>
  The two shapes of a hibernate run with a save: nothing was confirmed, and there are no delete
  events and no success; or a confirmation is followed by the delete and its outcome.
\<close>

lemma hibernate_with_save_run:
  assumes "hibernate_with_save E C dev cmd network t = Some (r, t')"
  obtains (unsaved) es where "t' = t @ es"
      and "list_all (save_event dev (container_id cmd) network (trace_id cmd)) es"
      and "\<forall>v ec em. r = Inr (v, ec, em) \<longrightarrow> v = None \<and>
        ec \<in> {Some ''SNAPSHOT_TIMED_OUT'', Some ''SNAPSHOT_FAILED''}"
  | (saved) es q ds img out x where "t' = t @ es @ q # ds"
      and "q = HttpCall (save_status_req dev (container_id cmd) (trace_id cmd)) (Inr out)"
      and "confirms out img"
      and "list_all (save_event dev (container_id cmd) network (trace_id cmd)) (es @ [q])"
      and "delete_container E (container_id cmd) network (trace_id cmd) (t @ es @ [q]) = Some (x, t')"
      and "list_all (delete_event (container_id cmd) network (trace_id cmd)) ds"
      and "\<And>resp. x = Inr resp \<Longrightarrow> \<exists>kvs. r = Inr (done_with (JObj ((''saved_image'', img) # kvs)))"
      and "\<And>m. x = Inl (ContainerMakerClientError m) \<Longrightarrow> r = Inr (failed_with
         ''POD_DELETE_FAILED_AFTER_SAVE'' (delete_after_save_error img (ContainerMakerClientError m)))"
      and "\<And>e. x = Inl e \<Longrightarrow> \<not> is_maker_error e \<Longrightarrow> r = Inl e"
  using assms unfolding hibernate_with_save_def
proof (cases rule: andThen_cases)
  case (raised e)
  then obtain es where "t' = t @ es" "list_all (save_event dev (container_id cmd) network (trace_id cmd)) es"
    using emitsD [OF emits_perform_save] by blast
  with raised(2) show thesis by (intro unsaved) auto
next
  case (returned out t1)
  obtain es where es: "t1 = t @ es" "list_all (save_event dev (container_id cmd) network (trace_id cmd)) es"
    using emitsD [OF emits_perform_save returned(1)] by blast
  show thesis
  proof (cases "so_succeeded out")
    case False
    with returned(2) have "t' = t1" "\<forall>v ec em. r = Inr (v, ec, em) \<longrightarrow> v = None \<and>
        ec \<in> {Some ''SNAPSHOT_TIMED_OUT'', Some ''SNAPSHOT_FAILED''}"
      by (auto simp: failed_with_def save_failure_code_def split: sum.splits if_splits)
    with es show thesis by (intro unsaved) auto
  next
    case True
    from perform_save_confirmed [OF returned(1) True] obtain fs hr img where
      q: "t1 = t @ fs @ [HttpCall (save_status_req dev (container_id cmd) (trace_id cmd)) (Inr hr)]"
      "confirms hr img" "so_image_reference out = img" by blast
    with es have all: "list_all (save_event dev (container_id cmd) network (trace_id cmd))
        (fs @ [HttpCall (save_status_req dev (container_id cmd) (trace_id cmd)) (Inr hr)])" by simp
    from returned(2) True have "andThen (catching is_maker_error
        (delete_container E (container_id cmd) network (trace_id cmd)))
        (\<lambda>x. case x of Inl e \<Rightarrow> ret (failed_with ''POD_DELETE_FAILED_AFTER_SAVE'' (delete_after_save_error img e))
          | Inr response \<Rightarrow> ret (done_with (saved_result out))) t1 = Some (r, t')"
      using q(3) by simp
    then obtain x where x: "delete_container E (container_id cmd) network (trace_id cmd) t1 = Some (x, t')"
      and r: "r = (case x of Inr _ \<Rightarrow> Inr (done_with (saved_result out))
         | Inl e \<Rightarrow> if is_maker_error e
            then Inr (failed_with ''POD_DELETE_FAILED_AFTER_SAVE'' (delete_after_save_error img e)) else Inl e)"
      by (auto simp: andThen_def catching_run split: option.splits sum.splits if_splits)
    obtain ds where ds: "t' = t1 @ ds" "list_all (delete_event (container_id cmd) network (trace_id cmd)) ds"
      using emitsD [OF delete_container_emits x] by blast
    show thesis
      by (rule saved [OF _ refl q(2) all _ ds(2)])
        (use x r ds q in \<open>auto simp: saved_result_def\<close>)
  qed
qed

text \<open>A create or resume once its config is complete.\<close>

lemma create_args_fields:
  assumes "create_args_of key (JObj kvs) = Inr args"
  shows "map_of kvs key = Some (ca_image args)" "map_of kvs ''container_name'' = Some (ca_name args)"
    "map_of kvs ''network_name'' = Some (ca_network args)"
proof -
  have item: "py_getitem k (JObj kvs) = Inr v \<Longrightarrow> map_of kvs k = Some v" for k v
    by (simp split: option.splits)
  from assms show "map_of kvs key = Some (ca_image args)" "map_of kvs ''container_name'' = Some (ca_name args)"
    "map_of kvs ''network_name'' = Some (ca_network args)"
    by (auto simp: create_args_of_def sum_bind_Inr_iff simp del: py_getitem.simps py_get.simps dest!: item)
qed

definition create_request_of :: "create_args \<Rightarrow> publish_info list \<Rightarrow> create_request" where
  "create_request_of args pubs = \<lparr>image_name = ca_image args, container_name = ca_name args,
     network_name = ca_network args, exposure_level = ca_exposure args, publish_information = pubs,
     environment_variables = ca_environment args, resources = ca_resources args\<rparr>"

definition create_reply :: "json \<Rightarrow> py_exc + container_response \<Rightarrow> py_exc + handler_result" where
  "create_reply network x = (case x of
       Inr resp \<Rightarrow> Inr (done_with (created_result resp network))
     | Inl e \<Rightarrow> if is_maker_error e then Inr (failed_with ''CONTAINER_MAKER_ERROR'' (clipped e)) else Inl e)"

lemma create_from_config_run:
  assumes "create_from_config E key cfg rid t = Some (r, t')"
  shows "(t' = t \<and> (\<forall>v. r \<noteq> Inr (Some v, None, None))) \<or>
     (\<exists>args pubs r0 es. create_args_of key cfg = Inr args \<and> t' = t @ es \<and>
        maker_attempts (CreateCall (create_request_of args pubs) rid) r0 es \<and>
        r = create_reply (ca_network args) (outside_error ''creating'' r0))"
proof (cases "create_args_of key cfg")
  case (Inl e)
  with assms have "r = Inl e" "t' = t" by (simp_all add: create_from_config_def)
  then show ?thesis by simp
next
  case (Inr args)
  with assms obtain x where x: "create_container E (ca_image args) (ca_name args) (ca_network args)
      (ca_exposure args) (ca_publish args) (ca_environment args) (ca_resources args) rid t = Some (x, t')"
    and r: "r = create_reply (ca_network args) x"
    by (auto simp: create_from_config_def andThen_def catching_run create_reply_def
        split: option.splits sum.splits if_splits)
  from create_container_run [OF x] show ?thesis
  proof
    assume "\<exists>e. x = Inl e \<and> t' = t"
    with r show ?thesis by (auto simp: create_reply_def failed_with_def split: if_splits)
  next
    assume "\<exists>r0 es pubs. t' = t @ es \<and> x = outside_error ''creating'' r0 \<and>
        sum_bind (py_iter (ca_publish args)) (sum_map build_publish) = Inr pubs \<and>
        maker_attempts (CreateCall \<lparr>image_name = ca_image args, container_name = ca_name args,
          network_name = ca_network args, exposure_level = ca_exposure args,
          publish_information = pubs, environment_variables = ca_environment args,
          resources = ca_resources args\<rparr> rid) r0 es"
    with r Inr show ?thesis unfolding create_request_of_def by blast
  qed
qed

lemma missing_fields_obj:
  "missing_fields ks (JObj kvs) = Inr (filter (\<lambda>k. map_of kvs k = None) ks)"
  by (induction ks) (auto simp: map_of_eq_None_iff split: option.splits)

lemma config_decode_error: "json_loads s = Inl e \<Longrightarrow> is_value_error e"
  by (auto simp: json_loads_def split: option.splits if_splits prod.splits)

end
