(* ===== verification/Executor.thy ===== *)
theory Executor
  imports Agent_State Handlers
begin

text \<open>
  \<open>device_agent/commands/executor.py\<close>: \<open>CommandExecutor\<close>. A handler runs on the trace of outside calls;
  its result is written to the journal and then handed to \<open>report_result\<close>, a parameter here. The
  interface \<open>result_reporter\<close> is what the executor relies on: reporting may mark rows but never
  touches a result. It is interpreted in \<open>Wiring\<close> by the closure of \<open>main.py\<close>.
\<close>

type_synonym reporter =
  "string \<Rightarrow> jstatus \<Rightarrow> int \<Rightarrow> json option \<Rightarrow> string option \<Rightarrow> string option \<Rightarrow> (agent, unit) proc"

text \<open>\<open>self._handlers\<close> after the calls of \<open>register\<close>.\<close>

type_synonym handler_table = "operation \<rightharpoonup> handler"

definition register :: "operation \<Rightarrow> handler \<Rightarrow> handler_table \<Rightarrow> handler_table" where
  "register opn h H = H(opn \<mapsto> h)"

definition placing_operations :: "string list" where
  "placing_operations = [''Create'', ''Resume'']"

definition unplacing_operations :: "string list" where
  "unplacing_operations = [''Delete'', ''Hibernate'']"

definition cache_after :: "execute_command \<Rightarrow> placement_cache \<Rightarrow> placement_cache" where
  "cache_after cmd c =
     (let opn = operation_name (operation cmd) in
      if opn \<in> set placing_operations
      then cache_record (container_id cmd) (device_id cmd) (placement_generation cmd) c
      else if opn \<in> set unplacing_operations then cache_forget (container_id cmd) c
      else c)"

definition update_placement_cache :: "execute_command \<Rightarrow> (agent, unit) proc" where
  "update_placement_cache cmd = modify (\<lambda>a. a\<lparr>ag_cache := map_option (cache_after cmd) (ag_cache a)\<rparr>)"

definition finish_command ::
  "env \<Rightarrow> reporter \<Rightarrow> string \<Rightarrow> jstatus \<Rightarrow> int \<Rightarrow> json option \<Rightarrow> string option \<Rightarrow> string option \<Rightarrow> (agent, unit) proc"
where
  "finish_command E report cid s gen result ec em =
     andThen (write_journal E (\<lambda>now. record_result now cid s result ec em))
       (\<lambda>_. report cid s gen result ec em)"

text \<open>What the \<open>try\<close> block does with the tuple the handler returned.\<close>

definition conclude :: "env \<Rightarrow> reporter \<Rightarrow> string \<Rightarrow> execute_command \<Rightarrow> handler_result \<Rightarrow> (agent, unit) proc" where
  "conclude E report cid cmd x =
     (case x of (result, ec, em) \<Rightarrow>
        (case ec of
           Some code \<Rightarrow> finish_command E report cid Failed (placement_generation cmd) None (Some code) em
         | None \<Rightarrow> andThen (update_placement_cache cmd) (\<lambda>_.
             finish_command E report cid Succeeded (placement_generation cmd) result None None)))"

definition accept_if_new :: "env \<Rightarrow> string \<Rightarrow> execute_command \<Rightarrow> (agent, unit) proc" where
  "accept_if_new E cid cmd = andThen (read_journal E (has_seen cid)) (\<lambda>seen.
     if seen then ret ()
     else write_journal E (\<lambda>now. record_accepted now cid (operation_name (operation cmd))
            (placement_generation cmd)))"

definition handler_raised :: "env \<Rightarrow> reporter \<Rightarrow> string \<Rightarrow> execute_command \<Rightarrow> py_exc \<Rightarrow> (agent, unit) proc option" where
  "handler_raised E report cid cmd e =
     (if is_exception e
      then Some (finish_command E report cid Failed (placement_generation cmd) None
                   (Some ''HANDLER_EXCEPTION'') (Some (take 1000 (exc_str e))))
      else None)"

definition no_handler_message :: "env \<Rightarrow> operation \<Rightarrow> string" where
  "no_handler_message E opn = ''No handler registered for operation '' @ show_int (enum_number E opn)"

definition execute :: "env \<Rightarrow> handler_table \<Rightarrow> reporter \<Rightarrow> string \<Rightarrow> execute_command \<Rightarrow> (agent, unit) proc" where
  "execute E H report cid cmd =
     (case H (operation cmd) of
        None \<Rightarrow> finish_command E report cid Failed (placement_generation cmd) None (Some ''NO_HANDLER'')
          (Some (no_handler_message E (operation cmd)))
      | Some h \<Rightarrow>
          andThen (accept_if_new E cid cmd) (\<lambda>_.
          andThen (write_journal E (\<lambda>now. record_running now cid)) (\<lambda>_.
          tryExcept (andThen (on_trace (h cmd)) (conclude E report cid cmd))
            (handler_raised E report cid cmd))))"

section \<open>What the executor relies on\<close>

text \<open>The part of a row that reporting leaves alone.\<close>

definition same_result :: "journal_row \<Rightarrow> journal_row \<Rightarrow> bool" where
  "same_result r r' \<longleftrightarrow> same_command r r' \<and> je_status r' = je_status r \<and>
     je_result_json r' = je_result_json r \<and> je_error_code r' = je_error_code r \<and>
     je_error_message r' = je_error_message r"

lemma same_result_refl [simp]: "same_result r r"
  by (simp add: same_result_def)

lemma same_result_reported [simp]: "same_result r (set_reported now r)"
  by (simp add: same_result_def) (simp add: set_reported_def)

text \<open>A row that holds this result; \<open>journaled\<close>: the row of a command does, not yet reported.\<close>

definition holds :: "jstatus \<Rightarrow> json option \<Rightarrow> string option \<Rightarrow> string option \<Rightarrow> journal_row \<Rightarrow> bool" where
  "holds s result ec em r \<longleftrightarrow> je_status r = s \<and> je_result_json r = map_option json_dumps result \<and>
     je_error_code r = ec \<and> je_error_message r = em"

definition journaled ::
  "string \<Rightarrow> jstatus \<Rightarrow> json option \<Rightarrow> string option \<Rightarrow> string option \<Rightarrow> agent \<Rightarrow> bool"
where
  "journaled cid s result ec em a \<longleftrightarrow> (case get_entry cid (ag_journal a) of
       None \<Rightarrow> False
     | Some r \<Rightarrow> holds s result ec em r \<and> \<not> je_reported_to_cloud r)"

text \<open>A reporter that never returns when it is called before the result is in the journal.\<close>

definition checked :: "reporter \<Rightarrow> reporter" where
  "checked report = (\<lambda>cid s gen result ec em a.
     if journaled cid s result ec em a then report cid s gen result ec em a else None)"

definition known :: "string \<Rightarrow> agent \<Rightarrow> bool" where
  "known cid a \<longleftrightarrow> has_seen cid (ag_journal a)"

lemma known_get: "known cid a \<longleftrightarrow> (\<exists>r. get_entry cid (ag_journal a) = Some r)"
  by (auto simp: known_def has_seen_get)

text \<open>Finishing: the result is in the journal and reported, or the disk refused it and the row is as it was.\<close>

lemma finish_cases:
  assumes "finish_command E report cid s gen result ec em a = Some (r, a')"
  obtains (recorded) now where "report cid s gen result ec em (a\<lparr>ag_trace := ag_trace a @ [ReadUtc now],
       ag_journal := record_result now cid s result ec em (ag_journal a)\<rparr>) = Some (r, a')"
  | (refused) now e where "r = Inl e" and "disk_failure E e" and "a' = a\<lparr>ag_trace := ag_trace a @ [ReadUtc now]\<rparr>"
  using assms unfolding finish_command_def
proof (cases rule: andThen_cases)
  case (raised e)
  from raised(1) show thesis by (cases rule: write_journal_cases) (use raised(2) refused in auto)
next
  case (returned u a1)
  from returned(1) show thesis by (cases rule: write_journal_cases) (use returned(2) recorded in auto)
qed

lemma finish_command_works:
  assumes "disk_works E"
  shows "finish_command E report cid s gen result ec em a =
     report cid s gen result ec em (a\<lparr>ag_trace := ag_trace a @ [ReadUtc (utc_now E (ag_trace a))],
       ag_journal := record_result (utc_now E (ag_trace a)) cid s result ec em (ag_journal a)\<rparr>)"
  using assms by (simp add: finish_command_def andThen_def write_journal_works)

lemma journaled_after_result:
  "known cid a \<Longrightarrow> journaled cid s result ec em
     (a\<lparr>ag_trace := t, ag_journal := record_result now cid s result ec em (ag_journal a)\<rparr>)"
  by (auto simp: known_get journaled_def journal_simps) (auto simp: set_result_def holds_def)

lemma finish_checked:
  "known cid a \<Longrightarrow> finish_command E (checked report) cid s gen result ec em a =
     finish_command E report cid s gen result ec em a"
  by (simp add: finish_command_def andThen_def write_journal_run Let_def checked_def journaled_after_result
      split: option.split)

lemma known_running: "known k (a\<lparr>ag_trace := t, ag_journal := record_running now cid (ag_journal a)\<rparr>) \<longleftrightarrow> known k a"
  by (auto simp: known_get journal_simps)

lemma known_result: "known k (a\<lparr>ag_trace := t, ag_journal := record_result now cid s res ec em (ag_journal a)\<rparr>) \<longleftrightarrow> known k a"
  by (auto simp: known_get journal_simps)

lemma holds_same: "holds s res ec em r \<Longrightarrow> same_result r r' \<Longrightarrow> holds s res ec em r'"
  by (simp add: holds_def same_result_def)

text \<open>The journal once the command is accepted, unless it was known.\<close>

definition accepted_journal :: "string \<Rightarrow> execute_command \<Rightarrow> journal \<Rightarrow> journal \<Rightarrow> bool" where
  "accepted_journal cid cmd j j' \<longleftrightarrow> j' = j \<or>
     (\<exists>now. j' = record_accepted now cid (operation_name (operation cmd)) (placement_generation cmd) j)"

lemma accepted_journal_ok: "accepted_journal cid cmd j j' \<Longrightarrow> journal_ok j \<Longrightarrow> journal_ok j'"
  by (auto simp: accepted_journal_def journal_simps)

lemma accepted_journal_frame: "accepted_journal cid cmd j j' \<Longrightarrow> k \<noteq> cid \<Longrightarrow> get_entry k j' = get_entry k j"
  by (auto simp: accepted_journal_def journal_simps)

lemma accepted_journal_terminal: "accepted_journal cid cmd j j' \<Longrightarrow> has_terminal_result k j' = has_terminal_result k j"
  by (auto simp: accepted_journal_def has_terminal_result_def record_accepted_def accepted_row_def split: if_splits)

text \<open>
  Executing a command that has a handler: the disk refuses to look it up, to accept it or to mark it running, and
  the handler is not called; or it is accepted, running, and handled.
\<close>

lemma accept_if_new_cases:
  assumes "accept_if_new E cid cmd a = Some (r, a')"
  obtains (refused) e us where "r = Inl e" and "disk_failure E e" and "a' = a\<lparr>ag_trace := ag_trace a @ map ReadUtc us\<rparr>"
      and "disk_error E (ag_trace a') \<noteq> None"
  | (accepted) us j where "r = Inr ()" and "a' = a\<lparr>ag_trace := ag_trace a @ map ReadUtc us, ag_journal := j\<rparr>"
      and "accepted_journal cid cmd (ag_journal a) j" and "has_seen cid j"
  using assms unfolding accept_if_new_def
proof (cases rule: andThen_cases)
  case (raised e)
  from raised(1) show thesis
  proof (cases rule: read_journal_cases)
    case (unread e')
    with raised(2) show thesis by (intro refused [where e = e and us = "[]"]) simp_all
  qed simp
next
  case (returned seen a1)
  from returned(1) have a1: "a1 = a" "seen = has_seen cid (ag_journal a)" by (cases rule: read_journal_cases; simp)+
  show thesis
  proof (cases seen)
    case True
    with returned(2) a1 show thesis by (intro accepted [where us = "[]" and j = "ag_journal a"]) (simp_all add: accepted_journal_def)
  next
    case False
    with returned(2) a1 have "write_journal E (\<lambda>now. record_accepted now cid (operation_name (operation cmd))
        (placement_generation cmd)) a = Some (r, a')" by simp
    then show thesis
    proof (cases rule: write_journal_cases)
      case (written now)
      then show thesis
        by (intro accepted [where us = "[now]" and j = "record_accepted now cid (operation_name (operation cmd)) (placement_generation cmd) (ag_journal a)"])
          (auto simp: accepted_journal_def has_seen_get journal_simps)
    next
      case (refused now e)
      then show thesis by (intro that(1) [where e = e and us = "[now]"]) simp_all
    qed
  qed
qed

lemma execute_start:
  assumes "execute E H report cid cmd a = Some (r, a')" and "H (operation cmd) = Some h"
  obtains (refused) e us j where "r = Inl e" and "disk_failure E e" and "accepted_journal cid cmd (ag_journal a) j"
      and "a' = a\<lparr>ag_trace := ag_trace a @ map ReadUtc us, ag_journal := j\<rparr>"
      and "disk_error E (ag_trace a') \<noteq> None"
  | (started) us j now b where "accepted_journal cid cmd (ag_journal a) j" and "has_seen cid j"
      and "b = a\<lparr>ag_trace := ag_trace a @ map ReadUtc us, ag_journal := record_running now cid j\<rparr>"
      and "tryExcept (andThen (on_trace (h cmd)) (conclude E report cid cmd)) (handler_raised E report cid cmd) b =
        Some (r, a')"
proof -
  note not_started = refused
  have "andThen (accept_if_new E cid cmd) (\<lambda>_. andThen (write_journal E (\<lambda>now. record_running now cid)) (\<lambda>_.
      tryExcept (andThen (on_trace (h cmd)) (conclude E report cid cmd)) (handler_raised E report cid cmd))) a = Some (r, a')"
    using assms by (simp add: execute_def)
  then show thesis
  proof (cases rule: andThen_cases)
    case (raised e)
    from raised(1) show thesis
    proof (cases rule: accept_if_new_cases)
      case (refused e' us)
      with raised(2) show thesis by (intro not_started [where e = e and us = us and j = "ag_journal a"]) (simp_all add: accepted_journal_def)
    qed simp
  next
    case (returned u a1)
    obtain us j where a1: "a1 = a\<lparr>ag_trace := ag_trace a @ map ReadUtc us, ag_journal := j\<rparr>"
      and j: "accepted_journal cid cmd (ag_journal a) j" "has_seen cid j"
      using returned(1) by (cases rule: accept_if_new_cases) (use that in auto)
    from returned(2) show thesis
    proof (cases rule: andThen_cases)
      case (raised e)
      from raised(1) show thesis
      proof (cases rule: write_journal_cases)
        case (refused now e')
        with raised(2) a1 j(1) show thesis
          by (intro not_started [where e = e and us = "us @ [now]" and j = j]) simp_all
      qed simp
    next
      case (returned v b)
      from returned(1) show thesis
      proof (cases rule: write_journal_cases)
        case (written now)
        with a1 show thesis by (intro started [OF j, where b = b and us = "us @ [now]" and now = now] returned(2)) simp_all
      qed simp
    qed
  qed
qed

section \<open>Predicates that handling a command keeps\<close>

text \<open>The results the executor records: a success has no code or message, a failure has a code and no value.\<close>

definition proper_result :: "jstatus \<Rightarrow> json option \<Rightarrow> string option \<Rightarrow> string option \<Rightarrow> bool" where
  "proper_result s res ec em \<longleftrightarrow>
     s = Succeeded \<and> ec = None \<and> em = None \<or> s = Failed \<and> res = None \<and> ec \<noteq> None"

lemma proper_terminal: "proper_result s res ec em \<Longrightarrow> terminal s"
  by (auto simp: proper_result_def)

text \<open>
  A predicate of the agent that recording and reporting a result of the command keeps, and that does not
  look at the placement cache, is kept by what follows the handler; by the whole handling when it does
  not look at the trace either.
\<close>

lemma conclude_keeps:
  assumes "\<And>s res ec em. proper_result s res ec em \<Longrightarrow>
      keeps I (finish_command E report cid s (placement_generation cmd) res ec em)"
    and "\<And>a c. I a \<Longrightarrow> I (a\<lparr>ag_cache := c\<rparr>)"
  shows "keeps I (conclude E report cid cmd x)"
  unfolding conclude_def update_placement_cache_def
  by (auto simp: proper_result_def intro!: keeps_intros assms split: prod.splits option.splits)

lemma handling_leads:
  assumes run: "tryExcept (andThen (on_trace (h cmd)) (conclude E report cid cmd)) (handler_raised E report cid cmd) a =
      Some (r, a')"
    and fin: "\<And>s res ec em. proper_result s res ec em \<Longrightarrow>
      keeps I (finish_command E report cid s (placement_generation cmd) res ec em)"
    and cache: "\<And>a c. I a \<Longrightarrow> I (a\<lparr>ag_cache := c\<rparr>)" and start: "\<And>t. I (a\<lparr>ag_trace := t\<rparr>)"
  shows "I a'"
proof -
  have trace: "I a1" if "on_trace (h cmd) a = Some (x, a1)" for x a1
    using that start by (auto simp: on_trace_run split: option.splits)
  have body: "I a2" if "andThen (on_trace (h cmd)) (conclude E report cid cmd) a = Some (r2, a2)" for r2 a2
    using that
  proof (cases rule: andThen_cases)
    case (returned x a1)
    have "keeps I (conclude E report cid cmd x)" by (rule conclude_keeps [OF fin cache])
    from keepsD [OF this returned(2) trace [OF returned(1)]] show ?thesis .
  qed (use trace in blast)
  from run show ?thesis
  proof (cases rule: tryExcept_cases)
    case (handled e a2 q)
    then have "finish_command E report cid Failed (placement_generation cmd) None
       (Some ''HANDLER_EXCEPTION'') (Some (take 1000 (exc_str e))) a2 = Some (r, a')"
      by (auto simp: handler_raised_def split: if_splits)
    from keepsD [OF fin this body [OF handled(1)]] show ?thesis by (simp add: proper_result_def)
  qed (use body in blast)+
qed

lemma handling_keeps:
  assumes "\<And>s res ec em. proper_result s res ec em \<Longrightarrow>
      keeps I (finish_command E report cid s (placement_generation cmd) res ec em)"
    and "\<And>a t. I a \<Longrightarrow> I (a\<lparr>ag_trace := t\<rparr>)" and "\<And>a c. I a \<Longrightarrow> I (a\<lparr>ag_cache := c\<rparr>)"
  shows "keeps I (tryExcept (andThen (on_trace (h cmd)) (conclude E report cid cmd)) (handler_raised E report cid cmd))"
  by (rule keepsI) (rule handling_leads [where I = I and h = h, OF _ assms(1,3)], assumption+, rule assms(2))

text \<open>How the handling of one command ends, by what the handler did.\<close>

definition handled :: "execute_command \<Rightarrow> py_exc + handler_result \<Rightarrow> journal_row \<Rightarrow> bool" where
  "handled cmd x q \<longleftrightarrow> (case x of
       Inl e \<Rightarrow> if is_exception e
         then holds Failed None (Some ''HANDLER_EXCEPTION'') (Some (take 1000 (exc_str e))) q
         else True
     | Inr (result, Some code, em) \<Rightarrow> holds Failed None (Some code) em q
     | Inr (result, None, em) \<Rightarrow> holds Succeeded result None None q)"

definition cache_result :: "execute_command \<Rightarrow> py_exc + handler_result \<Rightarrow> placement_cache option \<Rightarrow> placement_cache option" where
  "cache_result cmd x c = (case x of
       Inl e \<Rightarrow> c
     | Inr (result, ec, em) \<Rightarrow> if ec = None then map_option (cache_after cmd) c else c)"

locale result_reporter =
  fixes report :: reporter
  assumes report_returns: "report cid s gen res ec em a \<noteq> None"
    and report_keeps_row: "report cid s gen res ec em a = Some (r, a') \<Longrightarrow>
      get_entry k (ag_journal a) = Some q \<Longrightarrow>
      \<exists>q'. get_entry k (ag_journal a') = Some q' \<and> same_result q q'"
    and report_keeps_ok: "report cid s gen res ec em a = Some (r, a') \<Longrightarrow>
      journal_ok (ag_journal a) \<Longrightarrow> journal_ok (ag_journal a')"
    and report_keeps_cache: "report cid s gen res ec em a = Some (r, a') \<Longrightarrow> ag_cache a' = ag_cache a"
    and report_appends: "report cid s gen res ec em a = Some (r, a') \<Longrightarrow>
      \<exists>es. ag_trace a' = ag_trace a @ es"
    and report_frame: "report cid s gen res ec em a = Some (r, a') \<Longrightarrow> k \<noteq> cid \<Longrightarrow>
      get_entry k (ag_journal a') = get_entry k (ag_journal a)"
begin

lemma report_keeps_known: "report cid s gen res ec em a = Some (r, a') \<Longrightarrow> known k a \<Longrightarrow> known k a'"
  using report_keeps_row unfolding known_get by blast

text \<open>What finishing keeps, and so the handling of a command.\<close>

lemma finish_known: "keeps (known k) (finish_command E report cid s gen res ec em)"
proof (rule keepsI)
  fix a r a'
  assume "finish_command E report cid s gen res ec em a = Some (r, a')" and "known k a"
  then show "known k a'"
    by (cases rule: finish_cases) (use report_keeps_known known_result in \<open>blast, simp add: known_def\<close>)
qed

lemma finish_ok: "keeps (\<lambda>a. journal_ok (ag_journal a)) (finish_command E report cid s gen res ec em)"
proof (rule keepsI)
  fix a r a'
  assume "finish_command E report cid s gen res ec em a = Some (r, a')" and ok: "journal_ok (ag_journal a)"
  then show "journal_ok (ag_journal a')"
    by (cases rule: finish_cases) (use ok report_keeps_ok in \<open>auto simp: journal_simps\<close>)
qed

lemma finish_frame:
  "k \<noteq> cid \<Longrightarrow> keeps (\<lambda>a. get_entry k (ag_journal a) = row) (finish_command E report cid s gen res ec em)"
proof (rule keepsI)
  fix a r a'
  assume k: "k \<noteq> cid" and run: "finish_command E report cid s gen res ec em a = Some (r, a')"
    and row: "get_entry k (ag_journal a) = row"
  from run show "get_entry k (ag_journal a') = row"
    by (cases rule: finish_cases) (use k row report_frame in \<open>auto simp: journal_simps\<close>)
qed

lemma conclude_known: "keeps (known k) (conclude E report cid cmd x)"
  by (rule conclude_keeps [OF finish_known]) (simp add: known_def)

lemmas handling_ok = handling_keeps [OF finish_ok, simplified]

lemmas handling_frame = handling_keeps [OF finish_frame, simplified]

lemma finish_cache:
  assumes "finish_command E report cid s gen res ec em a = Some (r, a')"
  shows "ag_cache a' = ag_cache a"
  using assms by (cases rule: finish_cases) (use report_keeps_cache in auto)

lemma finish_appends:
  assumes "finish_command E report cid s gen res ec em a = Some (r, a')"
  shows "\<exists>es. ag_trace a' = ag_trace a @ es"
  using assms by (cases rule: finish_cases) (use report_appends in fastforce)+

text \<open>Finishing leaves the result in the row, whether or not reporting succeeds, unless the disk refuses it.\<close>

lemma finish_holds:
  assumes "finish_command E report cid s gen res ec em a = Some (r, a')" and "known cid a"
  obtains (recorded) q where "get_entry cid (ag_journal a') = Some q" and "holds s res ec em q"
  | (refused) e where "r = Inl e" and "disk_failure E e" and "ag_journal a' = ag_journal a"
  using assms(1)
proof (cases rule: finish_cases)
  case (recorded now)
  obtain q where q: "get_entry cid (ag_journal a) = Some q" using assms(2) by (auto simp: known_get)
  from report_keeps_row [OF recorded, of cid] q obtain q' where
    "get_entry cid (ag_journal a') = Some q'" "same_result (set_result now s res ec em q) q'"
    by (auto simp: journal_simps)
  moreover have "holds s res ec em (set_result now s res ec em q)"
    by (simp add: holds_def set_result_def)
  ultimately show thesis using holds_same \<open>\<And>q. get_entry cid (ag_journal a') = Some q \<Longrightarrow> holds s res ec em q \<Longrightarrow> thesis\<close>
    by blast
qed (use refused in simp)

lemma conclude_checked:
  "known cid a \<Longrightarrow> conclude E (checked report) cid cmd x a = conclude E report cid cmd x a"
  by (auto simp: conclude_def update_placement_cache_def andThen_def finish_checked known_def
      split: prod.splits option.splits)

text \<open>Every report the executor makes finds its result in the journal.\<close>

lemma handling_checked:
  assumes "known cid a"
  shows "tryExcept (andThen (on_trace (h cmd)) (conclude E (checked report) cid cmd))
       (handler_raised E (checked report) cid cmd) a =
     tryExcept (andThen (on_trace (h cmd)) (conclude E report cid cmd))
       (handler_raised E report cid cmd) a"
proof -
  let ?body = "\<lambda>R. andThen (on_trace (h cmd)) (conclude E R cid cmd)"
  have body: "?body (checked report) a = ?body report a"
  proof (cases "on_trace (h cmd) a")
    case (Some p)
    then obtain x a1 where a1: "on_trace (h cmd) a = Some (x, a1)" by (cases p) auto
    then have "known cid a1" using assms on_trace_keeps(1) by (metis known_def)
    with a1 conclude_checked show ?thesis by (auto simp: andThen_def split: sum.splits)
  qed (simp add: andThen_def)
  have known: "known cid a2" if "?body report a = Some (r, a2)" for r a2
    using that
  proof (cases rule: andThen_cases)
    case (raised e)
    then show ?thesis using assms on_trace_keeps(1) by (metis known_def)
  next
    case (returned x a1)
    then have "known cid a1" using assms on_trace_keeps(1) by (metis known_def)
    with returned(2) show ?thesis by (rule keepsD [OF conclude_known])
  qed
  show ?thesis
  proof (cases "?body report a")
    case (Some p)
    then obtain r a2 where a2: "?body report a = Some (r, a2)" by (cases p) auto
    with known finish_checked have "finish_command E (checked report) cid s gen res ec em a2 =
        finish_command E report cid s gen res ec em a2" for s gen res ec em by blast
    with a2 body show ?thesis
      by (auto simp: tryExcept_def handler_raised_def split: sum.splits)
  qed (simp add: tryExcept_def body)
qed

lemma execute_checked:
  assumes "H (operation cmd) \<noteq> None \<or> known cid a"
  shows "execute E H (checked report) cid cmd a = execute E H report cid cmd a"
proof (cases "H (operation cmd)")
  case None
  with assms show ?thesis by (simp add: execute_def finish_checked)
next
  case (Some h)
  let ?rest = "\<lambda>R. andThen (write_journal E (\<lambda>now. record_running now cid)) (\<lambda>_.
    tryExcept (andThen (on_trace (h cmd)) (conclude E R cid cmd)) (handler_raised E R cid cmd))"
  have "?rest (checked report) b = ?rest report b" if "known cid b" for b
    using that handling_checked [of cid _ h] known_running
    by (simp add: andThen_def write_journal_run Let_def split: option.split)
  moreover have "known cid b" if "accept_if_new E cid cmd a = Some (Inr (), b)" for b
    using that by (cases rule: accept_if_new_cases) (auto simp: known_def)
  ultimately show ?thesis
    using Some by (auto simp: execute_def andThen_def [of "accept_if_new E cid cmd"] split: option.splits sum.splits)
qed

text \<open>What follows a handler that returned: its result is in the row, or the disk refused it.\<close>

lemma conclude_outcome:
  assumes "conclude E report cid cmd x a = Some (r, a')" and "known cid a"
  obtains (recorded) q where "get_entry cid (ag_journal a') = Some q" and "handled cmd (Inr x) q"
  | (refused) e where "r = Inl e" and "disk_failure E e" and "ag_journal a' = ag_journal a"
proof -
  obtain result ec em where x: "x = (result, ec, em)" by (cases x)
  show thesis
  proof (cases ec)
    case None
    with assms(1) x have "finish_command E report cid Succeeded (placement_generation cmd) result None None
        (a\<lparr>ag_cache := map_option (cache_after cmd) (ag_cache a)\<rparr>) = Some (r, a')"
      by (simp add: conclude_def update_placement_cache_def andThen_def)
    then show thesis
      by (cases rule: finish_holds) (use assms(2) x None recorded refused in \<open>auto simp: known_def handled_def\<close>)
  next
    case (Some code)
    with assms(1) x have "finish_command E report cid Failed (placement_generation cmd) None (Some code) em a =
        Some (r, a')" by (simp add: conclude_def)
    then show thesis
      by (cases rule: finish_holds) (use assms(2) x Some recorded refused in \<open>auto simp: handled_def\<close>)
  qed
qed

text \<open>
  How the \<open>try\<close> statement ends: cancelled with the row as it was; with the handler's result in the
  row; when recording or reporting that result raised, with the row overwritten by that exception; or,
  when the disk refuses the last write, with the row as it was.
\<close>

lemma handling_outcome:
  assumes "tryExcept (andThen (on_trace (h cmd)) (conclude E report cid cmd))
       (handler_raised E report cid cmd) a = Some (r, a')" and known: "known cid a"
  obtains (interrupted) e t where "h cmd (ag_trace a) = Some (Inl e, t)" and "\<not> is_exception e"
      and "r = Inl e" and "ag_journal a' = ag_journal a"
  | (finished) x t q where "h cmd (ag_trace a) = Some (x, t)" and "\<And>e. x = Inl e \<Longrightarrow> is_exception e"
      and "get_entry cid (ag_journal a') = Some q" and "handled cmd x q"
  | (overwritten) x t e b c q where "h cmd (ag_trace a) = Some (Inr x, t)"
      and "is_exception e" and "conclude E report cid cmd x b = Some (Inl e, c)" and "\<exists>es. ag_trace a' = ag_trace c @ es"
      and "get_entry cid (ag_journal a') = Some q" and "handled cmd (Inl e) q"
  | (unrecorded) x t e where "h cmd (ag_trace a) = Some (x, t)" and "\<And>e. x = Inl e \<Longrightarrow> is_exception e"
      and "r = Inl e" and "disk_failure E e" and "ag_journal a' = ag_journal a"
  using assms(1)
proof (cases rule: tryExcept_cases)
  case (returned u)
  from returned(1) show thesis
  proof (cases rule: andThen_cases)
    case (returned x a1)
    note t = on_trace_keeps [OF returned(1)]
    from returned(2) have "known cid a1 \<Longrightarrow> thesis"
      by (cases rule: conclude_outcome) (use finished [OF t(6)] in auto)
    with known t(1) show thesis by (simp add: known_def)
  qed simp
next
  case (passed e)
  then have e: "\<not> is_exception e" by (simp add: handler_raised_def split: if_splits)
  from passed(1) show thesis
  proof (cases rule: andThen_cases)
    case (raised e')
    then show thesis using e passed(3) on_trace_keeps [OF raised(1)] by (intro interrupted) auto
  next
    case (returned x a1)
    note t = on_trace_keeps [OF returned(1)]
    from returned(2) have "known cid a1 \<Longrightarrow> thesis"
      by (cases rule: conclude_outcome) (use e disk_failure_exception finished [OF t(6)] in auto)
    with known t(1) show thesis by (simp add: known_def)
  qed
next
  case (handled e a2 p)
  then have e: "is_exception e" and
    fin: "finish_command E report cid Failed (placement_generation cmd) None
       (Some ''HANDLER_EXCEPTION'') (Some (take 1000 (exc_str e))) a2 = Some (r, a')"
    by (auto simp: handler_raised_def split: if_splits)
  from handled(1) show thesis
  proof (cases rule: andThen_cases)
    case (raised e')
    note t = on_trace_keeps [OF raised(1)]
    have "known cid a2" using known t(1) by (simp add: known_def)
    with fin show thesis
    proof (cases rule: finish_holds)
      case (recorded q)
      with e raised(2) show thesis by (intro finished [OF t(6)]) (auto simp: handled_def)
    next
      case (refused e2)
      with e raised(2) t(1) show thesis by (intro unrecorded [OF t(6), of e2]) auto
    qed
  next
    case (returned x a1)
    note t = on_trace_keeps [OF returned(1)]
    have known1: "known cid a1" using known t(1) by (simp add: known_def)
    have known2: "known cid a2" using keepsD [OF conclude_known returned(2) known1] .
    from fin known2 show thesis
    proof (cases rule: finish_holds)
      case (recorded q)
      with e finish_appends [OF fin] show thesis
        by (intro overwritten [OF t(6) e returned(2)]) (auto simp: handled_def)
    next
      case (refused e2)
      note last = refused
      from returned(2) known1 show thesis
      proof (cases rule: conclude_outcome)
        case (recorded q)
        with last(3) show thesis by (intro finished [OF t(6)]) auto
      next
        case refused
        with last t(1) show thesis by (intro unrecorded [OF t(6), of e2]) auto
      qed
    qed
  qed
qed

text \<open>The placement cache follows successful handlers, whatever happens to the report.\<close>

lemma conclude_cache:
  assumes "conclude E report cid cmd x a = Some (r, a')"
  shows "ag_cache a' = cache_result cmd (Inr x) (ag_cache a)"
  using assms
  by (auto simp: conclude_def update_placement_cache_def andThen_def cache_result_def
      dest: finish_cache split: prod.splits option.splits)

text \<open>What the handler did stays in the trace, and the cache follows it.\<close>

lemma conclude_appends:
  assumes "conclude E report cid cmd x a = Some (r, a')"
  shows "\<exists>es. ag_trace a' = ag_trace a @ es"
  using assms
  by (auto simp: conclude_def update_placement_cache_def andThen_def
      dest: finish_appends split: prod.splits option.splits)

lemma handling_follows:
  assumes "tryExcept (andThen (on_trace (h cmd)) (conclude E report cid cmd))
       (handler_raised E report cid cmd) a = Some (r, a')" and "h cmd (ag_trace a) = Some (x, t)"
  shows "\<exists>es. ag_trace a' = t @ es" and "ag_cache a' = cache_result cmd x (ag_cache a)"
proof -
  have body: "(\<exists>es. ag_trace a2 = t @ es) \<and> ag_cache a2 = cache_result cmd x (ag_cache a)"
    if "andThen (on_trace (h cmd)) (conclude E report cid cmd) a = Some (r2, a2)" for r2 a2
    using that
  proof (cases rule: andThen_cases)
    case (raised e)
    with assms(2) on_trace_keeps [OF raised(1)] show ?thesis by (auto simp: cache_result_def)
  next
    case (returned y a1)
    with assms(2) on_trace_keeps [OF returned(1)] have "ag_trace a1 = t" "x = Inr y" "ag_cache a1 = ag_cache a" by simp_all
    with conclude_appends [OF returned(2)] conclude_cache [OF returned(2)] show ?thesis by simp
  qed
  from assms(1) have "(\<exists>es. ag_trace a' = t @ es) \<and> ag_cache a' = cache_result cmd x (ag_cache a)"
  proof (cases rule: tryExcept_cases)
    case (handled e a2 q)
    then have "finish_command E report cid Failed (placement_generation cmd) None
       (Some ''HANDLER_EXCEPTION'') (Some (take 1000 (exc_str e))) a2 = Some (r, a')"
      by (auto simp: handler_raised_def split: if_splits)
    from finish_appends [OF this] finish_cache [OF this] body [OF handled(1)] show ?thesis by auto
  qed (use body in blast)+
  then show "\<exists>es. ag_trace a' = t @ es" and "ag_cache a' = cache_result cmd x (ag_cache a)" by simp_all
qed

text \<open>Executing returns when the handler does.\<close>

lemma total_finish: "total_proc (finish_command E report cid s gen res ec em)"
  unfolding finish_command_def
  by (intro total_andThen total_write_journal) (simp add: total_proc_def report_returns)

lemma total_execute:
  assumes "\<And>h. H (operation cmd) = Some h \<Longrightarrow> total_proc (h cmd)"
  shows "total_proc (execute E H report cid cmd)"
proof (cases "H (operation cmd)")
  case None
  then show ?thesis by (simp add: execute_def total_finish)
next
  case (Some h)
  have "total_proc (accept_if_new E cid cmd)"
    by (auto simp: accept_if_new_def intro!: total_andThen)
  moreover have "total_proc (conclude E report cid cmd x)" for x
    unfolding conclude_def update_placement_cache_def
    by (auto intro!: total_andThen total_finish split: prod.splits option.splits)
  ultimately show ?thesis
    using Some assms [OF Some]
    by (auto simp: execute_def handler_raised_def intro!: total_andThen total_tryExcept total_on_trace
        total_finish split: if_splits)
qed

text \<open>Executing a command leaves the rows of all others alone, and command ids unique.\<close>

lemma execute_frame:
  assumes "execute E H report cid cmd a = Some (r, a')" and "k \<noteq> cid"
  shows "get_entry k (ag_journal a') = get_entry k (ag_journal a)"
proof (cases "H (operation cmd)")
  case None
  with assms(1) show ?thesis using keepsD [OF finish_frame [OF assms(2)]] by (simp add: execute_def)
next
  case (Some h)
  from assms(1) Some show ?thesis
  proof (cases rule: execute_start)
    case (refused e us j)
    then show ?thesis using accepted_journal_frame assms(2) by simp
  next
    case (started us j now b)
    from keepsD [OF handling_frame [where h = h, OF assms(2)] started(4)] started(1,3) show ?thesis
      using accepted_journal_frame assms(2) by (simp add: journal_simps)
  qed
qed

lemma execute_ok:
  assumes "execute E H report cid cmd a = Some (r, a')" and "journal_ok (ag_journal a)"
  shows "journal_ok (ag_journal a')"
proof (cases "H (operation cmd)")
  case None
  with assms show ?thesis using keepsD [OF finish_ok] by (simp add: execute_def)
next
  case (Some h)
  from assms(1) Some show ?thesis
  proof (cases rule: execute_start)
    case (refused e us j)
    then show ?thesis using accepted_journal_ok assms(2) by simp
  next
    case (started us j now b)
    then have "journal_ok (ag_journal b)" using accepted_journal_ok assms(2) by (simp add: journal_simps)
    then show ?thesis by (rule keepsD [OF handling_ok [where h = h] started(4)])
  qed
qed

end

section \<open>Predicates that executing a command keeps\<close>

text \<open>
  A predicate of the agent that recording and reporting a result of command \<open>cid\<close> keeps, and that does not
  look at the trace or the placement cache, is kept by the whole handling of the command.
\<close>

locale reporter_invariant = result_reporter +
  fixes inv :: "agent \<Rightarrow> bool" and cid :: string
  assumes finish_keeps: "proper_result s res ec em \<Longrightarrow> keeps inv (finish_command E report cid s gen res ec em)"
    and trace_blind: "inv a \<Longrightarrow> inv (a\<lparr>ag_trace := t\<rparr>)"
    and cache_blind: "inv a \<Longrightarrow> inv (a\<lparr>ag_cache := c\<rparr>)"
begin

lemma handling_inv:
  "keeps inv (tryExcept (andThen (on_trace (h cmd)) (conclude E report cid cmd)) (handler_raised E report cid cmd))"
  by (rule handling_keeps) (simp_all add: finish_keeps trace_blind cache_blind)

text \<open>So of executing the command, when accepting it and marking it running establish the predicate.\<close>

lemma execute_inv:
  assumes "execute E H report cid cmd a = Some (r, a')" and "pre a"
    and "\<And>b. pre b \<Longrightarrow> inv b" and "\<And>b t. pre b \<Longrightarrow> pre (b\<lparr>ag_trace := t\<rparr>)"
    and "\<And>b now. pre b \<Longrightarrow> pre (b\<lparr>ag_journal := record_accepted now cid (operation_name (operation cmd))
          (placement_generation cmd) (ag_journal b)\<rparr>)"
    and "\<And>b now. pre b \<Longrightarrow> inv (b\<lparr>ag_journal := record_running now cid (ag_journal b)\<rparr>)"
  shows "inv a'"
proof (cases "H (operation cmd)")
  case None
  then have "finish_command E report cid Failed (placement_generation cmd) None (Some ''NO_HANDLER'')
      (Some (no_handler_message E (operation cmd))) a = Some (r, a')"
    using assms(1) by (simp add: execute_def)
  from keepsD [OF finish_keeps this assms(3) [OF assms(2)]] show ?thesis by (simp add: proper_result_def)
next
  case (Some h)
  have pre: "pre (a\<lparr>ag_trace := t, ag_journal := j\<rparr>)" if "accepted_journal cid cmd (ag_journal a) j" for t j
    using that assms(4) [OF assms(2), of t] assms(5) [OF assms(4) [OF assms(2), of t]]
    by (auto simp: accepted_journal_def)
  from assms(1) Some show ?thesis
  proof (cases rule: execute_start)
    case (refused e us j)
    then show ?thesis using pre assms(3) by simp
  next
    case (started us j now b)
    with assms(6) [OF pre [OF started(1)], of now] have "inv b" by simp
    then show ?thesis by (rule keepsD [OF handling_inv [where h = h and cmd = cmd and E = E] started(4)])
  qed
qed

end

end
