(* ===== verification/Handler_Properties.thy ===== *)
theory Handler_Properties
  imports Handlers
begin

text \<open>
  The properties of the save loop and of the five command handlers, each with a run in the
  \<open>Demo_World\<close> as its witness.
\<close>

section \<open>Runs in the demo world\<close>

lemma json_loads_command [simp]: "json_plain v \<Longrightarrow> json_loads (json_dumps v) = Inr v"
  by (rule json_loads_dumps)

lemma optional_config_dumps [simp]: "json_plain v \<Longrightarrow> optional_config (json_dumps v) = v"
  by (simp add: optional_config_def json_dumps_not_Nil)

lemma demo_delete [simp]:
  "delete_container (demo_env v) cid network rid t =
     Some (Inr \<lparr>del_container_id = ''c-1'', del_status = ''Deleted''\<rparr>,
       t @ [DeleteCall \<lparr>req_container_id = cid, req_network_name = network\<rparr> rid
              (Inr \<lparr>del_container_id = ''c-1'', del_status = ''Deleted''\<rparr>)])"
  by (simp add: delete_container_def call_with_retry_def call_delete_def tryExcept_def
      numeral_3_eq_3 Let_def)

definition demo_saved_events :: "string \<Rightarrow> json \<Rightarrow> json \<Rightarrow> trace" where
  "demo_saved_events dev network v =
     [SaveCall \<lparr>req_container_id = ''c-1'', req_network_name = network\<rparr> ''req-1''
        (Inr \<lparr>saved_pods = Some [\<lparr>sp_pod_name = ''app-pod-1706565890'', sp_namespace_name = ''ns''\<rparr>]\<rparr>),
      ReadMonotonic 0,
      HttpCall (save_status_req dev ''c-1'' ''req-1'') (Inr \<lparr>status_code = 200, content = json_dumps v\<rparr>)]"

lemma demo_perform_save [simp]:
  assumes "E = demo_env saved_reply \<or> E = demo_stuck_env saved_reply" and "demo_clock t0 = 0"
  shows "perform_save E C dev ''c-1'' network ''req-1'' t0 =
     Some (Inr (saved_outcome (JStr ''reg/app:1'') (JStr ''app-pod-1706565890'') (JStr ''ns'')),
       t0 @ demo_saved_events dev network saved_reply)"
proof -
  have save: "save_container E ''c-1'' network ''req-1'' t0 =
      Some (Inr \<lparr>saved_pods = Some [\<lparr>sp_pod_name = ''app-pod-1706565890'', sp_namespace_name = ''ns''\<rparr>]\<rparr>,
        t0 @ take 1 (demo_saved_events dev network saved_reply))"
    using assms by (auto simp: save_container_def call_with_retry_def call_save_def tryExcept_def
        numeral_3_eq_3 demo_saved_events_def Let_def)
  have poll: "poll_once E C dev ''c-1'' ''req-1'' (JStr ''app-pod-1706565890'') (JStr ''ns'') dl t =
      Some (Inr (Some (saved_outcome (JStr ''reg/app:1'') (JStr ''app-pod-1706565890'') (JStr ''ns''))),
        t @ [HttpCall (save_status_req dev ''c-1'' ''req-1'')
              (Inr \<lparr>status_code = 200, content = json_dumps saved_reply\<rparr>)])" for dl t
  proof -
    have "judge_status saved_reply (JStr ''app-pod-1706565890'') (JStr ''ns'') =
        Inr (Some (saved_outcome (JStr ''reg/app:1'') (JStr ''app-pod-1706565890'') (JStr ''ns'')))"
      by (simp add: saved_reply_def judge_status_def)
    with assms show ?thesis by (auto simp: poll_once_run Let_def response_json_def)
  qed
  show ?thesis
    using assms by (auto simp: perform_save_def andThen_def catching_run save read_monotonic_def Let_def
        poll_loop_leave [OF poll] demo_saved_events_def)
qed

lemma demo_stuck_delete [simp]:
  "delete_container (demo_stuck_env v) cid network rid t =
     Some (Inl (ContainerMakerClientError ''Error deleting container in ContainerMaker: stuck''),
       t @ [DeleteCall \<lparr>req_container_id = cid, req_network_name = network\<rparr> rid
              (Inl (GrpcRpcError (Some UNKNOWN) ''stuck''))])"
  by (simp add: delete_container_def call_with_retry_def call_delete_def tryExcept_def
      numeral_3_eq_3 Let_def wrap_rpc_error_def)

section \<open>Saving\<close>

text \<open>
  C21: A save returns. If the monotonic clock advances with every sleep and the poll timeout is at most
  \<open>n\<close> poll intervals, \<open>perform_save\<close> returns after asking Cloud for the status at most \<open>n + 1\<close> times.
\<close>

theorem perform_save_terminates:
  assumes "clock_advances E" and "0 < snapshot_poll_interval_seconds C"
    and "snapshot_poll_timeout_seconds C \<le> of_nat n * snapshot_poll_interval_seconds C"
  shows "\<exists>r t'. perform_save E C dev cid network rid t = Some (r, t') \<and>
     count_events (is_http_of (save_status_req dev cid rid)) t' \<le>
       count_events (is_http_of (save_status_req dev cid rid)) t + n + 1"
  using perform_save_returns [OF assms] by simp

lemma demo_clock: "clock_advances (demo_env v)"
proof -
  have "0 \<le> demo_clock [e]" for e
    by (cases e) simp_all
  then show ?thesis by (simp add: clock_advances_def)
qed

theorem perform_save_terminates_witness:
  "\<exists>r t'. perform_save (demo_env saved_reply) default_config ''dev-1'' ''c-1'' (JStr ''ns'') ''req-1'' [] =
       Some (r, t') \<and>
     count_events (is_http_of (save_status_req ''dev-1'' ''c-1'' ''req-1'')) t' \<le>
       count_events (is_http_of (save_status_req ''dev-1'' ''c-1'' ''req-1'')) [] + 120 + 1"
  by (rule perform_save_terminates [OF demo_clock]) (simp_all add: default_config_def)

text \<open>
  C26: The save handler confirms before it reports success and removes nothing. Its run makes no delete
  and no create call; a successful result names an image that Cloud confirmed during the run for
  exactly this device, container and request, and that confirmation is the last thing it did.
\<close>

theorem save_handler_confirmed:
  assumes "save_handler E C dev cmd t = Some (r, t')"
  shows "\<exists>es. t' = t @ es \<and> list_all (\<lambda>e. \<not> is_delete_call e \<and> \<not> is_create_call e) es \<and>
     (\<forall>v. r = Inr (Some v, None, None) \<longrightarrow>
        (\<exists>fs a img. es = fs @ [HttpCall (save_status_req dev (container_id cmd) (trace_id cmd)) (Inr a)] \<and>
           confirms a img \<and> (\<exists>kvs. v = JObj ((''saved_image'', img) # kvs))))"
proof (cases "py_get ''network_name'' (JStr []) (optional_config (container_config_json cmd))")
  case (Inl e)
  with assms have "r = Inl e" "t' = t" by (simp_all add: save_handler_def)
  then show ?thesis by simp
next
  case (Inr network)
  let ?P = "perform_save E C dev (container_id cmd) network (trace_id cmd)"
  from assms Inr have run: "andThen ?P (\<lambda>out.
       if \<not> so_succeeded out
       then andThen (lift_sum (clipped_error (so_error out) ''Save failed'')) (\<lambda>msg.
              ret (failed_with (save_failure_code out) msg))
       else ret (done_with (saved_result out))) t = Some (r, t')"
    by (simp add: save_handler_def)
  then obtain x where x: "?P t = Some (x, t')"
    and r: "case x of Inl e \<Rightarrow> r = Inl e | Inr out \<Rightarrow> if so_succeeded out
      then r = Inr (done_with (saved_result out)) else (\<forall>v. r \<noteq> Inr (Some v, None, None))"
    by (cases rule: andThen_cases) (auto simp: failed_with_def split: if_splits sum.splits)
  obtain es where es: "t' = t @ es"
    "list_all (save_event dev (container_id cmd) network (trace_id cmd)) es"
    using emitsD [OF emits_perform_save x] by blast
  from es(2) have "list_all (\<lambda>e. \<not> is_delete_call e \<and> \<not> is_create_call e) es"
    using save_event_no_delete by (auto simp: list_all_iff)
  moreover have "\<exists>fs a img. es = fs @ [HttpCall (save_status_req dev (container_id cmd) (trace_id cmd)) (Inr a)] \<and>
           confirms a img \<and> (\<exists>kvs. v = JObj ((''saved_image'', img) # kvs))"
    if "r = Inr (Some v, None, None)" for v
  proof -
    from r that obtain out where out: "x = Inr out" "so_succeeded out" "v = saved_result out"
      by (auto simp: done_with_def split: sum.splits if_splits)
    from perform_save_confirmed [OF x [unfolded out(1)] out(2)] obtain fs a img where
      "t' = t @ fs @ [HttpCall (save_status_req dev (container_id cmd) (trace_id cmd)) (Inr a)]"
      "confirms a img" "so_image_reference out = img" by blast
    with es(1) out(3) show ?thesis by (auto simp: saved_result_def)
  qed
  ultimately show ?thesis using es(1) by blast
qed

lemma demo_save_handler:
  "save_handler (demo_env saved_reply) default_config ''dev-1''
      (demo_command COMMAND_OPERATION_SAVE demo_network_config) [] =
    Some (Inr (done_with (saved_result (saved_outcome (JStr ''reg/app:1'')
        (JStr ''app-pod-1706565890'') (JStr ''ns'')))),
      demo_saved_events ''dev-1'' (JStr ''ns'') saved_reply)"
  by (simp add: save_handler_def andThen_def)

theorem save_handler_confirmed_witness:
  "\<exists>es. demo_saved_events ''dev-1'' (JStr ''ns'') saved_reply = [] @ es \<and>
     list_all (\<lambda>e. \<not> is_delete_call e \<and> \<not> is_create_call e) es"
  using save_handler_confirmed [OF demo_save_handler] by blast

section \<open>Hibernating\<close>

definition skip_requested :: "execute_command \<Rightarrow> bool" where
  "skip_requested cmd \<longleftrightarrow>
     (case py_get ''skip_save'' JNull (optional_config (container_config_json cmd)) of
        Inl e \<Rightarrow> False | Inr v \<Rightarrow> py_truthy v)"

text \<open>An event only the part after a point can hold comes after that point.\<close>

lemma split_after:
  assumes "es @ ds = pre @ d # rest" and "list_all (\<lambda>e. \<not> P e) es" and "P d"
  shows "\<exists>us. pre = es @ us \<and> ds = us @ d # rest"
  using assms by (auto simp: append_eq_append_conv2 append_eq_Cons_conv)

lemma hibernate_runs_save:
  assumes "hibernate_handler E C dev cmd t = Some (r, t')" and "\<not> skip_requested cmd"
  obtains (refused) e where "r = Inl e" and "t' = t"
  | (saving) network where "hibernate_with_save E C dev cmd network t = Some (r, t')"
      and "py_get ''network_name'' (JStr []) (optional_config (container_config_json cmd)) = Inr network"
  using assms
  by (auto simp: hibernate_handler_def skip_requested_def Let_def split: sum.splits if_splits)

lemma delete_event_call:
  "delete_event cid network rid d \<Longrightarrow> is_delete_call d \<Longrightarrow>
    \<exists>network a. d = DeleteCall \<lparr>req_container_id = cid, req_network_name = network\<rparr> rid a"
  by (cases d) (auto simp: delete_event_def)

text \<open>
  C3: Hibernate never deletes what Cloud has not confirmed as saved. In a run without \<open>skip_save\<close>, every
  delete call is for the command's container and comes after an answer of Cloud, in the same run,
  that confirms a pushed image for this device, container and request. Failed saves, timeouts,
  unreachable services and malformed answers all leave the container in place.
\<close>

theorem hibernate_deletes_only_saved:
  assumes "hibernate_handler E C dev cmd t = Some (r, t')" and "\<not> skip_requested cmd"
  shows "\<exists>es. t' = t @ es \<and> (\<forall>pre d rest. es = pre @ d # rest \<and> is_delete_call d \<longrightarrow>
     (\<exists>img. save_confirmed dev (container_id cmd) (trace_id cmd) img pre) \<and>
     (\<exists>network a. d = DeleteCall \<lparr>req_container_id = container_id cmd, req_network_name = network\<rparr>
        (trace_id cmd) a))"
  using assms
proof (cases rule: hibernate_runs_save)
  case (saving network)
  from saving(1) show ?thesis
  proof (cases rule: hibernate_with_save_run)
    case (unsaved es)
    from unsaved(2) have "list_all (\<lambda>e. \<not> is_delete_call e) es"
      using save_event_no_delete by (auto simp: list_all_iff)
    with unsaved(1) show ?thesis by (intro exI [of _ es]) auto
  next
    case (saved es q ds img a x)
    have none: "list_all (\<lambda>e. \<not> is_delete_call e) (es @ [q])"
      using saved(4) save_event_no_delete by (auto simp: list_all_iff)
    have "(\<exists>img. save_confirmed dev (container_id cmd) (trace_id cmd) img pre) \<and>
        (\<exists>network a. d = DeleteCall \<lparr>req_container_id = container_id cmd, req_network_name = network\<rparr>
           (trace_id cmd) a)"
      if split: "es @ q # ds = pre @ d # rest" and d: "is_delete_call d" for pre d rest
    proof -
      from split have "(es @ [q]) @ ds = pre @ d # rest" by simp
      from split_after [OF this none d] obtain us where
        us: "pre = (es @ [q]) @ us" "ds = us @ d # rest" by blast
      with saved(2,3) have "save_confirmed dev (container_id cmd) (trace_id cmd) img pre"
        by (auto simp: save_confirmed_def)
      moreover have "delete_event (container_id cmd) network (trace_id cmd) d"
        using saved(6) us(2) by simp
      ultimately show ?thesis using delete_event_call [OF _ d] by blast
    qed
    with saved(1) show ?thesis by (intro exI [of _ "es @ q # ds"]) blast
  qed
qed auto

definition demo_deleted_events :: "json \<Rightarrow> trace" where
  "demo_deleted_events network = [DeleteCall \<lparr>req_container_id = ''c-1'', req_network_name = network\<rparr> ''req-1''
     (Inr \<lparr>del_container_id = ''c-1'', del_status = ''Deleted''\<rparr>)]"

lemma demo_hibernate:
  "hibernate_handler (demo_env saved_reply) default_config ''dev-1''
      (demo_command COMMAND_OPERATION_HIBERNATE demo_network_config) [] =
    Some (Inr (done_with (saved_result (saved_outcome (JStr ''reg/app:1'')
        (JStr ''app-pod-1706565890'') (JStr ''ns'')))),
      demo_saved_events ''dev-1'' (JStr ''ns'') saved_reply @ demo_deleted_events (JStr ''ns''))"
  by (simp add: hibernate_handler_def hibernate_with_save_def andThen_def catching_run
      demo_deleted_events_def)

lemma demo_not_skipped [simp]: "\<not> skip_requested (demo_command opn demo_network_config)"
  by (simp add: skip_requested_def)

theorem hibernate_deletes_only_saved_witness:
  "\<exists>img. save_confirmed ''dev-1'' ''c-1'' ''req-1'' img (demo_saved_events ''dev-1'' (JStr ''ns'') saved_reply)"
proof -
  have "\<exists>d. demo_deleted_events (JStr ''ns'') = [d] \<and> is_delete_call d"
    by (simp add: demo_deleted_events_def)
  then obtain d where "demo_deleted_events (JStr ''ns'') = [d]" "is_delete_call d" by blast
  with hibernate_deletes_only_saved [OF demo_hibernate demo_not_skipped] show ?thesis by force
qed

lemma hibernate_skip_success:
  assumes "hibernate_handler E C dev cmd t = Some (Inr (result, None, em), t')" and "skip_requested cmd"
  shows "\<exists>network x. delete_container E (container_id cmd) network (trace_id cmd) t = Some (x, t') \<and>
     (\<forall>e. x = Inl e \<longrightarrow> is_maker_error e \<and> already_gone e) \<and> result = Some (JObj [])"
  using assms
  by (auto simp: hibernate_handler_def skip_requested_def hibernate_without_save_def Let_def andThen_def catching_run
      done_with_def failed_with_def split: sum.splits if_splits option.splits)
    (rule exI, rule exI, rule conjI, assumption, simp)+

lemma hibernate_success_run:
  assumes "hibernate_handler E C dev cmd t = Some (Inr (result, None, em), t')"
    and "\<not> skip_requested cmd"
  shows "\<exists>es img network resp kvs.
     t' = t @ es @ [DeleteCall \<lparr>req_container_id = container_id cmd, req_network_name = network\<rparr>
       (trace_id cmd) (Inr resp)] \<and>
     save_confirmed dev (container_id cmd) (trace_id cmd) img es \<and>
     result = Some (JObj ((''saved_image'', img) # kvs))"
  using assms
proof (cases rule: hibernate_runs_save)
  case (saving network)
  from saving(1) show ?thesis
  proof (cases rule: hibernate_with_save_run)
    case (saved es q ds img a x)
    have "\<exists>resp. x = Inr resp"
    proof (cases x)
      case (Inl e)
      with saved(8) saved(9) have "\<not> is_maker_error e" "is_maker_error e"
        by (cases e; simp add: failed_with_def)+
      then show ?thesis by simp
    qed simp
    then obtain resp where resp: "x = Inr resp" ..
    from delete_container_value [OF saved(5) [unfolded resp]] obtain fs where
      fs: "t' = (t @ es @ [q]) @ fs @ [DeleteCall \<lparr>req_container_id = container_id cmd,
        req_network_name = network\<rparr> (trace_id cmd) (Inr resp)]" by blast
    moreover from saved(2,3) have
      "save_confirmed dev (container_id cmd) (trace_id cmd) img ((es @ [q]) @ fs)"
      by (auto simp: save_confirmed_def)
    moreover obtain kvs where "result = Some (JObj ((''saved_image'', img) # kvs))"
      using saved(7) [OF resp] by (auto simp: done_with_def)
    ultimately show ?thesis
      by (intro exI [of _ "(es @ [q]) @ fs"] exI [of _ img] exI [of _ network]) auto
  qed auto
qed simp

text \<open>
  A hibernate that reports success has saved and then deleted. Its result names an image that Cloud
  confirmed during the run, and the run ends in a delete call for the container that Container
  Maker answered.
\<close>

lemma hibernate_success:
  assumes "hibernate_handler E C dev cmd t = Some (Inr (Some v, None, None), t')"
    and "\<not> skip_requested cmd"
  shows "\<exists>es img network resp kvs.
     t' = t @ es @ [DeleteCall \<lparr>req_container_id = container_id cmd, req_network_name = network\<rparr>
       (trace_id cmd) (Inr resp)] \<and>
     save_confirmed dev (container_id cmd) (trace_id cmd) img es \<and>
     v = JObj ((''saved_image'', img) # kvs)"
  using hibernate_success_run [OF assms] by simp

text \<open>
  C24: A hibernate whose delete fails after the save still hands the saved image on. The message of
  \<open>POD_DELETE_FAILED_AFTER_SAVE\<close> is JSON that decodes to the image Cloud confirmed in this run and
  the first 800 characters of the error.
\<close>

theorem hibernate_keeps_saved_image:
  assumes "hibernate_handler E C dev cmd t =
      Some (Inr (None, Some ''POD_DELETE_FAILED_AFTER_SAVE'', Some msg), t')"
    and "\<not> skip_requested cmd"
  shows "\<exists>es img detail. t' = t @ es \<and> save_confirmed dev (container_id cmd) (trace_id cmd) img es \<and>
     length detail \<le> 800 \<and>
     (json_plain img \<longrightarrow>
        json_loads msg = Inr (JObj [(''saved_image'', img), (''detail'', JStr detail)]))"
  using assms
proof (cases rule: hibernate_runs_save)
  case (saving network)
  from saving(1) show ?thesis
  proof (cases rule: hibernate_with_save_run)
    case (saved es q ds img a x)
    have "\<exists>e. x = Inl e \<and> msg = delete_after_save_error img e"
    proof (cases x)
      case (Inl e)
      with saved(8) saved(9) show ?thesis by (cases e; simp add: failed_with_def)
    next
      case (Inr resp)
      with saved(7) show ?thesis by (auto simp: done_with_def)
    qed
    then obtain e where msg: "msg = delete_after_save_error img e" by blast
    have "json_loads msg = Inr (JObj [(''saved_image'', img), (''detail'', JStr (take 800 (exc_str e)))])"
      if "json_plain img"
      unfolding msg delete_after_save_error_def by (rule json_loads_dumps) (simp add: that)
    moreover from saved(2,3) have
      "save_confirmed dev (container_id cmd) (trace_id cmd) img (es @ q # ds)"
      by (auto simp: save_confirmed_def)
    ultimately show ?thesis
      by (intro exI [of _ "es @ q # ds"] exI [of _ img] exI [of _ "take 800 (exc_str e)"])
         (simp add: saved(1))
  qed auto
qed simp

lemma demo_stuck_hibernate:
  "hibernate_handler (demo_stuck_env saved_reply) default_config ''dev-1''
      (demo_command COMMAND_OPERATION_HIBERNATE demo_network_config) [] =
    Some (Inr (None, Some ''POD_DELETE_FAILED_AFTER_SAVE'', Some (delete_after_save_error (JStr ''reg/app:1'')
        (ContainerMakerClientError ''Error deleting container in ContainerMaker: stuck''))),
      demo_saved_events ''dev-1'' (JStr ''ns'') saved_reply @
      [DeleteCall \<lparr>req_container_id = ''c-1'', req_network_name = JStr ''ns''\<rparr> ''req-1''
         (Inl (GrpcRpcError (Some UNKNOWN) ''stuck''))])"
  by (simp add: hibernate_handler_def hibernate_with_save_def andThen_def catching_run failed_with_def)

theorem hibernate_keeps_saved_image_witness:
  "\<exists>img detail. length detail \<le> 800 \<and> (json_plain img \<longrightarrow>
     json_loads (delete_after_save_error (JStr ''reg/app:1'')
        (ContainerMakerClientError ''Error deleting container in ContainerMaker: stuck'')) =
     Inr (JObj [(''saved_image'', img), (''detail'', JStr detail)]))"
  using hibernate_keeps_saved_image [OF demo_stuck_hibernate demo_not_skipped] by blast

text \<open>
  A hibernate with \<open>skip_save\<close> neither saves nor asks Cloud: it only calls delete for the command's
  container, and it reports success exactly when the delete was answered or failed with a text
  that says the container is already gone.
\<close>

lemma hibernate_skip_save:
  assumes "skip_requested cmd" and "hibernate_handler E C dev cmd t = Some (r, t')"
    and "py_get ''network_name'' (JStr []) (optional_config (container_config_json cmd)) = Inr network"
  shows "\<exists>es x. t' = t @ es \<and> list_all (delete_event (container_id cmd) network (trace_id cmd)) es \<and>
     delete_container E (container_id cmd) network (trace_id cmd) t = Some (x, t') \<and>
     r = (case x of
       Inr resp \<Rightarrow> Inr (done_with (JObj []))
     | Inl e \<Rightarrow> if \<not> is_maker_error e then Inl e
         else if already_gone e then Inr (done_with (JObj []))
         else Inr (failed_with ''POD_DELETE_FAILED'' (clipped e)))"
proof -
  from assms have "hibernate_without_save E cmd network t = Some (r, t')"
    by (auto simp: hibernate_handler_def skip_requested_def Let_def split: sum.splits)
  then obtain x where x: "delete_container E (container_id cmd) network (trace_id cmd) t = Some (x, t')"
    "r = (case x of
       Inr resp \<Rightarrow> Inr (done_with (JObj []))
     | Inl e \<Rightarrow> if \<not> is_maker_error e then Inl e
         else if already_gone e then Inr (done_with (JObj []))
         else Inr (failed_with ''POD_DELETE_FAILED'' (clipped e)))"
    by (auto simp: hibernate_without_save_def andThen_def catching_run
        split: option.splits sum.splits if_splits)
  with emitsD [OF delete_container_emits x(1)] show ?thesis by blast
qed

lemma demo_skip_hibernate:
  "skip_requested (demo_command opn demo_skip_config)"
  "hibernate_handler (demo_env v) default_config ''dev-1''
      (demo_command COMMAND_OPERATION_HIBERNATE demo_skip_config) [] =
    Some (Inr (done_with (JObj [])), demo_deleted_events (JStr ''ns''))"
  "py_get ''network_name'' (JStr []) (optional_config (container_config_json
      (demo_command opn demo_skip_config))) = Inr (JStr ''ns'')"
  by (simp_all add: skip_requested_def hibernate_handler_def hibernate_without_save_def andThen_def
      catching_run demo_deleted_events_def del: json_dumps.simps)

section \<open>Creating and resuming\<close>

text \<open>
  A create or resume command with an unreadable or incomplete config is refused before anything is
  called. Text that is not JSON gives \<open>INVALID_CONFIG\<close>; an object that lacks required fields gives
  \<open>INVALID_CONFIG\<close> with exactly the missing fields, in the order of the required list; and the trace
  does not grow.
\<close>

lemma incomplete_config_refused:
  "(\<forall>e. json_loads (container_config_json cmd) = Inl e \<longrightarrow>
      create_handler E cmd t = Some (Inr invalid_json, t) \<and>
      resume_handler E cmd t = Some (Inr invalid_json, t)) \<and>
   (\<forall>kvs. json_loads (container_config_json cmd) = Inr (JObj kvs) \<longrightarrow>
      (let lacking = filter (\<lambda>k. map_of kvs k = None) in
       (lacking create_required \<noteq> [] \<longrightarrow>
          create_handler E cmd t = Some (Inr (fields_missing (lacking create_required)), t)) \<and>
       (lacking resume_required \<noteq> [] \<longrightarrow>
          resume_handler E cmd t = Some (Inr (fields_missing (lacking resume_required)), t))))"
  by (auto simp: create_handler_def resume_handler_def config_decode_error missing_fields_obj Let_def)

lemma create_call_of_run:
  assumes "maker_attempts (CreateCall req rid) r0 es" and "CreateCall req' rid' a \<in> set es"
  shows "req' = req \<and> rid' = rid"
proof -
  have "list_all (\<lambda>e. \<forall>req' rid' a. e = CreateCall req' rid' a \<longrightarrow> req' = req \<and> rid' = rid) es"
    by (rule maker_attempts_all [OF assms(1)]) (auto elim: is_pause.elims)
  with assms(2) show ?thesis by (auto simp: list_all_iff)
qed

text \<open>The calls of a create and what an error of the last one becomes.\<close>

definition create_calls :: "string \<Rightarrow> py_exc + handler_result \<Rightarrow> event list \<Rightarrow> bool" where
  "create_calls rid r es \<longleftrightarrow>
     list_all (\<lambda>e. is_pause e \<or> is_create_call e) es \<and> count_events is_create_call es \<le> 3 \<and>
     (\<forall>req rid' req' rid'' a b. CreateCall req rid' a \<in> set es \<longrightarrow> CreateCall req' rid'' b \<in> set es \<longrightarrow> req' = req) \<and>
     (\<forall>req rid' a. CreateCall req rid' a \<in> set (butlast es) \<longrightarrow> (\<exists>m. a = Inl (GrpcRpcError (Some UNAVAILABLE) m))) \<and>
     (\<forall>fs req c m. es = fs @ [CreateCall req rid (Inl (GrpcRpcError c m))] \<longrightarrow> r = Inr (failed_with
        ''CONTAINER_MAKER_ERROR'' (take 1000 (''Error creating container in ContainerMaker: '' @ m))))"

lemma create_calls_run:
  assumes run: "maker_attempts (CreateCall req rid) r0 es" and r: "r = create_reply network (outside_error ''creating'' r0)"
  shows "create_calls rid r es"
proof -
  have "list_all (\<lambda>e. is_pause e \<or> is_create_call e) es"
    by (rule maker_attempts_all [OF run]) simp_all
  moreover have "count_events is_create_call es \<le> 3"
    by (rule maker_attempts_three [OF run]) (auto elim: is_pause.elims)
  moreover have "req2 = req1"
    if "CreateCall req1 rid1 a \<in> set es" "CreateCall req2 rid2 b \<in> set es" for req1 rid1 req2 rid2 a b
    using create_call_of_run [OF run that(1)] create_call_of_run [OF run that(2)] by simp
  moreover have "\<exists>m. a = Inl (GrpcRpcError (Some UNAVAILABLE) m)" if "CreateCall req1 rid1 a \<in> set (butlast es)" for req1 rid1 a
    using maker_attempts_retried [OF run that] by auto
  moreover have "r = Inr (failed_with ''CONTAINER_MAKER_ERROR'' (take 1000 (''Error creating container in ContainerMaker: '' @ m)))"
    if "es = fs @ [CreateCall req1 rid (Inl (GrpcRpcError c m))]" for fs req1 c m
  proof -
    from maker_attempts_ends [OF run] that have "r0 = Inl (GrpcRpcError c m)" by auto
    then show ?thesis by (simp add: r create_reply_def outside_error_def clipped_def)
  qed
  ultimately show ?thesis unfolding create_calls_def by (intro conjI allI impI) blast+
qed

definition once_created ::
  "string \<Rightarrow> (string \<times> json) list \<Rightarrow> string \<Rightarrow> py_exc + handler_result \<Rightarrow> event list \<Rightarrow> bool"
where
  "once_created key kvs rid r es \<longleftrightarrow> count_events conclusive_call es \<le> 1 \<and>
     create_calls rid r es \<and>
     (\<forall>req rid' a. CreateCall req rid' a \<in> set es \<longrightarrow>
        rid' = rid \<and> map_of kvs key = Some (image_name req)) \<and>
     (\<forall>v. r = Inr (Some v, None, None) \<longrightarrow>
        (\<exists>fs req resp. es = fs @ [CreateCall req rid (Inr resp)] \<and>
           v = created_result resp (network_name req)))"

lemma once_created_none: "(\<And>v. r \<noteq> Inr (Some v, None, None)) \<Longrightarrow> once_created key kvs rid r []"
  by (simp add: once_created_def create_calls_def)

lemma create_reply_success:
  assumes "create_reply network (outside_error what r0) = Inr (Some v, None, None)"
  shows "\<exists>resp. r0 = Inr resp \<and> v = created_result resp network"
proof (cases "outside_error what r0")
  case (Inl e)
  with assms show ?thesis by (simp add: create_reply_def failed_with_def split: if_splits)
next
  case (Inr resp)
  with assms show ?thesis by (simp add: create_reply_def done_with_def)
qed

lemma create_from_config_once:
  assumes "create_from_config E key (JObj kvs) rid t = Some (r, t')"
  shows "\<exists>es. t' = t @ es \<and> once_created key kvs rid r es"
  using create_from_config_run [OF assms]
proof
  assume "t' = t \<and> (\<forall>v. r \<noteq> Inr (Some v, None, None))"
  then show ?thesis by (intro exI [of _ "[]"]) (simp add: once_created_none)
next
  assume "\<exists>args pubs r0 es. create_args_of key (JObj kvs) = Inr args \<and> t' = t @ es \<and>
      maker_attempts (CreateCall (create_request_of args pubs) rid) r0 es \<and>
      r = create_reply (ca_network args) (outside_error ''creating'' r0)"
  then obtain args pubs r0 es where args: "create_args_of key (JObj kvs) = Inr args"
    and es: "t' = t @ es"
    and run: "maker_attempts (CreateCall (create_request_of args pubs) rid) r0 es"
    and r: "r = create_reply (ca_network args) (outside_error ''creating'' r0)" by blast
  have "\<exists>fs req resp. es = fs @ [CreateCall req rid (Inr resp)] \<and>
         v = created_result resp (network_name req)" if v: "r = Inr (Some v, None, None)" for v
  proof -
    from create_reply_success [OF v [unfolded r]] obtain resp where
      resp: "r0 = Inr resp" "v = created_result resp (ca_network args)" by blast
    from maker_attempts_value [OF run [unfolded resp(1)]] obtain fs where
      "es = fs @ [CreateCall (create_request_of args pubs) rid (Inr resp)]" ..
    with resp(2) show ?thesis
      by (intro exI [of _ fs] exI [of _ "create_request_of args pubs"] exI [of _ resp])
         (simp add: create_request_of_def)
  qed
  moreover have "count_events conclusive_call es \<le> 1"
    using maker_attempts_once [OF run] by simp
  moreover have "create_calls rid r es" by (rule create_calls_run [OF run r])
  moreover have "rid' = rid \<and> map_of kvs key = Some (image_name req)"
    if "CreateCall req rid' a \<in> set es" for req rid' a
    using create_call_of_run [OF run that] create_args_fields(1) [OF args]
    by (simp add: create_request_of_def)
  ultimately have "once_created key kvs rid r es"
    unfolding once_created_def by (intro conjI allI impI) simp_all
  with es show ?thesis by (intro exI [of _ es]) simp
qed


text \<open>
  C25: A resume starts only from a saved image. Every create call of the run carries the config's
  \<open>saved_image\<close>, which is not empty, and the command's trace id; at most one of them ended otherwise than \<open>UNAVAILABLE\<close>;
  and with an empty \<open>saved_image\<close> nothing is called at all.
\<close>

theorem resume_from_saved_image:
  assumes "resume_handler E cmd t = Some (r, t')"
    and "json_loads (container_config_json cmd) = Inr (JObj kvs)"
  shows "\<exists>es. t' = t @ es \<and> count_events conclusive_call es \<le> 1 \<and>
     (\<forall>req rid a. CreateCall req rid a \<in> set es \<longrightarrow> rid = trace_id cmd \<and>
        map_of kvs ''saved_image'' = Some (image_name req) \<and> py_truthy (image_name req)) \<and>
     (\<forall>img. map_of kvs ''saved_image'' = Some img \<and> \<not> py_truthy img \<longrightarrow> es = [] \<and>
        (\<exists>code msg. r = Inr (failed_with code msg)))"
proof -
  let ?lacking = "filter (\<lambda>k. map_of kvs k = None) resume_required"
  show ?thesis
  proof (cases "?lacking = []")
    case False
    with assms have "t' = t" "r = Inr (fields_missing ?lacking)"
      by (simp_all add: resume_handler_def missing_fields_obj)
    then show ?thesis by (auto simp: fields_missing_def)
  next
    case True
    then have "\<forall>k \<in> set resume_required. map_of kvs k \<noteq> None" by (simp only: filter_empty_conv simp_thms)
    then have "map_of kvs ''saved_image'' \<noteq> None" by (simp add: resume_required_def)
    then obtain img where img: "map_of kvs ''saved_image'' = Some img" by blast
    show ?thesis
    proof (cases "py_truthy img")
      case False
      with assms True img have "t' = t"
        "r = Inr (failed_with ''MISSING_SAVED_IMAGE'' ''Container has no saved_image to resume from'')"
        by (simp_all add: resume_handler_def missing_fields_obj)
      then show ?thesis by auto
    next
      case truthy: True
      with assms True img have "create_from_config E ''saved_image'' (JObj kvs) (trace_id cmd) t = Some (r, t')"
        by (simp add: resume_handler_def missing_fields_obj)
      from create_from_config_once [OF this] obtain es where
        "t' = t @ es" "once_created ''saved_image'' kvs (trace_id cmd) r es" by blast
      with img truthy show ?thesis unfolding once_created_def by (intro exI [of _ es]) auto
    qed
  qed
qed

lemma demo_create_container:
  "create_container (demo_env v) img name network exposure (JArr []) envs res rid t =
     Some (Inr \<lparr>resp_container_id = ''c-1'', resp_container_name = ''app-pod-1706565890'',
         container_ip = Some ''10.0.0.7''\<rparr>,
       t @ [CreateCall \<lparr>image_name = img, container_name = name, network_name = network,
              exposure_level = exposure, publish_information = [], environment_variables = envs,
              resources = res\<rparr> rid
              (Inr \<lparr>resp_container_id = ''c-1'', resp_container_name = ''app-pod-1706565890'',
                 container_ip = Some ''10.0.0.7''\<rparr>)])"
  by (simp add: create_container_def call_with_retry_def call_create_def tryExcept_def
      numeral_3_eq_3 Let_def)

lemma demo_create_args:
  "\<exists>args. create_args_of ''image_name'' demo_create_config = Inr args \<and> ca_publish args = JArr []"
  "\<exists>args. create_args_of ''saved_image'' demo_create_config = Inr args \<and> ca_publish args = JArr []"
  by (simp_all add: create_args_of_def demo_create_config_def)

lemma demo_create_from:
  assumes "\<exists>args. create_args_of key demo_create_config = Inr args \<and> ca_publish args = JArr []"
  shows "\<exists>req a v. create_from_config (demo_env JNull) key demo_create_config rid t =
     Some (Inr (Some v, None, None), t @ [CreateCall req rid a])"
  using assms
  by (auto simp: create_from_config_def andThen_def catching_run demo_create_container done_with_def)

lemma demo_create_complete:
  "missing_fields create_required demo_create_config = Inr []"
  "missing_fields resume_required demo_create_config = Inr []"
  "py_getitem ''saved_image'' demo_create_config = Inr (JStr ''reg/app:1'')"
  by (simp_all add: create_required_def resume_required_def demo_create_config_def)

lemma demo_create_run:
  "\<exists>req a v. create_handler (demo_env JNull) (demo_command COMMAND_OPERATION_CREATE demo_create_config) [] =
     Some (Inr (Some v, None, None), [CreateCall req ''req-1'' a])"
  "\<exists>req a v. resume_handler (demo_env JNull) (demo_command COMMAND_OPERATION_RESUME demo_create_config) [] =
     Some (Inr (Some v, None, None), [CreateCall req ''req-1'' a])"
  using demo_create_from [OF demo_create_args(1), of "''req-1''" "[]"]
    demo_create_from [OF demo_create_args(2), of "''req-1''" "[]"]
  by (simp_all add: create_handler_def resume_handler_def demo_create_complete)

lemma demo_create_loads:
  "\<exists>kvs. json_loads (container_config_json (demo_command opn demo_create_config)) = Inr (JObj kvs) \<and>
     map_of kvs ''image_name'' = Some (JStr ''base:1'') \<and> map_of kvs ''saved_image'' = Some (JStr ''reg/app:1'')"
  by simp (simp add: demo_create_config_def)


theorem resume_from_saved_image_witness:
  "\<exists>req a r t'. resume_handler (demo_env JNull)
      (demo_command COMMAND_OPERATION_RESUME demo_create_config) [] = Some (r, t') \<and>
    t' = [CreateCall req ''req-1'' a] \<and> image_name req = JStr ''reg/app:1''"
proof -
  obtain kvs where kvs: "json_loads (container_config_json
      (demo_command COMMAND_OPERATION_RESUME demo_create_config)) = Inr (JObj kvs)"
    "map_of kvs ''saved_image'' = Some (JStr ''reg/app:1'')"
    using demo_create_loads [of COMMAND_OPERATION_RESUME] by blast
  obtain req a v where run: "resume_handler (demo_env JNull)
      (demo_command COMMAND_OPERATION_RESUME demo_create_config) [] =
      Some (Inr (Some v, None, None), [CreateCall req ''req-1'' a])"
    using demo_create_run(2) by blast
  from resume_from_saved_image [OF run kvs(1)] kvs(2) run show ?thesis by auto
qed

section \<open>Deleting\<close>

text \<open>What the handler makes of the outcome of the client's call; what the text of an error means:
  with one of three markers in it, in lower case, the container is already gone.\<close>

definition judged_delete :: "execute_command \<Rightarrow> string \<Rightarrow> handler_result" where
  "judged_delete cmd text = (if \<exists>w \<in> {''404'', ''not found'', ''notfound''}. py_contains w (py_lower text)
     then done_with (JObj [(''container_id'', JStr (container_id cmd)), (''status'', JStr ''already_deleted'')])
     else failed_with ''CONTAINER_MAKER_ERROR'' (take 1000 text))"

definition delete_reply :: "execute_command \<Rightarrow> py_exc + delete_response \<Rightarrow> py_exc + handler_result" where
  "delete_reply cmd x = (case x of
       Inr resp \<Rightarrow> Inr (done_with (JObj [(''container_id'', JStr (del_container_id resp)),
            (''status'', JStr (del_status resp))]))
     | Inl e \<Rightarrow> if is_maker_error e then Inr (judged_delete cmd (exc_str e)) else Inl e)"

lemma already_gone_text: "already_gone e \<longleftrightarrow> (\<exists>w \<in> {''404'', ''not found'', ''notfound''}. py_contains w (py_lower (exc_str e)))"
  by (simp add: already_gone_def already_gone_markers_def)

lemma delete_handler_reply:
  assumes "delete_handler E cmd t = Some (r, t')"
    and "py_get ''network_name'' (JStr []) (optional_config (container_config_json cmd)) = Inr network"
  shows "\<exists>x. delete_container E (container_id cmd) network (trace_id cmd) t = Some (x, t') \<and> r = delete_reply cmd x"
proof -
  from assms obtain x where x: "delete_container E (container_id cmd) network (trace_id cmd) t = Some (x, t')"
    and "r = (case x of
       Inr response \<Rightarrow> Inr (done_with (JObj [(''container_id'', JStr (del_container_id response)),
            (''status'', JStr (del_status response))]))
     | Inl e \<Rightarrow> if \<not> is_maker_error e then Inl e
         else if already_gone e then Inr (done_with (JObj [(''container_id'', JStr (container_id cmd)),
            (''status'', JStr ''already_deleted'')]))
         else Inr (failed_with ''CONTAINER_MAKER_ERROR'' (clipped e)))"
    by (auto simp: delete_handler_def andThen_def catching_run split: option.splits sum.splits if_splits)
  then have "r = delete_reply cmd x"
    by (cases x) (simp_all only: delete_reply_def judged_delete_def already_gone_text clipped_def sum.case if_not_P if_P split: if_splits, simp_all)
  with x show ?thesis by blast
qed

text \<open>
  C27: What a delete command does, on every branch. A config that is not an object raises before any call. Otherwise
  the run is at most three delete calls for the command's container and the config's network, with pauses between
  them, where every call but the last was answered \<open>UNAVAILABLE\<close>. Cancelled in a pause, the handler is cancelled. An
  answer of the last call is the result. The text of a gRPC error of the last call decides: with one of the three
  markers in it the result is \<open>already_deleted\<close>, without it is \<open>CONTAINER_MAKER_ERROR\<close> with at most 1000
  characters of the text. Any other exception, also of building the request, goes on to the executor.
\<close>

theorem delete_handler_outcome:
  assumes "delete_handler E cmd t = Some (r, t')"
  shows "case py_get ''network_name'' (JStr []) (optional_config (container_config_json cmd)) of
     Inl e \<Rightarrow> r = Inl e \<and> t' = t
   | Inr network \<Rightarrow>
      (let req = \<lparr>req_container_id = container_id cmd, req_network_name = network\<rparr>; call = DeleteCall req (trace_id cmd) in
       \<exists>es. t' = t @ es \<and> list_all (\<lambda>e. is_pause e \<or> (\<exists>a. e = call a)) es \<and> count_events is_delete_call es \<le> 3 \<and>
         (\<forall>a. call a \<in> set (butlast es) \<longrightarrow> (\<exists>m. a = Inl (GrpcRpcError (Some UNAVAILABLE) m))) \<and>
         ((\<exists>e. es = [] \<and> check_container E req = Some e \<and> (is_maker_error e \<or> r = Inl e)) \<or>
          (\<exists>fs d. es = fs @ [Slept d] \<and> r = Inl CancelledError) \<or>
          (\<exists>fs resp. es = fs @ [call (Inr resp)] \<and> r = Inr (done_with (JObj [(''container_id'', JStr (del_container_id resp)),
             (''status'', JStr (del_status resp))]))) \<or>
          (\<exists>fs e. es = fs @ [call (Inl e)] \<and> (case e of
             GrpcRpcError c m \<Rightarrow> r = Inr (judged_delete cmd (''Error deleting container in ContainerMaker: '' @ m))
           | ContainerMakerClientError m \<Rightarrow> r = Inr (judged_delete cmd m)
           | _ \<Rightarrow> r = Inl e))))"
proof (cases "py_get ''network_name'' (JStr []) (optional_config (container_config_json cmd))")
  case (Inl e)
  with assms show ?thesis by (simp add: delete_handler_def)
next
  case (Inr network)
  let ?req = "\<lparr>req_container_id = container_id cmd, req_network_name = network\<rparr>"
  let ?call = "DeleteCall ?req (trace_id cmd)"
  from delete_handler_reply [OF assms Inr] obtain x where
    x: "delete_container E (container_id cmd) network (trace_id cmd) t = Some (x, t')" and r: "r = delete_reply cmd x" by blast
  from delete_container_run [OF x] show ?thesis
  proof (elim disjE exE conjE)
    fix e
    assume "check_container E ?req = Some e" "x = Inl e" "t' = t"
    with r show ?thesis by (auto simp: Inr delete_reply_def Let_def)
  next
    fix r0 es
    assume es: "t' = t @ es" and x0: "x = outside_error ''deleting'' r0" and run: "maker_attempts ?call r0 es"
    have calls: "list_all (\<lambda>e. is_pause e \<or> (\<exists>a. e = ?call a)) es" by (rule maker_attempts_all [OF run]) auto
    have three: "count_events is_delete_call es \<le> 3"
      by (rule maker_attempts_three [OF run]) (auto elim: is_pause.elims)
    have retried: "\<exists>m. a = Inl (GrpcRpcError (Some UNAVAILABLE) m)" if "?call a \<in> set (butlast es)" for a
      using maker_attempts_retried [OF run that] by auto
    from maker_attempts_ends [OF run] show ?thesis
    proof (elim disjE exE conjE)
      fix fs d
      assume "es = fs @ [Slept d]" "r0 = Inl CancelledError"
      with es calls three retried r x0 show ?thesis
        by (simp add: Inr Let_def outside_error_def delete_reply_def)
    next
      fix fs
      assume last: "es = fs @ [?call r0]"
      show ?thesis
      proof (cases r0)
        case (Inl e)
        with r x0 have "case e of
             GrpcRpcError c m \<Rightarrow> r = Inr (judged_delete cmd (''Error deleting container in ContainerMaker: '' @ m))
           | ContainerMakerClientError m \<Rightarrow> r = Inr (judged_delete cmd m)
           | _ \<Rightarrow> r = Inl e" by (cases e) (simp_all add: outside_error_def delete_reply_def)
        with es calls three retried last Inl \<open>py_get _ _ _ = Inr network\<close> show ?thesis
          by (simp add: Let_def)
      next
        case resp: (Inr resp)
        with es calls three retried last r x0 show ?thesis
          by (simp add: Inr Let_def outside_error_def delete_reply_def)
      qed
    qed
  qed
qed

lemma demo_delete_run:
  "delete_handler (demo_env JNull) (demo_command COMMAND_OPERATION_DELETE demo_network_config) [] =
    Some (Inr (done_with (JObj [(''container_id'', JStr ''c-1''), (''status'', JStr ''Deleted'')])),
      demo_deleted_events (JStr ''ns''))"
  by (simp add: delete_handler_def andThen_def catching_run demo_deleted_events_def)

theorem delete_handler_outcome_witness:
  "count_events is_delete_call (demo_deleted_events (JStr ''ns'')) \<le> 3"
proof -
  have network: "py_get ''network_name'' (JStr []) (optional_config (container_config_json
      (demo_command COMMAND_OPERATION_DELETE demo_network_config))) = Inr (JStr ''ns'')"
    by simp
  from delete_handler_outcome [OF demo_delete_run, unfolded network sum.case Let_def] obtain es where
    "demo_deleted_events (JStr ''ns'') = [] @ es" "count_events is_delete_call es \<le> 3" by blast
  then show ?thesis by simp
qed

section \<open>Resuming as creating\<close>

text \<open>A config with its image replaced: every other key is looked up as before.\<close>

lemma dict_set_lookup:
  "py_in ''image_name'' (JObj (dict_set ''image_name'' img kvs)) = Inr True"
  "py_getitem ''image_name'' (JObj (dict_set ''image_name'' img kvs)) = Inr img"
  "k \<noteq> ''image_name'' \<Longrightarrow> py_in k (JObj (dict_set ''image_name'' img kvs)) = py_in k (JObj kvs)"
  "k \<noteq> ''image_name'' \<Longrightarrow> py_getitem k (JObj (dict_set ''image_name'' img kvs)) = py_getitem k (JObj kvs)"
  "k \<noteq> ''image_name'' \<Longrightarrow> py_get k d (JObj (dict_set ''image_name'' img kvs)) = py_get k d (JObj kvs)"
  by (simp_all add: map_of_dict_set)

text \<open>
  C23: Resuming is creating from the saved image. Executing a resume does exactly what executing a create does
  whose config is the same with \<open>image_name\<close> set to the saved image: the same calls, results and errors, the
  report of missing fields included, in every world.
\<close>

theorem resume_is_create:
  assumes "container_config_json cmd = json_dumps (JObj kvs)" and "json_plain (JObj kvs)"
    and "map_of kvs ''saved_image'' = Some img" and "py_truthy img"
  shows "resume_handler E cmd =
     create_handler E (cmd\<lparr>container_config_json := json_dumps (JObj (dict_set ''image_name'' img kvs))\<rparr>)"
proof -
  let ?cfg = "JObj kvs" and ?cfg' = "JObj (dict_set ''image_name'' img kvs)"
  have "json_plain img" using assms(2) map_of_SomeD [OF assms(3)] by (auto simp: list_all_iff)
  then have "json_plain ?cfg'" using assms(2) by (simp add: distinct_dict_set plain_dict_set)
  then have loads: "json_loads (json_dumps ?cfg) = Inr ?cfg" "json_loads (json_dumps ?cfg') = Inr ?cfg'"
    using assms(2) json_loads_dumps by blast+
  have saved: "py_in ''saved_image'' ?cfg = Inr True" "py_getitem ''saved_image'' ?cfg = Inr img"
    using assms(3) by simp_all
  have missing: "missing_fields create_required ?cfg' = missing_fields resume_required ?cfg"
    unfolding create_required_def resume_required_def missing_fields.simps dict_set_lookup(1) saved(1)
    by (simp add: dict_set_lookup(3) del: py_in.simps)
  have args: "create_args_of ''image_name'' ?cfg' = create_args_of ''saved_image'' ?cfg"
    unfolding create_args_of_def dict_set_lookup(2) saved(2)
    by (simp add: dict_set_lookup(4,5) del: py_getitem.simps py_get.simps)
  have rest: "create_from_config E ''image_name'' ?cfg' rid = create_from_config E ''saved_image'' ?cfg rid" for rid
    unfolding create_from_config_def args ..
  show ?thesis
    using assms(4)
    by (simp add: resume_handler_def create_handler_def assms(1) loads missing saved(2) rest
        del: json_dumps.simps py_getitem.simps split: sum.splits)
qed

theorem resume_is_create_witness:
  "\<exists>kvs. demo_create_config = JObj kvs \<and>
     resume_handler (demo_env JNull) (demo_command COMMAND_OPERATION_RESUME demo_create_config) =
     create_handler (demo_env JNull) ((demo_command COMMAND_OPERATION_RESUME demo_create_config)
       \<lparr>container_config_json := json_dumps (JObj (dict_set ''image_name'' (JStr ''reg/app:1'') kvs))\<rparr>)"
proof -
  obtain kvs where kvs: "demo_create_config = JObj kvs" "map_of kvs ''saved_image'' = Some (JStr ''reg/app:1'')"
    by (simp add: demo_create_config_def)
  have "container_config_json (demo_command COMMAND_OPERATION_RESUME demo_create_config) = json_dumps (JObj kvs)"
    unfolding kvs(1) [symmetric] by (rule demo_command_sel)
  moreover have "json_plain (JObj kvs)" unfolding kvs(1) [symmetric] by (rule demo_create_config_plain)
  moreover have "py_truthy (JStr ''reg/app:1'')" by simp
  ultimately show ?thesis using resume_is_create kvs by blast
qed

end
