(* ===== verification/Wiring.thy ===== *)
theory Wiring
  imports Executor Handler_Properties
begin

text \<open>
  The closures and registrations of \<open>run\<close> in \<open>device_agent/main.py\<close>: how a result is reported and
  which handler serves which operation. \<open>report_result\<close> interprets the interface \<open>result_reporter\<close>
  of the executor; the properties of executing one command on the wired agent follow.
\<close>

text \<open>\<open>report_result\<close>: over HTTP; the row is marked only when Cloud answered 200.\<close>

definition report_result :: "env \<Rightarrow> string \<Rightarrow> reporter" where
  "report_result E dev cid s gen result ec em =
     andThen (on_trace (report_command_result E dev cid (status_text s) result ec em gen)) (\<lambda>ok.
       if ok then write_journal E (\<lambda>now. mark_reported now cid) else ret ())"

definition main_handlers :: "env \<Rightarrow> config \<Rightarrow> string \<Rightarrow> handler_table" where
  "main_handlers E C dev =
     register COMMAND_OPERATION_SAVE (save_handler E C dev)
     (register COMMAND_OPERATION_RESUME (resume_handler E)
     (register COMMAND_OPERATION_HIBERNATE (hibernate_handler E C dev)
     (register COMMAND_OPERATION_DELETE (delete_handler E)
     (register COMMAND_OPERATION_CREATE (create_handler E) Map.empty))))"

lemma main_handlers_simps [simp]:
  "main_handlers E C dev COMMAND_OPERATION_CREATE = Some (create_handler E)"
  "main_handlers E C dev COMMAND_OPERATION_DELETE = Some (delete_handler E)"
  "main_handlers E C dev COMMAND_OPERATION_HIBERNATE = Some (hibernate_handler E C dev)"
  "main_handlers E C dev COMMAND_OPERATION_RESUME = Some (resume_handler E)"
  "main_handlers E C dev COMMAND_OPERATION_SAVE = Some (save_handler E C dev)"
  "main_handlers E C dev COMMAND_OPERATION_RECONCILE = None"
  "main_handlers E C dev (COMMAND_OPERATION_OTHER n) = None"
  by (simp_all add: main_handlers_def register_def)

section \<open>Reporting\<close>

text \<open>Cloud has acknowledged this result: it answered the report with 200.\<close>

definition acknowledged ::
  "string \<Rightarrow> string \<Rightarrow> jstatus \<Rightarrow> json option \<Rightarrow> string option \<Rightarrow> string option \<Rightarrow> int \<Rightarrow> trace \<Rightarrow> bool"
where
  "acknowledged dev cid s result ec em gen t \<longleftrightarrow>
     (\<exists>resp. HttpCall (command_result_req dev cid (status_text s) result ec em gen) (Inr resp) \<in> set t \<and>
        status_code resp = 200)"

lemma report_command_result_true:
  assumes "report_command_result E dev cid st result ec em gen t = Some (Inr True, t')"
  shows "\<exists>resp fs. t' = t @ fs @ [HttpCall (command_result_req dev cid st result ec em gen) (Inr resp)] \<and>
     status_code resp = 200"
proof -
  let ?q = "command_result_req dev cid st result ec em gen"
  from assms obtain resp where
    run: "call_with_retry E (call_http E ?q) transport_retryable 5 (1 / 2) 5 t = Some (Inr resp, t')"
    and code: "status_code resp = 200"
    by (auto simp: report_command_result_def andThen_def catching_run
        split: option.splits sum.splits if_splits)
  obtain eus final where "t' = t @ retry_events (HttpCall ?q) (1 / 2) 5 0 eus @ final"
    "retry_outcome (HttpCall ?q) transport_retryable 5 (length eus) (Inr resp) final"
    using call_with_retry_run [OF single_call_http _ run] by (metis zero_less_numeral)
  with code show ?thesis by (auto simp: retry_outcome_def)
qed

lemma report_result_cases:
  assumes "report_result E dev cid s gen result ec em a = Some (r, a')"
  obtains (unmarked) "ag_journal a' = ag_journal a" and "ag_cache a' = ag_cache a"
      and "ag_outbound a' = ag_outbound a" and "ag_pending a' = ag_pending a" and "ag_stopped a' = ag_stopped a"
  | (marked) now where "ag_journal a' = mark_reported now cid (ag_journal a)" and "ag_cache a' = ag_cache a"
      and "ag_outbound a' = ag_outbound a" and "ag_pending a' = ag_pending a" and "ag_stopped a' = ag_stopped a"
      and "acknowledged dev cid s result ec em gen (ag_trace a')" and "r = Inr ()"
  using assms unfolding report_result_def
proof (cases rule: andThen_cases)
  case (raised e)
  then show thesis using unmarked on_trace_keeps [OF raised(1)] by simp
next
  case (returned ok a1)
  note keeps = on_trace_keeps [OF returned(1)]
  show thesis
  proof (cases ok)
    case False
    with returned(2) keeps show thesis by (intro unmarked) auto
  next
    case True
    from keeps(6) True have "report_command_result E dev cid (status_text s) result ec em gen
        (ag_trace a) = Some (Inr True, ag_trace a1)" by simp
    from report_command_result_true [OF this] have "acknowledged dev cid s result ec em gen (ag_trace a1)"
      by (auto simp: acknowledged_def)
    then have acked: "acknowledged dev cid s result ec em gen (ag_trace a1 @ es)" for es
      by (auto simp: acknowledged_def)
    from True returned(2) have "write_journal E (\<lambda>now. mark_reported now cid) a1 = Some (r, a')" by simp
    then show thesis
      by (cases rule: write_journal_cases) (use acked keeps(1-5) marked unmarked in auto)
  qed
qed

text \<open>An exception of the report itself is the HTTP client's, or the disk's when the row was to be marked.\<close>

lemma report_command_result_raises:
  assumes "report_command_result E dev cid st result ec em gen t = Some (Inl e, t')" and "is_exception e"
  shows "\<not> is_http_error e \<and> HttpCall (command_result_req dev cid st result ec em gen) (Inl e) \<in> set t'"
proof -
  let ?q = "command_result_req dev cid st result ec em gen"
  from assms(1) have run: "call_with_retry E (call_http E ?q) transport_retryable 5 (1 / 2) 5 t = Some (Inl e, t')"
    and e: "\<not> is_http_error e"
    by (auto simp: report_command_result_def andThen_def catching_run split: option.splits sum.splits if_splits)
  obtain eus final where "t' = t @ retry_events (HttpCall ?q) (1 / 2) 5 0 eus @ final"
    "retry_outcome (HttpCall ?q) transport_retryable 5 (length eus) (Inl e) final"
    using call_with_retry_run [OF single_call_http _ run] by (metis zero_less_numeral)
  with e assms(2) show ?thesis by (auto simp: retry_outcome_def)
qed

lemma report_result_raises:
  assumes "report_result E dev cid s gen result ec em a = Some (Inl e, a')" and "is_exception e"
  shows "disk_failure E e \<or> \<not> is_http_error e \<and>
     HttpCall (command_result_req dev cid (status_text s) result ec em gen) (Inl e) \<in> set (ag_trace a')"
  using assms(1) unfolding report_result_def
proof (cases rule: andThen_cases)
  case (raised e')
  with report_command_result_raises [OF on_trace_keeps(6) [OF raised(1)]] assms(2) show ?thesis by simp
next
  case (returned ok b)
  show ?thesis
  proof (cases ok)
    case True
    with returned(2) have "write_journal E (\<lambda>now. mark_reported now cid) b = Some (Inl e, a')" by simp
    then show ?thesis by (cases rule: write_journal_cases) auto
  qed (use returned(2) in simp)
qed

interpretation main_reporter: result_reporter "report_result E dev" for E dev
proof
  fix cid s gen res ec em a
  have "total_proc (report_result E dev cid s gen res ec em)"
    unfolding report_result_def by (auto intro!: total_andThen total_on_trace)
  then show "report_result E dev cid s gen res ec em a \<noteq> None" by (simp add: total_proc_def)
next
  fix cid s gen res ec em a r a' k q
  assume run: "report_result E dev cid s gen res ec em a = Some (r, a')"
    and q: "get_entry k (ag_journal a) = Some q"
  from run show "\<exists>q'. get_entry k (ag_journal a') = Some q' \<and> same_result q q'"
    by (cases rule: report_result_cases) (use q in \<open>auto simp: journal_simps\<close>)
next
  fix cid s gen res ec em a r a'
  assume run: "report_result E dev cid s gen res ec em a = Some (r, a')"
    and ok: "journal_ok (ag_journal a)"
  from run show "journal_ok (ag_journal a')"
    by (cases rule: report_result_cases) (use ok in \<open>simp_all add: journal_simps\<close>)
next
  fix cid s gen res ec em a r a'
  assume "report_result E dev cid s gen res ec em a = Some (r, a')"
  then show "ag_cache a' = ag_cache a" by (cases rule: report_result_cases)
next
  fix cid s gen res ec em a r a'
  assume run: "report_result E dev cid s gen res ec em a = Some (r, a')"
  have "emits (\<lambda>_. True) (report_command_result E dev cid (status_text s) res ec em gen)"
    unfolding report_command_result_def by (auto intro!: emits_intros)
  note appends = emitsD [OF this]
  show "\<exists>es. ag_trace a' = ag_trace a @ es"
    using run unfolding report_result_def
  proof (cases rule: andThen_cases)
    case (raised e)
    with appends [OF on_trace_keeps(6) [OF raised(1)]] show ?thesis by blast
  next
    case (returned ok a1)
    with appends [OF on_trace_keeps(6) [OF returned(1)]] show ?thesis
      by (auto simp: write_journal_run Let_def split: if_splits option.splits)
  qed
next
  fix cid s gen res ec em a r a' k
  assume run: "report_result E dev cid s gen res ec em a = Some (r, a')" and k: "k \<noteq> cid"
  from run show "get_entry k (ag_journal a') = get_entry k (ag_journal a)"
    by (cases rule: report_result_cases) (use k in \<open>simp_all add: journal_simps\<close>)
qed

section \<open>One command on the wired agent\<close>

text \<open>
  C11: A result is durable before it is reported. Every report that executing a command makes finds its
  result in the command's journal row, unreported: with a reporter that never returns when this is
  not so, the execution is the same. (Of an operation without a handler the row must exist, which
  the control stream sees to.)
\<close>

theorem execute_journals_first:
  assumes "H (operation cmd) \<noteq> None \<or> has_seen cid (ag_journal a)"
  shows "execute E H (checked (report_result E dev)) cid cmd a = execute E H (report_result E dev) cid cmd a"
  using main_reporter.execute_checked assms unfolding known_def by blast

definition demo_agent :: agent where
  "demo_agent = \<lparr>ag_journal = [], ag_cache = Some cache_empty, ag_outbound = Some [], ag_pending = [],
     ag_stopped = False, ag_trace = []\<rparr>"

theorem execute_journals_first_witness:
  "execute (demo_env JNull) (main_handlers (demo_env JNull) default_config ''dev-1'')
     (checked (report_result (demo_env JNull) ''dev-1'')) ''cmd-1''
     (demo_command COMMAND_OPERATION_DELETE demo_network_config) demo_agent =
   execute (demo_env JNull) (main_handlers (demo_env JNull) default_config ''dev-1'')
     (report_result (demo_env JNull) ''dev-1'') ''cmd-1''
     (demo_command COMMAND_OPERATION_DELETE demo_network_config) demo_agent"
  by (rule execute_journals_first) simp

lemma demo_report [simp]:
  "report_command_result (demo_env v) dev cid st res ec em gen t =
     Some (Inr True, t @ [HttpCall (command_result_req dev cid st res ec em gen)
       (Inr \<lparr>status_code = 200, content = json_dumps v\<rparr>)])"
  by (simp add: report_command_result_def andThen_def catching_run call_with_retry_def call_http_def
      tryExcept_def Let_def eval_nat_numeral)

lemma demo_execute_delete:
  "\<exists>a'. execute (demo_env JNull) (main_handlers (demo_env JNull) default_config ''dev-1'')
       (report_result (demo_env JNull) ''dev-1'') ''cmd-1''
       (demo_command COMMAND_OPERATION_DELETE demo_network_config) demo_agent = Some (Inr (), a')"
proof -
  have "\<exists>v t'. delete_handler (demo_env JNull) (demo_command COMMAND_OPERATION_DELETE demo_network_config) t =
      Some (Inr (Some v, None, None), t')" for t
    by (simp add: delete_handler_def andThen_def catching_run done_with_def)
  then obtain v t' where "\<And>t. delete_handler (demo_env JNull) (demo_command COMMAND_OPERATION_DELETE demo_network_config) t =
      Some (Inr (Some (v t), None, None), t' t)" by metis
  then show ?thesis
    by (simp add: execute_def accept_if_new_def read_journal_works demo_agent_def has_seen_def andThen_def write_journal_works
        tryExcept_def on_trace_run conclude_def update_placement_cache_def finish_command_works
        report_result_def del: json_dumps.simps)
qed

text \<open>The row of a command that has been accepted and marked running.\<close>

lemma running_row:
  assumes "has_seen cid j" and "b = a\<lparr>ag_trace := t, ag_journal := record_running now cid j\<rparr>"
  shows "known cid b \<and> (\<exists>q. get_entry cid (ag_journal b) = Some q \<and> je_status q = Running)"
  using assms by (auto simp: known_get has_seen_get journal_simps) (auto simp: set_status_def)

text \<open>The report of what a handler returned, and a failure to record or to report it.\<close>

definition result_report :: "string \<Rightarrow> string \<Rightarrow> execute_command \<Rightarrow> handler_result \<Rightarrow> http_request" where
  "result_report dev cid cmd x = (case x of
       (result, Some code, em) \<Rightarrow> command_result_req dev cid (status_text Failed) None (Some code) em (placement_generation cmd)
     | (result, None, em) \<Rightarrow> command_result_req dev cid (status_text Succeeded) result None None (placement_generation cmd))"

definition unreportable :: "env \<Rightarrow> string \<Rightarrow> string \<Rightarrow> execute_command \<Rightarrow> handler_result \<Rightarrow> py_exc \<Rightarrow> trace \<Rightarrow> bool" where
  "unreportable E dev cid cmd x e t \<longleftrightarrow>
     disk_failure E e \<or> \<not> is_http_error e \<and> HttpCall (result_report dev cid cmd x) (Inl e) \<in> set t"

lemma finish_raises:
  assumes "finish_command E (report_result E dev) cid s gen result ec em a = Some (Inl e, a')" and "is_exception e"
  shows "disk_failure E e \<or> \<not> is_http_error e \<and>
     HttpCall (command_result_req dev cid (status_text s) result ec em gen) (Inl e) \<in> set (ag_trace a')"
  using assms(1) by (cases rule: finish_cases) (use report_result_raises assms(2) in auto)

lemma conclude_raises:
  assumes "conclude E (report_result E dev) cid cmd x a = Some (Inl e, a')" and "is_exception e"
  shows "unreportable E dev cid cmd x e (ag_trace a')"
proof -
  obtain result ec em where x: "x = (result, ec, em)" by (cases x)
  show ?thesis
  proof (cases ec)
    case None
    with assms(1) x have "finish_command E (report_result E dev) cid Succeeded (placement_generation cmd) result None None
        (a\<lparr>ag_cache := map_option (cache_after cmd) (ag_cache a)\<rparr>) = Some (Inl e, a')"
      by (simp add: conclude_def update_placement_cache_def andThen_def)
    from finish_raises [OF this assms(2)] x None show ?thesis by (simp add: unreportable_def result_report_def)
  next
    case (Some code)
    with assms(1) x have "finish_command E (report_result E dev) cid Failed (placement_generation cmd) None (Some code) em a =
        Some (Inl e, a')" by (simp add: conclude_def)
    from finish_raises [OF this assms(2)] x Some show ?thesis by (simp add: unreportable_def result_report_def)
  qed
qed

text \<open>
  C12: What the journal says of a command is what its handler did, unless that could not be recorded or reported.
  After executing a command that has a handler: the disk refused to accept it or to mark it running, and the handler
  was not called; or there is a row for it, and:
  the handler was cancelled, which is raised, and the row is still \<open>running\<close>;
  or the handler returned a result and the row is \<open>succeeded\<close> with that result encoded;
  or it returned an error code and the row is \<open>failed\<close> with that code and message;
  or it raised and the row is \<open>failed\<close> with \<open>HANDLER_EXCEPTION\<close> and the text of what it raised;
  or it returned, and the disk refused this result or the HTTP call that reports exactly this result raised something
  else than an \<open>httpx.HTTPError\<close>: then the row is \<open>failed\<close> with \<open>HANDLER_EXCEPTION\<close> and the text of that exception;
  or the disk refused the last write, which is raised, and the row is still \<open>running\<close>.
\<close>

theorem execute_records_outcome:
  assumes "execute E H (report_result E dev) cid cmd a = Some (r, a')" and "H (operation cmd) = Some h"
  shows "(\<exists>e us. r = Inl e \<and> disk_failure E e \<and> ag_trace a' = ag_trace a @ map ReadUtc us) \<or>
     (\<exists>us x t' q. h cmd (ag_trace a @ map ReadUtc us) = Some (x, t') \<and> get_entry cid (ag_journal a') = Some q \<and>
       (if (\<exists>e. x = Inl e \<and> \<not> is_exception e)
        then (\<exists>e. x = Inl e \<and> r = Inl e) \<and> je_status q = Running
        else handled cmd x q \<or>
          (\<exists>y e. x = Inr y \<and> is_exception e \<and> handled cmd (Inl e) q \<and> unreportable E dev cid cmd y e (ag_trace a')) \<or>
          je_status q = Running \<and> (\<exists>e. r = Inl e \<and> disk_failure E e)))"
  using assms
proof (cases rule: execute_start)
  case (refused e us j)
  then show ?thesis by auto
next
  case (started us j now b)
  from running_row [OF started(2,3)] obtain qb where qb: "get_entry cid (ag_journal b) = Some qb" "je_status qb = Running"
    and known: "known cid b" by blast
  have us: "ag_trace b = ag_trace a @ map ReadUtc us" using started(3) by simp
  have handler: "\<exists>us x t' q. h cmd (ag_trace a @ map ReadUtc us) = Some (x, t') \<and> get_entry cid (ag_journal a') = Some q \<and> P x q"
    if "h cmd (ag_trace b) = Some (x, t)" "get_entry cid (ag_journal a') = Some q" "P x q" for x t q P
    using that us by metis
  show ?thesis
    using started(4) known
  proof (cases rule: main_reporter.handling_outcome)
    case (interrupted e t)
    with qb show ?thesis by (intro disjI2 handler) auto
  next
    case (finished x t q)
    then show ?thesis by (intro disjI2 handler [OF finished(1,3)]) auto
  next
    case (overwritten x t e b' c q)
    from conclude_raises [OF overwritten(3,2)] overwritten(4) have "unreportable E dev cid cmd x e (ag_trace a')"
      by (auto simp: unreportable_def)
    with overwritten show ?thesis by (intro disjI2 handler [OF overwritten(1,5)]) auto
  next
    case (unrecorded x t e)
    with qb show ?thesis by (intro disjI2 handler [OF unrecorded(1), of qb]) auto
  qed
qed

lemma total_delete_handler: "total_proc (delete_handler E cmd)"
  unfolding delete_handler_def
  by (intro total_andThen total_catching total_lift_sum) (auto split: sum.splits)

lemma demo_execute_returns:
  "\<exists>r a'. execute (demo_env v) (main_handlers (demo_env v) C dev) (report_result (demo_env v) dev) cid
     (demo_command COMMAND_OPERATION_DELETE cfg) a = Some (r, a')"
proof -
  have "total_proc (execute (demo_env v) (main_handlers (demo_env v) C dev) (report_result (demo_env v) dev) cid
     (demo_command COMMAND_OPERATION_DELETE cfg))"
    by (rule main_reporter.total_execute) (auto simp: total_delete_handler)
  from total_procD [OF this, of a] show ?thesis .
qed

theorem execute_records_outcome_witness:
  "\<exists>a' q. execute (demo_env JNull) (main_handlers (demo_env JNull) default_config ''dev-1'')
       (report_result (demo_env JNull) ''dev-1'') ''cmd-1''
       (demo_command COMMAND_OPERATION_DELETE demo_network_config) demo_agent = Some (Inr (), a') \<and>
     get_entry ''cmd-1'' (ag_journal a') = Some q"
proof -
  obtain a' where run: "execute (demo_env JNull) (main_handlers (demo_env JNull) default_config ''dev-1'')
       (report_result (demo_env JNull) ''dev-1'') ''cmd-1''
       (demo_command COMMAND_OPERATION_DELETE demo_network_config) demo_agent = Some (Inr (), a')"
    using demo_execute_delete by blast
  from execute_records_outcome [OF run, of "delete_handler (demo_env JNull)"] run show ?thesis by auto
qed

text \<open>A row whose result, if it has one, Cloud has acknowledged or will be sent again.\<close>

definition accounted :: "string \<Rightarrow> string \<Rightarrow> int \<Rightarrow> agent \<Rightarrow> bool" where
  "accounted dev cid gen a \<longleftrightarrow> journal_ok (ag_journal a) \<and>
     (\<exists>q. get_entry cid (ag_journal a) = Some q \<and> (terminal (je_status q) \<longrightarrow> \<not> je_reported_to_cloud q \<or>
       (\<exists>s res ec em. holds s res ec em q \<and> acknowledged dev cid s res ec em gen (ag_trace a))))"

lemma acknowledged_append: "acknowledged dev cid s res ec em gen t \<Longrightarrow> acknowledged dev cid s res ec em gen (t @ es)"
  by (auto simp: acknowledged_def)

lemma finish_accounted:
  assumes "proper_result s res ec em"
  shows "keeps (accounted dev cid gen) (finish_command E (report_result E dev) cid s gen res ec em)"
proof (rule keepsI)
  fix a :: agent and r a'
  assume run: "finish_command E (report_result E dev) cid s gen res ec em a = Some (r, a')" and a: "accounted dev cid gen a"
  have ok: "journal_ok (ag_journal a')"
    using keepsD [OF main_reporter.finish_ok run] a by (simp add: accounted_def)
  obtain q where q: "get_entry cid (ag_journal a) = Some q" using a by (auto simp: accounted_def)
  from run show "accounted dev cid gen a'"
  proof (cases rule: finish_cases)
    case (recorded now)
    let ?q = "set_result now s res ec em q"
    have row: "get_entry cid (record_result now cid s res ec em (ag_journal a)) = Some ?q" "\<not> je_reported_to_cloud ?q"
      "holds s res ec em ?q"
      using q by (simp_all add: get_entry_result) (simp_all add: set_result_def holds_def)
    from recorded show ?thesis
    proof (cases rule: report_result_cases)
      case unmarked
      with ok row show ?thesis by (simp add: accounted_def)
    next
      case (marked now')
      have "get_entry cid (ag_journal a') = Some (set_reported now' ?q)" using marked(1) row(1) by (simp add: get_entry_reported)
      moreover have "holds s res ec em (set_reported now' ?q)" using holds_same [OF row(3)] by simp
      ultimately show ?thesis using ok marked(6) unfolding accounted_def by blast
    qed
  next
    case (refused now e)
    have "acknowledged dev cid s res ec em gen (ag_trace a')" if "acknowledged dev cid s res ec em gen (ag_trace a)" for s res ec em
      using acknowledged_append [OF that] refused(3) by simp
    with a refused(3) show ?thesis unfolding accounted_def by (metis agent.select_convs(1) agent.update_convs(6) agent.surjective)
  qed
qed

lemma accounted_resent:
  assumes "accounted dev cid gen a" and "get_entry cid (ag_journal a) = Some q" and "terminal (je_status q)"
  shows "q \<in> set (unreported_terminal_entries (ag_journal a)) \<or>
     (\<exists>s res ec em. holds s res ec em q \<and> acknowledged dev cid s res ec em gen (ag_trace a))"
  using assms get_entry_key [OF assms(2)] by (auto simp: accounted_def jn.pending_iff)

lemma handled_terminal: "handled cmd x q \<Longrightarrow> (\<And>e. x = Inl e \<Longrightarrow> is_exception e) \<Longrightarrow> terminal (je_status q)"
  by (auto simp: handled_def holds_def split: sum.splits prod.splits option.splits)

text \<open>How executing a command that has no result ends: with a result that is accounted for, or without one.\<close>

lemma executed_result:
  assumes "execute E H (report_result E dev) cid cmd a = Some (r, a')" and "journal_ok (ag_journal a)"
    and "\<not> has_terminal_result cid (ag_journal a)" and "H (operation cmd) \<noteq> None \<or> has_seen cid (ag_journal a)"
  obtains (result) q where "get_entry cid (ag_journal a') = Some q" and "terminal (je_status q)"
      and "q \<in> set (unreported_terminal_entries (ag_journal a')) \<or> (\<exists>s res ec em. holds s res ec em q \<and>
         acknowledged dev cid s res ec em (placement_generation cmd) (ag_trace a'))"
  | (no_result) e where "\<not> has_terminal_result cid (ag_journal a')" and "r = Inl e"
      and "(\<exists>h us t q. \<not> is_exception e \<and> H (operation cmd) = Some h \<and> h cmd (ag_trace a @ map ReadUtc us) = Some (Inl e, t) \<and>
          get_entry cid (ag_journal a') = Some q \<and> je_status q = Running) \<or>
        disk_failure E e \<and> (get_entry cid (ag_journal a') = get_entry cid (ag_journal a) \<or>
          (\<exists>q. get_entry cid (ag_journal a') = Some q \<and> je_status q \<in> {Accepted, Running}))"
proof (cases "H (operation cmd)")
  case None
  obtain q where q: "get_entry cid (ag_journal a) = Some q" using assms(4) None by (auto simp: has_seen_get)
  have a: "accounted dev cid (placement_generation cmd) a"
    using assms(2,3) q by (auto simp: accounted_def has_terminal_get)
  have run: "finish_command E (report_result E dev) cid Failed (placement_generation cmd) None (Some ''NO_HANDLER'')
      (Some (no_handler_message E (operation cmd))) a = Some (r, a')"
    using assms(1) None by (simp add: execute_def)
  have "accounted dev cid (placement_generation cmd) a'"
    by (rule keepsD [OF finish_accounted run a]) (simp add: proper_result_def)
  note settled = accounted_resent [OF this]
  have "known cid a" using q by (auto simp: known_get)
  with run show thesis
  proof (cases rule: main_reporter.finish_holds)
    case (recorded q')
    with settled show thesis by (intro result [of q']) (auto simp: holds_def)
  next
    case (refused e)
    with assms(3) show thesis by (intro no_result [of e]) auto
  qed
next
  case (Some h)
  from assms(1) Some show thesis
  proof (cases rule: execute_start)
    case (refused e us j)
    have "get_entry cid j = get_entry cid (ag_journal a) \<or> (\<exists>q. get_entry cid j = Some q \<and> je_status q = Accepted)"
      using refused(3) by (auto simp: accepted_journal_def get_entry_accepted accepted_row_def split: if_splits)
    with refused assms(3) accepted_journal_terminal show thesis by (intro no_result [of e]) auto
  next
    case (started us j now b)
    from running_row [OF started(2,3)] obtain qb where qb: "get_entry cid (ag_journal b) = Some qb" "je_status qb = Running"
      and known: "known cid b" by blast
    have ok: "journal_ok (ag_journal b)"
      using started(3) accepted_journal_ok [OF started(1) assms(2)] by (simp add: journal_simps)
    have running: "\<not> has_terminal_result cid (ag_journal a')" "get_entry cid (ag_journal a') = Some qb" if "ag_journal a' = ag_journal b"
      using that qb has_terminal_get [OF ok] by simp_all
    have us: "ag_trace b = ag_trace a @ map ReadUtc us" using started(3) by simp
    have "accounted dev cid (placement_generation cmd) a'"
      by (rule handling_leads [where h = h, OF started(4) finish_accounted])
        (use ok qb in \<open>auto simp: accounted_def\<close>)
    note settled = accounted_resent [OF this]
    from started(4) known show thesis
    proof (cases rule: main_reporter.handling_outcome)
      case (interrupted e t)
      with Some qb(2) running us show thesis by (intro no_result [of e]) auto
    next
      case (finished x t q)
      with handled_terminal [OF finished(4)] settled show thesis by (intro result [of q]) auto
    next
      case (overwritten x t e b' c q)
      with handled_terminal [OF overwritten(6)] settled show thesis by (intro result [of q]) auto
    next
      case (unrecorded x t e)
      with qb(2) running show thesis by (intro no_result [of e]) auto
    qed
  qed
qed

text \<open>
  C1: No finished result is lost. When a command without a result has been executed, there are three ends. It has a
  result, and Cloud has answered 200 to exactly the result the journal row holds, with the command's generation, or
  the row is in the resend list of the next connection. Or its handler was called and cancelled: that is raised and
  the row is \<open>running\<close>. Or the disk refused to read or write the row: that is raised, and the command has no result;
  its row is as before, \<open>accepted\<close> or \<open>running\<close>.
\<close>

theorem acknowledged_or_resent:
  assumes "execute E H (report_result E dev) cid cmd a = Some (r, a')"
    and "journal_ok (ag_journal a)" and "\<not> has_terminal_result cid (ag_journal a)"
    and "H (operation cmd) \<noteq> None \<or> has_seen cid (ag_journal a)"
  shows "(\<exists>q. get_entry cid (ag_journal a') = Some q \<and> je_status q \<in> {Succeeded, Failed} \<and>
       (q \<in> set (unreported_terminal_entries (ag_journal a')) \<or> (\<exists>s res ec em. holds s res ec em q \<and>
          acknowledged dev cid s res ec em (placement_generation cmd) (ag_trace a')))) \<or>
     (\<exists>e h us t q. r = Inl e \<and> \<not> is_exception e \<and> H (operation cmd) = Some h \<and>
       h cmd (ag_trace a @ map ReadUtc us) = Some (Inl e, t) \<and>
       get_entry cid (ag_journal a') = Some q \<and> je_status q = Running) \<or>
     (\<exists>e. r = Inl e \<and> disk_failure E e \<and> \<not> has_terminal_result cid (ag_journal a') \<and>
       (get_entry cid (ag_journal a') = get_entry cid (ag_journal a) \<or>
        (\<exists>q. get_entry cid (ag_journal a') = Some q \<and> je_status q \<in> {Accepted, Running})))"
  using assms
proof (cases rule: executed_result)
  case (result q)
  then have "je_status q \<in> {Succeeded, Failed}" by (cases "je_status q") auto
  note parts = result(1) this result(3)
  show ?thesis by (rule disjI1, rule exI [of _ q]) (intro conjI parts)
next
  case (no_result e)
  from no_result(3) show ?thesis
  proof
    assume "\<exists>h us t q. \<not> is_exception e \<and> H (operation cmd) = Some h \<and> h cmd (ag_trace a @ map ReadUtc us) = Some (Inl e, t) \<and>
        get_entry cid (ag_journal a') = Some q \<and> je_status q = Running"
    with no_result(2) show ?thesis by - (rule disjI2 [OF disjI1], blast)
  next
    assume "disk_failure E e \<and> (get_entry cid (ag_journal a') = get_entry cid (ag_journal a) \<or>
        (\<exists>q. get_entry cid (ag_journal a') = Some q \<and> je_status q \<in> {Accepted, Running}))"
    with no_result(1,2) show ?thesis by (intro disjI2) (rule exI [of _ e], intro conjI; elim conjE; assumption)
  qed
qed

theorem acknowledged_or_resent_witness:
  "\<exists>a' q. execute (demo_env JNull) (main_handlers (demo_env JNull) default_config ''dev-1'')
       (report_result (demo_env JNull) ''dev-1'') ''cmd-1''
       (demo_command COMMAND_OPERATION_DELETE demo_network_config) demo_agent = Some (Inr (), a') \<and>
     get_entry ''cmd-1'' (ag_journal a') = Some q \<and> je_status q \<in> {Succeeded, Failed}"
proof -
  obtain a' where run: "execute (demo_env JNull) (main_handlers (demo_env JNull) default_config ''dev-1'')
       (report_result (demo_env JNull) ''dev-1'') ''cmd-1''
       (demo_command COMMAND_OPERATION_DELETE demo_network_config) demo_agent = Some (Inr (), a')"
    using demo_execute_delete by blast
  have "journal_ok (ag_journal demo_agent)" "\<not> has_terminal_result ''cmd-1'' (ag_journal demo_agent)"
    by (simp_all add: demo_agent_def has_terminal_result_def)
  from acknowledged_or_resent [OF run this] run show ?thesis by auto
qed

text \<open>A row that says \<open>succeeded\<close> after an execution is the result its handler returned.\<close>

lemma succeeded_row:
  assumes "execute E H (report_result E dev) cid cmd a = Some (r, a')" and "H (operation cmd) = Some h"
    and "\<not> has_terminal_result cid (ag_journal a)"
    and "get_entry cid (ag_journal a') = Some q" and "je_status q = Succeeded"
  obtains us result em t fs where "h cmd (ag_trace a @ map ReadUtc us) = Some (Inr (result, None, em), t)"
    and "je_result_json q = map_option json_dumps result" and "ag_trace a' = t @ fs"
    and "ag_cache a' = map_option (cache_after cmd) (ag_cache a)"
  using assms(1,2)
proof (cases rule: execute_start)
  case (refused e us j)
  have "has_terminal_result cid (ag_journal a')" using get_entry_terminal [OF assms(4)] assms(5) by simp
  with refused assms(3) accepted_journal_terminal show thesis by simp
next
  case (started us j now b)
  from running_row [OF started(2,3)] obtain qb where qb: "get_entry cid (ag_journal b) = Some qb" "je_status qb = Running"
    and known: "known cid b" by blast
  note run = started(4)
  from run known show thesis
  proof (cases rule: main_reporter.handling_outcome)
    case (finished x t q')
    then have "handled cmd x q" using assms(4) by simp
    with finished(2) assms(5) obtain result em where x: "x = Inr (result, None, em)"
      "je_result_json q = map_option json_dumps result"
      by (auto simp: handled_def holds_def split: sum.splits prod.splits option.splits)
    note follows = main_reporter.handling_follows [where h = h, OF run finished(1)]
    from follows(1) obtain fs where "ag_trace a' = t @ fs" by blast
    with x finished(1) started(3) follows(2) show thesis
      by (intro that [of us result em t fs]) (simp_all add: cache_result_def)
  qed (use qb assms(4,5) in \<open>auto simp: handled_def holds_def\<close>)
qed


lemma demo_execute_hibernate:
  "\<exists>r a' q. execute (demo_env saved_reply) (main_handlers (demo_env saved_reply) default_config ''dev-1'')
       (report_result (demo_env saved_reply) ''dev-1'') ''cmd-1''
       (demo_command COMMAND_OPERATION_HIBERNATE demo_network_config) demo_agent = Some (r, a') \<and>
     get_entry ''cmd-1'' (ag_journal a') = Some q \<and> je_status q = Succeeded"
proof -
  let ?cmd = "demo_command COMMAND_OPERATION_HIBERNATE demo_network_config"
  have "hibernate_handler (demo_env saved_reply) default_config ''dev-1'' ?cmd t =
      Some (Inr (done_with (saved_result (saved_outcome (JStr ''reg/app:1'')
        (JStr ''app-pod-1706565890'') (JStr ''ns'')))),
      t @ demo_saved_events ''dev-1'' (JStr ''ns'') saved_reply @ demo_deleted_events (JStr ''ns''))"
    if "demo_clock t = 0" for t
    using that by (simp add: hibernate_handler_def hibernate_with_save_def andThen_def catching_run
        demo_deleted_events_def)
  then show ?thesis
    by (simp add: execute_def accept_if_new_def read_journal_works demo_agent_def has_seen_def andThen_def write_journal_works
        tryExcept_def on_trace_run conclude_def done_with_def update_placement_cache_def finish_command_works
        report_result_def record_accepted_def get_entry_def record_running_def record_result_def
        mark_reported_def update_where_def accepted_row_def set_status_def set_result_def set_reported_def
        del: json_dumps.simps)
qed


text \<open>
  C28: The placement cache follows the handlers that succeeded. After a create or resume whose handler
  returned no error the container is cached under the command's device and generation (unless its id
  is empty), after a delete or hibernate it is gone, other containers are untouched, and a handler
  that failed or raised changes nothing. Nothing changes either when the disk refuses to accept the command or to
  mark it running, and the handler is not called.
\<close>

theorem placement_cache_follows:
  assumes "execute E H (report_result E dev) cid cmd a = Some (r, a')" and "H (operation cmd) = Some h"
    and "ag_cache a = Some c"
  shows "(\<exists>e us. r = Inl e \<and> disk_failure E e \<and> ag_trace a' = ag_trace a @ map ReadUtc us \<and> ag_cache a' = Some c) \<or>
     (\<exists>us x t' c'. h cmd (ag_trace a @ map ReadUtc us) = Some (x, t') \<and> ag_cache a' = Some c' \<and>
     (case x of
        Inr (result, None, em) \<Rightarrow> (\<forall>k. cache_get k c' =
          (if k = container_id cmd \<and> operation cmd \<in> {COMMAND_OPERATION_CREATE, COMMAND_OPERATION_RESUME} \<and> k \<noteq> []
           then Some (device_id cmd, placement_generation cmd)
           else if k = container_id cmd \<and> operation cmd \<in> {COMMAND_OPERATION_DELETE, COMMAND_OPERATION_HIBERNATE}
           then None
           else cache_get k c))
      | _ \<Rightarrow> c' = c))"
  using assms(1,2)
proof (cases rule: execute_start)
  case (refused e us j)
  with assms(3) show ?thesis by auto
next
  case (started us j now b)
  note run = started(4)
  have "known cid b" using running_row [OF started(2,3)] by blast
  with run obtain x t' where x: "h cmd (ag_trace b) = Some (x, t')"
    by (cases rule: main_reporter.handling_outcome) auto
  have cache: "ag_cache a' = cache_result cmd x (Some c)"
    using main_reporter.handling_follows(2) [where h = h, OF run x] started(3) assms(3) by simp
  have lookup: "cache_get k (cache_after cmd c) =
      (if k = container_id cmd \<and> operation cmd \<in> {COMMAND_OPERATION_CREATE, COMMAND_OPERATION_RESUME} \<and> k \<noteq> []
       then Some (device_id cmd, placement_generation cmd)
       else if k = container_id cmd \<and> operation cmd \<in> {COMMAND_OPERATION_DELETE, COMMAND_OPERATION_HIBERNATE}
       then None
       else cache_get k c)" for k
    by (cases "operation cmd")
      (auto simp: cache_after_def placing_operations_def unplacing_operations_def pc.get_put pc.get_del)
  have us: "ag_trace a @ map ReadUtc us = ag_trace b" using started(3) by simp
  show ?thesis
  proof (cases "\<exists>result em. x = Inr (result, None, em)")
    case True
    with cache lookup x show ?thesis
      by (intro disjI2 exI [of _ us] exI [of _ x] exI [of _ t'] exI [of _ "cache_after cmd c"])
         (auto simp: us cache_result_def)
  next
    case False
    with cache x show ?thesis
      by (intro disjI2 exI [of _ us] exI [of _ x] exI [of _ t'] exI [of _ c])
         (auto simp: us cache_result_def split: sum.splits option.splits prod.splits)
  qed
qed

theorem placement_cache_follows_witness:
  "\<exists>a' c'. execute (demo_env JNull) (main_handlers (demo_env JNull) default_config ''dev-1'')
       (report_result (demo_env JNull) ''dev-1'') ''cmd-1''
       (demo_command COMMAND_OPERATION_DELETE demo_network_config) demo_agent = Some (Inr (), a') \<and>
     ag_cache a' = Some c'"
proof -
  obtain a' where run: "execute (demo_env JNull) (main_handlers (demo_env JNull) default_config ''dev-1'')
       (report_result (demo_env JNull) ''dev-1'') ''cmd-1''
       (demo_command COMMAND_OPERATION_DELETE demo_network_config) demo_agent = Some (Inr (), a')"
    using demo_execute_delete by blast
  from placement_cache_follows [OF run, of "delete_handler (demo_env JNull)" cache_empty] run
  show ?thesis by (auto simp: demo_agent_def)
qed

text \<open>An exception of recording or reporting a success is handled like one of the handler.\<close>

lemma success_raised:
  assumes "tryExcept (andThen (on_trace (h cmd)) (conclude E report cid cmd)) (handler_raised E report cid cmd) b = Some (r, a')"
    and "h cmd (ag_trace b) = Some (Inr (result, None, None), t)" and "is_exception e"
    and "finish_command E report cid Succeeded (placement_generation cmd) result None None
      (b\<lparr>ag_trace := t, ag_cache := map_option (cache_after cmd) (ag_cache b)\<rparr>) = Some (Inl e, b')"
  shows "finish_command E report cid Failed (placement_generation cmd) None (Some ''HANDLER_EXCEPTION'')
      (Some (take 1000 (exc_str e))) b' = Some (r, a')"
  using assms
  by (simp add: tryExcept_def andThen_def on_trace_run conclude_def update_placement_cache_def handler_raised_def)

text \<open>
  C38: Reporting can overwrite a success. When Cloud's HTTP client raises anything that is an \<open>Exception\<close>
  but not an \<open>httpx.HTTPError\<close>, the result of a handler that succeeded is first recorded as
  \<open>succeeded\<close> and then overwritten: the row ends as \<open>failed\<close> with \<open>HANDLER_EXCEPTION\<close> and no result,
  although the placement cache has recorded the success, and the exception leaves \<open>execute\<close>.
\<close>

theorem success_overwritten:
  assumes "execute E H (report_result E dev) cid cmd a = Some (r, a')" and "H (operation cmd) = Some h"
    and "\<And>t. \<exists>t'. h cmd t = Some (Inr (result, None, None), t')" and "disk_works E"
    and "\<And>t q. http E t q = Inl e" and "is_exception e" and "\<not> is_http_error e"
  shows "r = Inl e \<and> ag_cache a' = map_option (cache_after cmd) (ag_cache a) \<and>
     (\<exists>q. get_entry cid (ag_journal a') = Some q \<and> je_status q = Failed \<and>
        je_error_code q = Some ''HANDLER_EXCEPTION'' \<and> je_result_json q = None)"
  using assms(1,2)
proof (cases rule: execute_start)
  case (refused e us j)
  with assms(4) disk_works_never show ?thesis by blast
next
  case (started us j now b)
  have raises: "\<exists>t'. report_command_result E dev cid st res ec em gen t = Some (Inl e, t')" for st res ec em gen t
    using assms(5-7) by (simp add: report_command_result_def andThen_def catching_run call_with_retry_def
        call_http_def tryExcept_def Let_def transport_retryable_def eval_nat_numeral)
  have report: "\<exists>t'. report_result E dev cid s gen res ec em b = Some (Inl e, b\<lparr>ag_trace := t'\<rparr>)"
    for s gen res ec em b
  proof -
    obtain t' where "report_command_result E dev cid (status_text s) res ec em gen (ag_trace b) = Some (Inl e, t')"
      using raises by blast
    then show ?thesis by (intro exI [of _ t']) (simp add: report_result_def andThen_def on_trace_run)
  qed
  have finish: "\<exists>b'. finish_command E (report_result E dev) cid s gen res ec em c = Some (Inl e, b')" for s gen res ec em c
    using report by (fastforce simp: finish_command_works [OF assms(4)])
  obtain t' where t': "h cmd (ag_trace b) = Some (Inr (result, None, None), t')"
    using assms(3) by blast
  let ?c = "b\<lparr>ag_trace := t', ag_cache := map_option (cache_after cmd) (ag_cache b)\<rparr>"
  obtain b' where b': "finish_command E (report_result E dev) cid Succeeded (placement_generation cmd) result None None ?c =
      Some (Inl e, b')" using finish by blast
  note fin = success_raised [where h = h, OF started(4) t' assms(6) b']
  have "known cid b" using running_row [OF started(2,3)] by blast
  then have "known cid b'" using keepsD [OF main_reporter.finish_known b'] by (simp add: known_def)
  with fin have "\<exists>q. get_entry cid (ag_journal a') = Some q \<and>
      holds Failed None (Some ''HANDLER_EXCEPTION'') (Some (take 1000 (exc_str e))) q"
    by (cases rule: main_reporter.finish_holds) (use disk_works_never [OF assms(4)] in auto)
  moreover obtain b2 where "finish_command E (report_result E dev) cid Failed (placement_generation cmd) None
      (Some ''HANDLER_EXCEPTION'') (Some (take 1000 (exc_str e))) b' = Some (Inl e, b2)" using finish by blast
  with fin have "r = Inl e" by simp
  moreover have "ag_cache a' = map_option (cache_after cmd) (ag_cache a)"
    using main_reporter.handling_follows(2) [where h = h, OF started(4) t'] started(3) by (simp add: cache_result_def)
  ultimately show ?thesis by (auto simp: holds_def)
qed

lemma demo_delete_any:
  "\<exists>t'. delete_handler (demo_env v) (demo_command COMMAND_OPERATION_DELETE demo_network_config) t =
    Some (Inr (Some (JObj [(''container_id'', JStr ''c-1''), (''status'', JStr ''Deleted'')]), None, None), t')"
  by (simp add: delete_handler_def andThen_def catching_run done_with_def)

lemma demo_closed_execute:
  assumes "E = with_http (\<lambda>_. Inl (OtherException ''client closed'')) (demo_env JNull)"
  shows "\<exists>r a'. execute E (main_handlers (demo_env JNull) default_config ''dev-1'') (report_result E ''dev-1'')
     ''cmd-1'' (demo_command COMMAND_OPERATION_DELETE demo_network_config) demo_agent = Some (r, a')"
proof -
  have "total_proc (execute E (main_handlers (demo_env JNull) default_config ''dev-1'') (report_result E ''dev-1'')
     ''cmd-1'' (demo_command COMMAND_OPERATION_DELETE demo_network_config))"
    by (rule main_reporter.total_execute) (auto simp: total_delete_handler)
  from total_procD [OF this, of demo_agent] show ?thesis .
qed

theorem success_overwritten_witness:
  "\<exists>E r a' q. execute E (main_handlers (demo_env JNull) default_config ''dev-1'') (report_result E ''dev-1'')
     ''cmd-1'' (demo_command COMMAND_OPERATION_DELETE demo_network_config) demo_agent = Some (r, a') \<and>
     get_entry ''cmd-1'' (ag_journal a') = Some q \<and> je_error_code q = Some ''HANDLER_EXCEPTION''"
proof -
  define E where "E = with_http (\<lambda>_. Inl (OtherException ''client closed'')) (demo_env JNull)"
  obtain r a' where run: "execute E (main_handlers (demo_env JNull) default_config ''dev-1'')
     (report_result E ''dev-1'') ''cmd-1''
     (demo_command COMMAND_OPERATION_DELETE demo_network_config) demo_agent = Some (r, a')"
    using demo_closed_execute [OF E_def] by blast
  have works: "disk_works E" by (simp add: E_def with_http_def disk_works_def)
  have "http E t q = Inl (OtherException ''client closed'')" for t q
    by (simp add: E_def with_http_def)
  from success_overwritten [OF run, of "delete_handler (demo_env JNull)", OF _ demo_delete_any works this] run
  show ?thesis by auto
qed

text \<open>
  A command whose operation has no handler, executed without having been accepted, leaves no trace in
  the journal: the result \<open>NO_HANDLER\<close> is reported, but the journal still has no row for it, so it would
  neither be resent nor recognised when it is delivered again.
\<close>

lemma no_handler_not_durable:
  assumes "execute E H (report_result E dev) cid cmd a = Some (r, a')"
    and "H (operation cmd) = None" and "\<not> has_seen cid (ag_journal a)"
  shows "ag_journal a' = ag_journal a \<and> \<not> has_seen cid (ag_journal a')"
proof -
  have none: "update_where cid f (ag_journal a) = ag_journal a" for f
    using assms(3) by (auto simp: update_where_def has_seen_def list_ex_iff intro!: map_idI)
  from assms(1,2) have "finish_command E (report_result E dev) cid Failed (placement_generation cmd) None
      (Some ''NO_HANDLER'') (Some (no_handler_message E (operation cmd))) a = Some (r, a')" by (simp add: execute_def)
  then have "ag_journal a' = ag_journal a"
  proof (cases rule: finish_cases)
    case (recorded now)
    then show ?thesis
      by (cases rule: report_result_cases) (simp_all add: mark_reported_def record_result_def none)
  qed simp
  with assms(3) show ?thesis by simp
qed

end
