(* ===== verification/Backoff.thy ===== *)
theory Backoff
  imports Demo_World
begin

text \<open>
  \<open>device_agent/control/backoff.py\<close>: the reconnect delay of an attempt, and its bounds under the
  default schedule.
\<close>

text \<open>The base delay: \<open>schedule[min(attempt, len(schedule) - 1)]\<close>.\<close>

definition backoff_base :: "config \<Rightarrow> nat \<Rightarrow> rat" where
  "backoff_base C attempt = reconnect_schedule C ! min attempt (length (reconnect_schedule C) - 1)"

definition backoff_seconds :: "env \<Rightarrow> config \<Rightarrow> nat \<Rightarrow> (trace, rat) proc" where
  "backoff_seconds E C attempt =
     (if reconnect_schedule C = [] then raise (OtherException ''list index out of range'')
      else (let base = backoff_base C attempt;
                jitter_range = base * reconnect_jitter_fraction C
            in andThen (draw_uniform E (- jitter_range) jitter_range) (\<lambda>u. ret (max 0 (base + u)))))"

lemma total_backoff [intro, simp]: "total_proc (backoff_seconds E C n)"
  by (auto simp: backoff_seconds_def Let_def)

lemma schedule_default [simp]: "reconnect_schedule default_config = [1, 2, 4, 8, 15, 30]"
  by (simp add: default_config_def)

lemma jitter_default [simp]: "reconnect_jitter_fraction default_config = 1 / 5"
  by (simp add: default_config_def)

lemma backoff_run:
  assumes "reconnect_schedule C \<noteq> []"
  shows "backoff_seconds E C n t =
    (let base = backoff_base C n; j = base * reconnect_jitter_fraction C; u = random_draw E t
     in Some (Inr (max 0 (base + uniform u (- j) j)), t @ [Drew u]))"
  using assms by (simp add: backoff_seconds_def Let_def andThen_def draw_uniform_def)

text \<open>The default schedule, attempt by attempt.\<close>

lemma backoff_base_default:
  "backoff_base default_config n =
     (if n = 0 then 1 else if n = 1 then 2 else if n = 2 then 4 else if n = 3 then 8
      else if n = 4 then 15 else 30)"
proof -
  consider "n = 0" | "n = 1" | "n = 2" | "n = 3" | "n = 4" | "5 \<le> n" by linarith
  then show ?thesis
    by cases (simp_all add: backoff_base_def min_absorb2 eval_nat_numeral)
qed

lemma backoff_base_mono: "m \<le> n \<Longrightarrow> backoff_base default_config m \<le> backoff_base default_config n"
  by (auto simp: backoff_base_default)

lemma backoff_base_pos: "1 \<le> backoff_base default_config n"
  by (simp add: backoff_base_default)

lemma backoff_in_fraction:
  assumes "fair_random E" and "backoff_seconds E default_config n t = Some (r, t')"
  shows "\<exists>d. r = Inr d \<and> backoff_base default_config n * (4 / 5) \<le> d \<and>
      d \<le> backoff_base default_config n * (6 / 5)"
proof -
  let ?b = "backoff_base default_config n" and ?u = "random_draw E t"
  have "unit_draw ?u" using assms(1) by (simp add: fair_random_def)
  from rng.jitter_range [OF this, of ?b "1 / 5"]
  have "?b * (1 - 1 / 5) \<le> ?b + uniform ?u (- (?b * (1 / 5))) (?b * (1 / 5))"
    "?b + uniform ?u (- (?b * (1 / 5))) (?b * (1 / 5)) \<le> ?b * (1 + 1 / 5)"
    using backoff_base_pos [of n] by simp_all
  moreover have "r = Inr (max 0 (?b + uniform ?u (- (?b * (1 / 5))) (?b * (1 / 5))))"
    using assms(2) by (simp add: backoff_run Let_def)
  ultimately show ?thesis using backoff_base_pos [of n] by simp
qed

text \<open>
  C39: Reconnect delays stay near the schedule. Under the default configuration the delay after attempt \<open>n\<close>
  is within a fifth of the \<open>n\<close>-th entry of 1, 2, 4, 8, 15, 30 (the last one from then on), so it is never
  below 0.8 nor above 36 seconds, and it draws from the random source once.
\<close>

theorem reconnect_delay_bounds:
  assumes "fair_random E" and "backoff_seconds E default_config n t = Some (r, t')"
  shows "\<exists>d. r = Inr d \<and> (let base = [1, 2, 4, 8, 15, 30] ! min n 5 in
       base * (4 / 5) \<le> d \<and> d \<le> base * (6 / 5)) \<and> 4 / 5 \<le> d \<and> d \<le> 36 \<and>
     t' = t @ [Drew (random_draw E t)]"
proof -
  obtain d where d: "r = Inr d" "backoff_base default_config n * (4 / 5) \<le> d"
      "d \<le> backoff_base default_config n * (6 / 5)"
    using backoff_in_fraction [OF assms] by blast
  have "backoff_base default_config n = [1, 2, 4, 8, 15, 30] ! min n 5"
    by (simp add: backoff_base_def) (simp add: eval_nat_numeral)
  moreover have "backoff_base default_config n \<le> 30" by (simp add: backoff_base_default)
  moreover have "t' = t @ [Drew (random_draw E t)]"
    using assms(2) by (simp add: backoff_run Let_def)
  ultimately show ?thesis using d backoff_base_pos [of n] by (auto simp: Let_def)
qed

theorem reconnect_delay_bounds_witness:
  "\<exists>d. backoff_seconds (demo_env JNull) default_config 2 [] = Some (Inr d, [Drew (1 / 2)]) \<and> 4 / 5 \<le> d \<and> d \<le> 36"
proof -
  obtain r t' where run: "backoff_seconds (demo_env JNull) default_config 2 [] = Some (r, t')"
    by (simp add: backoff_run Let_def)
  from reconnect_delay_bounds [OF demo_fair run] run show ?thesis by auto
qed

end
