(* ===== verification/Configuration.thy ===== *)
theory Configuration
  imports World
begin

text \<open>
  \<open>device_agent/config.py\<close>: the module reads environment variables, each with a default, as text, as an
  \<open>int\<close>, as a \<open>float\<close> or as a flag. Importing it fails with the \<open>ValueError\<close> of the first number that
  cannot be read. The addresses built from the settings are here too: the control channel of
  \<open>grpc_client.py\<close>, the channel of \<open>container_maker_client.py\<close> and the port of the local API.

  A \<open>float\<close> has its exact decimal value, without the rounding to 53 bits and without overflow.
\<close>

section \<open>Numbers in text\<close>

text \<open>White space \<open>int\<close> and \<open>float\<close> skip; unlike \<open>strip\<close> they keep the separators 0x1C to 0x1F.\<close>

definition number_space :: "char \<Rightarrow> bool" where
  "number_space c \<longleftrightarrow> (let n = (of_char c :: nat) in (9 \<le> n \<and> n \<le> 13) \<or> n = 32 \<or> n = 133 \<or> n = 160)"

definition number_strip :: "string \<Rightarrow> string" where
  "number_strip s = rev (dropWhile number_space (rev (dropWhile number_space s)))"

text \<open>Underscores are allowed between digits only; the flag tells whether a digit came before.\<close>

fun drop_underscores :: "bool \<Rightarrow> string \<Rightarrow> string option" where
  "drop_underscores digit [] = Some []"
| "drop_underscores digit (c # cs) =
     (if c = CHR ''_''
      then if digit \<and> cs \<noteq> [] \<and> is_ascii_digit (hd cs) then drop_underscores False cs else None
      else map_option (Cons c) (drop_underscores (is_ascii_digit c) cs))"

fun split_sign :: "string \<Rightarrow> bool \<times> string" where
  "split_sign [] = (False, [])"
| "split_sign (c # cs) =
     (if c = CHR ''-'' then (True, cs) else if c = CHR ''+'' then (False, cs) else (False, c # cs))"

definition signed :: "bool \<Rightarrow> 'a::uminus \<Rightarrow> 'a" where
  "signed neg x = (if neg then - x else x)"

text \<open>\<open>int(s)\<close>, with the limit of 4300 digits.\<close>

definition int_of_str :: "string \<Rightarrow> py_exc + int" where
  "int_of_str s =
     (let bad = Inl (ValueError (''invalid literal for int() with base 10: '' @ repr_str s)) in
      case drop_underscores False (number_strip s) of
        None \<Rightarrow> bad
      | Some t \<Rightarrow>
         (let (neg, ds) = split_sign t in
          if ds = [] \<or> \<not> list_all is_ascii_digit ds then bad
          else if 4300 < length ds
          then Inl (ValueError ''Exceeds the limit (4300 digits) for integer string conversion'')
          else Inr (signed neg (int (read_nat ds)))))"

text \<open>\<open>float(s)\<close>.\<close>

datatype py_float = Finite rat | Infinite bool | NotANumber

definition split_fraction :: "string \<Rightarrow> string \<times> string" where
  "split_fraction s = (case s of [] \<Rightarrow> ([], []) | c # cs \<Rightarrow> if c = CHR ''.'' then split_digits cs else ([], s))"

text \<open>The exponent \<open>e\<close> of a text \<open>(e|E)[+-]?[0-9]+\<close>, zero when there is none.\<close>

definition exponent_value :: "string \<Rightarrow> int" where
  "exponent_value ex = (let (neg, ds) = split_sign (drop 1 ex) in signed neg (int (read_nat ds)))"

definition float_of_str :: "string \<Rightarrow> py_exc + py_float" where
  "float_of_str s =
     (let bad = Inl (ValueError (''could not convert string to float: '' @ repr_str s)) in
      case drop_underscores False (number_strip s) of
        None \<Rightarrow> bad
      | Some t \<Rightarrow>
         (let (neg, u) = split_sign t in
          if py_lower u \<in> {''inf'', ''infinity''} then Inr (Infinite neg)
          else if py_lower u = ''nan'' then Inr NotANumber
          else
            (let (ds, r1) = split_digits u; (fs, r2) = split_fraction r1; (ex, r3) = scan_exp r2 in
             if ds @ fs = [] \<or> r3 \<noteq> [] then bad
             else Inr (Finite (signed neg
               (of_nat (read_nat (ds @ fs)) * 10 powi (exponent_value ex - int (length fs))))))))"

text \<open>\<open>os.getenv(name, "...").lower() == "true"\<close>.\<close>

definition flag_of_str :: "string \<Rightarrow> bool" where
  "flag_of_str s \<longleftrightarrow> py_lower s = ''true''"

section \<open>The settings\<close>

record settings =
  cloud_control_host :: string
  cloud_control_port :: int
  cloud_control_tls :: bool
  device_id_file :: string
  device_token_file :: string
  agent_version_setting :: string
  protocol_version_setting :: string
  startup_id_file :: string
  backoff_schedule :: "rat list"
  jitter_fraction :: py_float
  heartbeat_interval :: int
  command_journal_path :: string
  container_maker_host :: string
  container_maker_port :: int
  certs_secret_name :: string
  k8s_namespace :: string
  local_api_port :: int
  reconcile_on_startup :: bool
  poll_interval :: py_float
  poll_timeout :: py_float

type_synonym environ = "string \<Rightarrow> string option"

definition getenv :: "environ \<Rightarrow> string \<Rightarrow> string \<Rightarrow> string" where
  "getenv V name d = (case V name of None \<Rightarrow> d | Some s \<Rightarrow> s)"

text \<open>The statements of the module, in their order.\<close>

definition config_module :: "environ \<Rightarrow> py_exc + settings" where
  "config_module V =
     sum_bind (int_of_str (getenv V ''CLOUD_CONTROL_PORT'' ''443'')) (\<lambda>control_port.
     sum_bind (float_of_str (getenv V ''RECONNECT_JITTER_FRACTION'' ''0.2'')) (\<lambda>jitter.
     sum_bind (int_of_str (getenv V ''HEARTBEAT_INTERVAL_SECONDS'' ''20'')) (\<lambda>beat.
     sum_bind (int_of_str (getenv V ''CONTAINER_MAKER_PORT'' ''50052'')) (\<lambda>maker_port.
     sum_bind (int_of_str (getenv V ''LOCAL_API_PORT'' ''50061'')) (\<lambda>api_port.
     sum_bind (float_of_str (getenv V ''SNAPSHOT_POLL_INTERVAL_SECONDS'' ''5'')) (\<lambda>interval.
     sum_bind (float_of_str (getenv V ''SNAPSHOT_POLL_TIMEOUT_SECONDS'' ''600'')) (\<lambda>timeout.
     Inr \<lparr>cloud_control_host = getenv V ''CLOUD_CONTROL_HOST'' ''app.browseterm.puhtaeto.com'',
       cloud_control_port = control_port,
       cloud_control_tls = flag_of_str (getenv V ''CLOUD_CONTROL_TLS'' ''true''),
       device_id_file = getenv V ''DEVICE_ID_FILE'' ''/etc/browseterm/device/device_id'',
       device_token_file = getenv V ''DEVICE_TOKEN_FILE'' ''/etc/browseterm/device/token'',
       agent_version_setting = getenv V ''AGENT_VERSION'' ''0.1.0'',
       protocol_version_setting = getenv V ''PROTOCOL_VERSION'' ''v1'',
       startup_id_file = getenv V ''STARTUP_ID_FILE'' ''/etc/browseterm/device/startup_id'',
       backoff_schedule = [1, 2, 4, 8, 15, 30],
       jitter_fraction = jitter,
       heartbeat_interval = beat,
       command_journal_path = getenv V ''COMMAND_JOURNAL_PATH'' ''/var/lib/browseterm/device-agent/journal.sqlite3'',
       container_maker_host = getenv V ''CONTAINER_MAKER_HOST'' ''container-maker-service'',
       container_maker_port = maker_port,
       certs_secret_name = getenv V ''CONTAINER_MAKER_CERTS_SECRET_NAME'' ''container-maker-certs'',
       k8s_namespace = getenv V ''NAMESPACE'' ''browseterm'',
       local_api_port = api_port,
       reconcile_on_startup = flag_of_str (getenv V ''RECONCILE_ON_STARTUP'' ''true''),
       poll_interval = interval,
       poll_timeout = timeout\<rparr>)))))))"

text \<open>The settings the running agent computes with; its delays are finite numbers.\<close>

definition agent_config :: "settings \<Rightarrow> config option" where
  "agent_config F = (case (jitter_fraction F, poll_interval F, poll_timeout F) of
       (Finite jitter, Finite interval, Finite timeout) \<Rightarrow> Some \<lparr>
         agent_version = agent_version_setting F, protocol_version = protocol_version_setting F,
         reconnect_schedule = backoff_schedule F, reconnect_jitter_fraction = jitter,
         heartbeat_interval_seconds = of_int (heartbeat_interval F),
         snapshot_poll_interval_seconds = interval, snapshot_poll_timeout_seconds = timeout\<rparr>
     | _ \<Rightarrow> None)"

section \<open>Addresses\<close>

text \<open>\<open>f"{host}:{port}"\<close>.\<close>

definition host_port :: "string \<Rightarrow> int \<Rightarrow> string" where
  "host_port host port = host @ '':'' @ show_int port"

definition default_channel_factory :: "settings \<Rightarrow> channel" where
  "default_channel_factory F =
     (let t = host_port (cloud_control_host F) (cloud_control_port F) in
      if cloud_control_tls F then SecureChannel t else InsecureChannel t)"

text \<open>The credential of the control stream and of every call to Cloud.\<close>

definition bearer :: "string \<Rightarrow> string" where
  "bearer token = ''Bearer '' @ token"

section \<open>The defaults\<close>

definition default_settings :: settings where
  "default_settings = \<lparr>cloud_control_host = ''app.browseterm.puhtaeto.com'', cloud_control_port = 443,
     cloud_control_tls = True, device_id_file = ''/etc/browseterm/device/device_id'',
     device_token_file = ''/etc/browseterm/device/token'', agent_version_setting = ''0.1.0'',
     protocol_version_setting = ''v1'', startup_id_file = ''/etc/browseterm/device/startup_id'',
     backoff_schedule = [1, 2, 4, 8, 15, 30], jitter_fraction = Finite (1 / 5), heartbeat_interval = 20,
     command_journal_path = ''/var/lib/browseterm/device-agent/journal.sqlite3'',
     container_maker_host = ''container-maker-service'', container_maker_port = 50052,
     certs_secret_name = ''container-maker-certs'', k8s_namespace = ''browseterm'', local_api_port = 50061,
     reconcile_on_startup = True, poll_interval = Finite 5, poll_timeout = Finite 600\<rparr>"

lemmas number_text = int_of_str_def float_of_str_def number_strip_def number_space_def is_ascii_digit_def
  split_digits_def split_fraction_def scan_exp_def exponent_value_def signed_def read_nat_def py_lower_def
  py_lower_char_def Let_def

lemma default_ints:
  "int_of_str ''443'' = Inr 443" "int_of_str ''20'' = Inr 20" "int_of_str ''50052'' = Inr 50052"
  "int_of_str ''50061'' = Inr 50061"
  by (simp_all add: number_text)

lemma default_floats:
  "float_of_str ''0.2'' = Inr (Finite (1 / 5))" "float_of_str ''5'' = Inr (Finite 5)"
  "float_of_str ''600'' = Inr (Finite 600)"
  by (simp_all add: number_text power_int_def)

lemma default_flag: "flag_of_str ''true''"
  by (simp add: flag_of_str_def py_lower_def py_lower_char_def)

text \<open>Without any variable the module holds the defaults, and the agent computes with \<open>default_config\<close>.\<close>

lemma default_environment:
  "config_module (\<lambda>_. None) = Inr default_settings" "agent_config default_settings = Some default_config"
  by (simp_all add: config_module_def getenv_def default_ints default_floats default_flag default_settings_def
      agent_config_def default_config_def)


section \<open>Numbers that were printed\<close>

lemma drop_underscores_plain: "CHR ''_'' \<notin> set s \<Longrightarrow> drop_underscores digit s = Some s"
  by (induction digit s rule: drop_underscores.induct) auto

text \<open>Text of digits, signs and letters has no white space to strip.\<close>

definition number_char :: "char \<Rightarrow> bool" where
  "number_char c \<longleftrightarrow> is_ascii_digit c \<or> c \<in> set ''+-.eE''"

lemma number_char_plain: "number_char c \<Longrightarrow> \<not> number_space c \<and> c \<noteq> CHR ''_''"
  by (auto simp: number_char_def number_space_def is_ascii_digit_def Let_def)

lemma dropWhile_none: "list_all (\<lambda>c. \<not> P c) s \<Longrightarrow> dropWhile P s = s"
  by (cases s) simp_all

lemma plain_number:
  assumes "list_all number_char s"
  shows "drop_underscores False (number_strip s) = Some s"
proof -
  have plain: "list_all (\<lambda>c. \<not> number_space c) s" "CHR ''_'' \<notin> set s"
    using assms number_char_plain by (auto simp: list_all_iff)
  then have "list_all (\<lambda>c. \<not> number_space c) (rev s)" by simp
  with plain show ?thesis by (simp add: number_strip_def dropWhile_none drop_underscores_plain)
qed

lemma show_nat_chars: "list_all number_char (show_nat n)"
  using show_nat_digits [of n] by (auto simp: list_all_iff number_char_def)

lemma show_int_chars: "list_all number_char (show_int i)"
  using show_nat_chars by (simp add: show_int_def number_char_def)

lemma split_sign_digits:
  assumes "list_all is_ascii_digit ds" and "ds \<noteq> []"
  shows "split_sign (ds @ r) = (False, ds @ r)"
  using assms by (cases ds) (auto simp: is_ascii_digit_def)

lemma split_sign_show: "split_sign (show_int i @ r) = (i < 0, show_nat (nat \<bar>i\<bar>) @ r)"
proof (cases "i < 0")
  case False
  with split_sign_digits [OF show_nat_digits show_nat_not_Nil] show ?thesis by (simp add: show_int_def)
qed (simp add: show_int_def)

lemma signed_abs: "signed (i < 0) \<bar>i\<bar> = (i :: int)"
  by (simp add: signed_def)

text \<open>\<open>int(str(i))\<close> is \<open>i\<close>, up to the limit on digits.\<close>

lemma int_of_str_show:
  assumes "length (show_nat (nat \<bar>i\<bar>)) \<le> 4300"
  shows "int_of_str (show_int i) = Inr i"
  using split_sign_show [of i "[]"] assms
  by (simp add: int_of_str_def plain_number [OF show_int_chars] show_nat_digits signed_abs)

lemma split_digits_stop:
  assumes "list_all is_ascii_digit ds" and "r = [] \<or> \<not> is_ascii_digit (hd r)"
  shows "split_digits (ds @ r) = (ds, r)"
proof -
  have "takeWhile is_ascii_digit (ds @ r) = ds @ takeWhile is_ascii_digit r"
    "dropWhile is_ascii_digit (ds @ r) = dropWhile is_ascii_digit r"
    using assms(1) by (simp_all add: list_all_iff takeWhile_append2 dropWhile_append2)
  with assms(2) show ?thesis by (cases r) (auto simp: split_digits_def)
qed

text \<open>The decimal number \<open>i / 10^k\<close>, written with an exponent, is read exactly.\<close>

lemma float_of_str_decimal:
  "float_of_str (show_int i @ ''e-'' @ show_nat k) = Inr (Finite (of_int i / 10 ^ k))"
proof -
  let ?ds = "show_nat (nat \<bar>i\<bar>)" and ?r = "CHR ''e'' # CHR ''-'' # show_nat k"
  have chars: "list_all number_char (show_int i @ ?r)"
    using show_int_chars show_nat_chars by (simp add: number_char_def)
  obtain c cs where c: "?ds = c # cs" "is_ascii_digit c" using show_nat_head by blast
  have low: "py_lower (?ds @ ?r) \<noteq> CHR ''i'' # w" "py_lower (?ds @ ?r) \<noteq> CHR ''n'' # w" for w
    using c by (auto simp: py_lower_def py_lower_char_def is_ascii_digit_def Let_def)
  have digits: "split_digits (?ds @ ?r) = (?ds, ?r)"
    by (rule split_digits_stop [OF show_nat_digits]) (simp add: is_ascii_digit_def)
  have exp: "scan_exp ?r = (?r, [])"
    using split_digits_stop [OF show_nat_digits, of "[]" k] by (simp add: scan_exp_def)
  have frac: "split_fraction ?r = ([], ?r)" by (simp add: split_fraction_def)
  have ex: "exponent_value ?r = - int k" by (simp add: exponent_value_def signed_def)
  have "signed (i < 0) (of_nat (nat \<bar>i\<bar>)) = (of_int i :: rat)"
    by (cases "i < 0") (simp_all add: signed_def)
  then have "signed (i < 0) (of_nat (nat \<bar>i\<bar>) * 10 powi - int k) = (of_int i / 10 ^ k :: rat)"
    by (auto simp: signed_def power_int_minus divide_inverse)
  then show ?thesis
    using split_sign_show [of i ?r] low digits exp frac ex
    by (simp add: float_of_str_def plain_number [OF chars] Let_def)
qed

text \<open>A port is read back whatever it is; a module that fails to load fails with a \<open>ValueError\<close>.\<close>

lemma show_nat_length: "n < 10 ^ Suc k \<Longrightarrow> length (show_nat n) \<le> Suc k"
proof (induction k arbitrary: n)
  case 0
  then show ?case by (simp add: show_nat.simps [of n])
next
  case (Suc k)
  show ?case
  proof (cases "n < 10")
    case False
    have "n div 10 < 10 ^ Suc k" using Suc.prems by (simp add: less_mult_imp_div_less mult.commute)
    from Suc.IH [OF this] False show ?thesis by (simp add: show_nat.simps [of n])
  qed (simp add: show_nat.simps [of n])
qed

lemma port_of_str: "0 \<le> i \<Longrightarrow> i < 65536 \<Longrightarrow> int_of_str (show_int i) = Inr i"
  using show_nat_length [of "nat \<bar>i\<bar>" 4] by (intro int_of_str_show) (simp add: nat_less_iff)

lemma int_of_str_raises: "int_of_str s = Inl e \<Longrightarrow> is_value_error e"
  by (auto simp: int_of_str_def Let_def split: option.splits prod.splits if_splits)

lemma float_of_str_raises: "float_of_str s = Inl e \<Longrightarrow> is_value_error e"
  by (auto simp: float_of_str_def Let_def split: option.splits prod.splits if_splits)

lemma config_module_raises: "config_module V = Inl e \<Longrightarrow> is_value_error e"
  by (auto simp: config_module_def sum_bind_Inl_iff dest: int_of_str_raises float_of_str_raises)

end
