(* ===== verification/Control_Stream.thy ===== *)
theory Control_Stream
  imports Agent_State Backoff Configuration
begin

text \<open>
  \<open>device_agent/control/grpc_client.py\<close>: \<open>ConnectionManager\<close>. Building and queueing messages,
  \<open>_handle_inbound\<close> for one message of Cloud, and \<open>run_forever\<close> over an arbitrary \<open>_connect_once\<close>.
  The interleaving of the outbound generator with inbound messages on one connection is the step
  relation of \<open>Stream_Steps\<close>.
\<close>

section \<open>Messages\<close>

text \<open>The constructor arguments of \<open>ConnectionManager\<close> that go into the Hello or open the connection.\<close>

record manager =
  mg_device_id :: string
  mg_device_token :: string
  mg_platform :: int
  mg_architecture :: int
  mg_runtime_version :: string
  mg_startup_id :: string

definition build_hello :: "config \<Rightarrow> manager \<Rightarrow> device_message" where
  "build_hello C mg = HelloMsg \<lparr>hello_device_id = mg_device_id mg, hello_agent_version = agent_version C,
     hello_protocol_version = protocol_version C, hello_platform = mg_platform mg,
     hello_architecture = mg_architecture mg, hello_runtime_version = mg_runtime_version mg,
     hello_startup_id = mg_startup_id mg\<rparr>"

text \<open>What \<open>_connect_once\<close> opens with the default channel factory, and the metadata of \<open>stub.Connect\<close>.\<close>

definition dial :: "settings \<Rightarrow> manager \<Rightarrow> channel \<times> (string \<times> string) list" where
  "dial F mg = (default_channel_factory F, [(''authorization'', bearer (mg_device_token mg))])"

text \<open>\<open>_STATUS_TO_WIRE[status]\<close>.\<close>

fun status_to_wire :: "jstatus \<Rightarrow> py_exc + wire_status" where
  "status_to_wire Succeeded = Inr COMMAND_STATUS_SUCCEEDED"
| "status_to_wire Failed = Inr COMMAND_STATUS_FAILED"
| "status_to_wire s = Inl (KeyError (status_text s))"

definition message_for_entry :: "journal_row \<Rightarrow> py_exc + device_message" where
  "message_for_entry r =
     sum_bind (status_to_wire (je_status r)) (\<lambda>w.
       Inr (CommandResultMsg \<lparr>cr_command_id = je_command_id r, cr_status = w,
         cr_result_json = str_or_empty (je_result_json r), cr_error_code = str_or_empty (je_error_code r),
         cr_error_message = str_or_empty (je_error_message r),
         cr_placement_generation = je_placement_generation r\<rparr>))"

definition messages_for_entries :: "journal \<Rightarrow> py_exc + device_message list" where
  "messages_for_entries rs = sum_map message_for_entry rs"

definition build_unreported_results :: "journal \<Rightarrow> py_exc + device_message list" where
  "build_unreported_results j = messages_for_entries (unreported_terminal_entries j)"

definition command_result_message ::
  "string \<Rightarrow> jstatus \<Rightarrow> int \<Rightarrow> json option \<Rightarrow> string option \<Rightarrow> string option \<Rightarrow> py_exc + device_message"
where
  "command_result_message cid s gen result ec em =
     sum_bind (status_to_wire s) (\<lambda>w.
       Inr (CommandResultMsg \<lparr>cr_command_id = cid, cr_status = w,
         cr_result_json = (case result of None \<Rightarrow> [] | Some v \<Rightarrow> json_dumps v),
         cr_error_code = str_or_empty ec, cr_error_message = str_or_empty em,
         cr_placement_generation = gen\<rparr>))"

section \<open>Sending\<close>

text \<open>\<open>_send\<close>: dropped when there has been no connection yet, else put on the unbounded queue.\<close>

definition send :: "device_message \<Rightarrow> (agent, unit) proc" where
  "send m = modify (\<lambda>a. a\<lparr>ag_outbound := map_option (\<lambda>q. q @ [m]) (ag_outbound a)\<rparr>)"

definition send_command_result ::
  "string \<Rightarrow> jstatus \<Rightarrow> int \<Rightarrow> json option \<Rightarrow> string option \<Rightarrow> string option \<Rightarrow> (agent, unit) proc"
where
  "send_command_result cid s gen result ec em =
     andThen (lift_sum (command_result_message cid s gen result ec em)) send"

definition send_command_progress :: "string \<Rightarrow> string \<Rightarrow> string \<Rightarrow> (agent, unit) proc" where
  "send_command_progress cid stage message = send (CommandProgressMsg cid stage message)"

definition send_local_event :: "string \<Rightarrow> string \<Rightarrow> (agent, unit) proc" where
  "send_local_event event_type payload_json = send (LocalEventMsg event_type payload_json)"

definition send_terminal_tunnel_registration :: "string \<Rightarrow> string \<Rightarrow> int \<Rightarrow> string \<Rightarrow> (agent, unit) proc" where
  "send_terminal_tunnel_registration provider public_url gen status =
     send (TunnelRegistrationMsg provider public_url gen status)"

text \<open>One turn of \<open>_heartbeat_loop\<close> after its sleep.\<close>

definition heartbeat :: "env \<Rightarrow> (agent, unit) proc" where
  "heartbeat E = andThen (on_trace (read_unix_ms E)) (\<lambda>ms. send (HeartbeatMsg ms))"

text \<open>
  The \<open>while\<close> loop and the \<open>try\<close> around it: it runs until its task is cancelled. The other exceptions a
  turn can raise end it too.
\<close>

partial_function (option) heartbeats ::
  "env \<Rightarrow> config \<Rightarrow> agent \<Rightarrow> ((py_exc + unit) \<times> agent) option"
where
  "heartbeats E C a =
     (case andThen (on_trace (sleep E (heartbeat_interval_seconds C))) (\<lambda>_. heartbeat E) a of
        None \<Rightarrow> None
      | Some (r, a') \<Rightarrow> (case r of Inl e \<Rightarrow> Some (Inl e, a') | Inr _ \<Rightarrow> heartbeats E C a'))"

definition heartbeat_loop :: "env \<Rightarrow> config \<Rightarrow> (agent, unit) proc" where
  "heartbeat_loop E C = tryExcept (heartbeats E C)
     (\<lambda>e. case e of CancelledError \<Rightarrow> Some (ret ()) | _ \<Rightarrow> None)"

lemma send_run [proc_simps]:
  "send m a = Some (Inr (), a\<lparr>ag_outbound := map_option (\<lambda>q. q @ [m]) (ag_outbound a)\<rparr>)"
  by (simp add: send_def)

section \<open>Receiving\<close>

text \<open>The payloads of \<open>CloudToDevice\<close>; the last constructor is any payload that is not handled yet.\<close>

datatype cloud_message =
    HelloAccepted int bool
  | ExecuteCommandMsg execute_command
  | Ping int
  | ServerDraining int
  | UnhandledPayload string

type_synonym command_callback = "string \<Rightarrow> execute_command \<Rightarrow> (agent, unit) proc"

text \<open>The \<open>for\<close> loop over the resend batch.\<close>

fun mark_all :: "env \<Rightarrow> string list \<Rightarrow> (agent, unit) proc" where
  "mark_all E [] = ret ()"
| "mark_all E (cid # cids) =
     andThen (write_journal E (\<lambda>now. mark_reported now cid)) (\<lambda>_. mark_all E cids)"

fun handle_inbound :: "env \<Rightarrow> command_callback \<Rightarrow> cloud_message \<Rightarrow> (agent, unit) proc" where
  "handle_inbound E on_execute_command (HelloAccepted gen reconcile) = (\<lambda>a.
     andThen (mark_all E (ag_pending a)) (\<lambda>_. modify (\<lambda>b. b\<lparr>ag_pending := []\<rparr>)) a)"
| "handle_inbound E on_execute_command (ExecuteCommandMsg cmd) =
     andThen (read_journal E (has_terminal_result (command_id cmd))) (\<lambda>finished.
     if finished then ret ()
     else andThen (write_journal E (\<lambda>now. record_accepted now (command_id cmd)
              (operation_name (operation cmd)) (placement_generation cmd))) (\<lambda>_.
          andThen (on_trace (read_unix_ms E)) (\<lambda>ms.
          andThen (send (CommandAcceptedMsg (command_id cmd) ms)) (\<lambda>_.
            on_execute_command (command_id cmd) cmd))))"
| "handle_inbound E on_execute_command (Ping sent_at) = send (PongMsg sent_at)"
| "handle_inbound E on_execute_command (ServerDraining drain_by) = ret ()"
| "handle_inbound E on_execute_command (UnhandledPayload kind) = ret ()"

text \<open>
  The heartbeat task ends only when it is cancelled while it sleeps, without an exception; until then it has
  queued one heartbeat for every sleep, with the times it read, and touched nothing else of the agent.
\<close>

lemma heartbeat_turn:
  "andThen (on_trace (sleep E d)) (\<lambda>_. heartbeat E) a =
     Some (if cancelled E (ag_trace a) then (Inl CancelledError, a\<lparr>ag_trace := ag_trace a @ [Slept d]\<rparr>)
       else let ms = unix_ms E (ag_trace a @ [Slept d]) in
         (Inr (), a\<lparr>ag_trace := ag_trace a @ [Slept d, ReadUnixMs ms],
            ag_outbound := map_option (\<lambda>q. q @ [HeartbeatMsg ms]) (ag_outbound a)\<rparr>))"
  by (simp add: andThen_def on_trace_run sleep_def heartbeat_def read_unix_ms_def send_run Let_def)

definition beaten :: "rat \<Rightarrow> agent \<Rightarrow> agent \<Rightarrow> bool" where
  "beaten d a a' \<longleftrightarrow> (\<exists>times.
     a' = a\<lparr>ag_trace := ag_trace a @ concat (map (\<lambda>ms. [Slept d, ReadUnixMs ms]) times) @ [Slept d],
       ag_outbound := map_option (\<lambda>q. q @ map HeartbeatMsg times) (ag_outbound a)\<rparr>)"

lemma beaten_step:
  assumes "beaten d (a\<lparr>ag_trace := ag_trace a @ [Slept d, ReadUnixMs ms],
      ag_outbound := map_option (\<lambda>q. q @ [HeartbeatMsg ms]) (ag_outbound a)\<rparr>) a'"
  shows "beaten d a a'"
proof -
  from assms obtain times where "a' = a\<lparr>ag_trace := ag_trace a @
      concat (map (\<lambda>ms. [Slept d, ReadUnixMs ms]) (ms # times)) @ [Slept d],
      ag_outbound := map_option (\<lambda>q. q @ map HeartbeatMsg (ms # times)) (ag_outbound a)\<rparr>"
    by (auto simp: beaten_def option.map_comp comp_def)
  then show ?thesis unfolding beaten_def by (rule exI)
qed

lemma heartbeats_run:
  assumes "heartbeats E C a = Some (r, a')"
  shows "r = Inl CancelledError \<and> beaten (heartbeat_interval_seconds C) a a'"
proof -
  define P where "P = (\<lambda>(E :: env) (C :: config) (a :: agent) (x :: (py_exc + unit) \<times> agent).
     fst x = Inl CancelledError \<and> beaten (heartbeat_interval_seconds C) a (snd x))"
  have "P E C a (r, a')"
  proof (rule heartbeats.raw_induct [where P = P, OF _ assms])
    fix loop E C a x
    assume IH: "\<And>E C a y. loop E C a = Some y \<Longrightarrow> P E C a y"
      and eq: "(case andThen (on_trace (sleep E (heartbeat_interval_seconds C))) (\<lambda>_. heartbeat E) a of
        None \<Rightarrow> None
      | Some (r, a') \<Rightarrow> (case r of Inl e \<Rightarrow> Some (Inl e, a') | Inr _ \<Rightarrow> loop E C a')) = Some x"
    let ?d = "heartbeat_interval_seconds C" and ?ms = "unix_ms E (ag_trace a @ [Slept (heartbeat_interval_seconds C)])"
    show "P E C a x"
    proof (cases "cancelled E (ag_trace a)")
      case True
      with eq have "x = (Inl CancelledError, a\<lparr>ag_trace := ag_trace a @ [Slept ?d]\<rparr>)"
        by (simp add: heartbeat_turn)
      moreover have "beaten ?d a (a\<lparr>ag_trace := ag_trace a @ [Slept ?d]\<rparr>)"
        unfolding beaten_def by (intro exI [of _ "[]"]) (cases "ag_outbound a"; simp)
      ultimately show ?thesis by (simp add: P_def)
    next
      case False
      let ?b = "a\<lparr>ag_trace := ag_trace a @ [Slept ?d, ReadUnixMs ?ms],
        ag_outbound := map_option (\<lambda>q. q @ [HeartbeatMsg ?ms]) (ag_outbound a)\<rparr>"
      from False eq have "loop E C ?b = Some x" by (simp add: heartbeat_turn Let_def)
      from IH [OF this] beaten_step [where a = a and ms = ?ms] show ?thesis by (simp add: P_def)
    qed
  qed
  then show ?thesis by (simp add: P_def)
qed

lemma heartbeat_loop_run:
  assumes "heartbeat_loop E C a = Some (r, a')"
  shows "r = Inr () \<and> beaten (heartbeat_interval_seconds C) a a'"
  using assms unfolding heartbeat_loop_def
  by (cases rule: tryExcept_cases) (auto dest!: heartbeats_run)

section \<open>Reconnecting\<close>

text \<open>
  One turn of \<open>run_forever\<close>: \<open>None\<close> leaves the loop, \<open>Some n\<close> goes on with attempt \<open>n\<close>. A session that
  raised leaves the attempt as it was, one that ended cleanly sets it to 0.
\<close>

definition session :: "(agent, unit) proc \<Rightarrow> nat \<Rightarrow> (agent, nat) proc" where
  "session connect attempt =
     tryExcept (andThen connect (\<lambda>_. ret 0)) (\<lambda>e. if is_exception e then Some (ret attempt) else None)"

definition reconnect_round :: "env \<Rightarrow> config \<Rightarrow> (agent, unit) proc \<Rightarrow> nat \<Rightarrow> (agent, nat option) proc" where
  "reconnect_round E C connect attempt =
     andThen (session connect attempt) (\<lambda>attempt' a.
       if ag_stopped a then Some (Inr None, a)
       else andThen (on_trace (backoff_seconds E C attempt')) (\<lambda>delay.
            andThen (on_trace (sleep E delay)) (\<lambda>_. ret (Some (Suc attempt')))) a)"

text \<open>The \<open>while\<close> loop; \<open>None\<close> is an agent that runs forever.\<close>

partial_function (option) run_forever ::
  "env \<Rightarrow> config \<Rightarrow> (agent, unit) proc \<Rightarrow> nat \<Rightarrow> agent \<Rightarrow> ((py_exc + unit) \<times> agent) option"
where
  "run_forever E C connect attempt a =
     (if ag_stopped a then Some (Inr (), a)
      else (case reconnect_round E C connect attempt a of
        None \<Rightarrow> None
      | Some (r, a') \<Rightarrow>
         (case r of
            Inl e \<Rightarrow> Some (Inl e, a')
          | Inr next \<Rightarrow>
             (case next of
                None \<Rightarrow> Some (Inr (), a')
              | Some attempt' \<Rightarrow> run_forever E C connect attempt' a'))))"

definition stop :: "agent \<Rightarrow> agent" where
  "stop a = a\<lparr>ag_stopped := True\<rparr>"

section \<open>Messages of the journal\<close>

lemma status_to_wire_terminal: "terminal s \<longleftrightarrow> (\<exists>w. status_to_wire s = Inr w)"
  by (cases s) simp_all

text \<open>A resend says what the live send of the same result said.\<close>

lemma message_of_result:
  "message_for_entry (set_result now s res ec em r) =
     command_result_message (je_command_id r) s (je_placement_generation r) res ec em"
  by (cases res; cases s) (simp_all add: message_for_entry_def command_result_message_def set_result_def)

lemma sum_map_Inr:
  "(\<And>x. x \<in> set xs \<Longrightarrow> f x = Inr (g x)) \<Longrightarrow> sum_map f xs = Inr (map g xs)"
  by (induction xs) simp_all

definition entry_message :: "journal_row \<Rightarrow> device_message" where
  "entry_message r = CommandResultMsg \<lparr>cr_command_id = je_command_id r,
     cr_status = (if je_status r = Succeeded then COMMAND_STATUS_SUCCEEDED else COMMAND_STATUS_FAILED),
     cr_result_json = str_or_empty (je_result_json r), cr_error_code = str_or_empty (je_error_code r),
     cr_error_message = str_or_empty (je_error_message r),
     cr_placement_generation = je_placement_generation r\<rparr>"

lemma message_for_entry_terminal: "terminal (je_status r) \<Longrightarrow> message_for_entry r = Inr (entry_message r)"
  by (cases "je_status r") (simp_all add: message_for_entry_def entry_message_def)

lemma build_unreported_run:
  "build_unreported_results j = Inr (map entry_message (unreported_terminal_entries j))"
  unfolding build_unreported_results_def messages_for_entries_def
  by (rule sum_map_Inr) (simp add: set_unreported message_for_entry_terminal)

text \<open>The marks a confirmation makes, each with its time; the disk may refuse one of them, and then no more follow.\<close>

primrec marks :: "(string \<times> string) list \<Rightarrow> journal \<Rightarrow> journal" where
  "marks [] j = j"
| "marks (m # ms) j = marks ms (mark_reported (fst m) (snd m) j)"

lemma marks_ok: "journal_ok j \<Longrightarrow> journal_ok (marks ms j)"
  by (induction ms arbitrary: j) (simp_all add: journal_simps)

lemma marks_pending:
  "journal_ok j \<Longrightarrow> set (unreported_terminal_entries (marks ms j)) =
     {q \<in> set (unreported_terminal_entries j). je_command_id q \<notin> snd ` set ms}"
proof (induction ms arbitrary: j)
  case (Cons m ms)
  then show ?case
    using jn.pending_after_report [of j "fst m" "snd m"] by (auto simp: journal_ok_reported)
qed simp

lemma mark_all_cases:
  assumes "mark_all E cids a = Some (r, a')"
  obtains (all_marked) ms us where "r = Inr ()" and "map snd ms = cids"
      and "a' = a\<lparr>ag_trace := ag_trace a @ map ReadUtc us, ag_journal := marks ms (ag_journal a)\<rparr>"
  | (refused) e ms us where "r = Inl e" and "disk_failure E e" and "set (map snd ms) \<subseteq> set cids"
      and "a' = a\<lparr>ag_trace := ag_trace a @ map ReadUtc us, ag_journal := marks ms (ag_journal a)\<rparr>"
  using assms
proof (induction cids arbitrary: a thesis)
  case Nil
  then show ?case by (intro Nil.prems(1) [of "[]" "[]"]) simp_all
next
  case (Cons cid cids)
  from Cons.prems(3) have "andThen (write_journal E (\<lambda>now. mark_reported now cid)) (\<lambda>_. mark_all E cids) a = Some (r, a')"
    by simp
  then show ?case
  proof (cases rule: andThen_cases)
    case (raised e)
    from raised(1) show ?thesis
    proof (cases rule: write_journal_cases)
      case (refused now e')
      with raised(2) show ?thesis by (intro Cons.prems(2) [of e "[]" "[now]"]) simp_all
    qed simp
  next
    case (returned u b)
    from returned(1) show ?thesis
    proof (cases rule: write_journal_cases)
      case (written now)
      show ?thesis
      proof (rule Cons.IH [OF _ _ returned(2)])
        fix ms us
        assume "r = Inr ()" "map snd ms = cids"
          "a' = b\<lparr>ag_trace := ag_trace b @ map ReadUtc us, ag_journal := marks ms (ag_journal b)\<rparr>"
        with written show ?thesis by (intro Cons.prems(1) [of "(now, cid) # ms" "now # us"]) simp_all
      next
        fix e ms us
        assume "r = Inl e" "disk_failure E e" "set (map snd ms) \<subseteq> set cids"
          "a' = b\<lparr>ag_trace := ag_trace b @ map ReadUtc us, ag_journal := marks ms (ag_journal b)\<rparr>"
        with written show ?thesis by (intro Cons.prems(2) [of e "(now, cid) # ms" "now # us"]) auto
      qed
    qed simp
  qed
qed

lemma total_mark_all: "total_proc (mark_all E cids)"
  by (induction cids) (simp add: total_proc_def, auto intro!: total_andThen)

lemma mark_all_works: "disk_works E \<Longrightarrow> \<exists>a'. mark_all E cids a = Some (Inr (), a')"
  by (induction cids arbitrary: a) (simp_all add: andThen_def write_journal_works)

text \<open>A confirmation: all pending commands are marked and forgotten, or some are marked and the rest stays pending.\<close>

lemma hello_accepted_cases:
  assumes "handle_inbound E callback (HelloAccepted gen reconcile) a = Some (r, a')"
  obtains (confirmed) ms us where "r = Inr ()" and "map snd ms = ag_pending a"
      and "a' = a\<lparr>ag_trace := ag_trace a @ map ReadUtc us, ag_journal := marks ms (ag_journal a), ag_pending := []\<rparr>"
  | (refused) e ms us where "r = Inl e" and "disk_failure E e" and "set (map snd ms) \<subseteq> set (ag_pending a)"
      and "a' = a\<lparr>ag_trace := ag_trace a @ map ReadUtc us, ag_journal := marks ms (ag_journal a)\<rparr>"
proof -
  from assms have "andThen (mark_all E (ag_pending a)) (\<lambda>_. modify (\<lambda>b. b\<lparr>ag_pending := []\<rparr>)) a = Some (r, a')" by simp
  then show thesis
  proof (cases rule: andThen_cases)
    case (raised e)
    from raised(1) show thesis by (cases rule: mark_all_cases) (use raised(2) refused in auto)
  next
    case (returned u b)
    from returned(1) show thesis by (cases rule: mark_all_cases) (use returned(2) confirmed in auto)
  qed
qed

text \<open>The state in which a delivered command runs: accepted, with \<open>CommandAccepted\<close> queued.\<close>

definition accepting_agent :: "env \<Rightarrow> execute_command \<Rightarrow> agent \<Rightarrow> agent" where
  "accepting_agent E cmd a = (let now = utc_now E (ag_trace a); t = ag_trace a @ [ReadUtc now] in
     a\<lparr>ag_journal := record_accepted now (command_id cmd) (operation_name (operation cmd))
         (placement_generation cmd) (ag_journal a),
       ag_trace := t @ [ReadUnixMs (unix_ms E t)],
       ag_outbound := map_option (\<lambda>q. q @ [CommandAcceptedMsg (command_id cmd) (unix_ms E t)]) (ag_outbound a)\<rparr>)"

lemma handle_command_run:
  assumes "\<not> has_terminal_result (command_id cmd) (ag_journal a)"
  shows "handle_inbound E callback (ExecuteCommandMsg cmd) a =
     (case disk_error E (ag_trace a) of
        Some m \<Rightarrow> Some (Inl (OtherException m), a)
      | None \<Rightarrow> (let t = ag_trace a @ [ReadUtc (utc_now E (ag_trace a))] in
          case disk_error E t of
            None \<Rightarrow> callback (command_id cmd) cmd (accepting_agent E cmd a)
          | Some m \<Rightarrow> Some (Inl (OtherException m), a\<lparr>ag_trace := t\<rparr>)))"
  using assms
  by (simp add: andThen_def read_journal_def write_journal_run on_trace_run read_unix_ms_def Let_def send_run
      accepting_agent_def split: option.split)

lemma handle_command_cases:
  assumes "handle_inbound E callback (ExecuteCommandMsg cmd) a = Some (r, a')"
    and "\<not> has_terminal_result (command_id cmd) (ag_journal a)"
  obtains (refused) us e where "r = Inl e" and "disk_failure E e" and "a' = a\<lparr>ag_trace := ag_trace a @ map ReadUtc us\<rparr>"
  | (accepted) "callback (command_id cmd) cmd (accepting_agent E cmd a) = Some (r, a')"
proof (cases "disk_error E (ag_trace a)")
  case None
  note readable = this
  show thesis
  proof (cases "disk_error E (ag_trace a @ [ReadUtc (utc_now E (ag_trace a))])")
    case None
    with assms(1) readable show thesis
      by (intro accepted) (simp add: handle_command_run [OF assms(2)] Let_def del: handle_inbound.simps)
  next
    case (Some m)
    with assms(1) readable show thesis
      by (intro refused [where e = "OtherException m" and us = "[utc_now E (ag_trace a)]"])
        (auto simp: handle_command_run [OF assms(2)] Let_def disk_failure_def simp del: handle_inbound.simps)
  qed
next
  case (Some m)
  with assms(1) show thesis
    by (intro refused [where e = "OtherException m" and us = "[]"])
      (auto simp: handle_command_run [OF assms(2)] disk_failure_def simp del: handle_inbound.simps)
qed

lemma accepting_agent_journal:
  "ag_journal (accepting_agent E cmd a) = record_accepted (utc_now E (ag_trace a)) (command_id cmd)
     (operation_name (operation cmd)) (placement_generation cmd) (ag_journal a)"
  by (simp add: accepting_agent_def Let_def)

lemma accepting_agent_seen: "has_seen (command_id cmd) (ag_journal (accepting_agent E cmd a))"
  unfolding accepting_agent_journal has_seen_get get_entry_accepted by auto

lemma accepting_agent_frame:
  "k \<noteq> command_id cmd \<Longrightarrow> get_entry k (ag_journal (accepting_agent E cmd a)) = get_entry k (ag_journal a)"
  unfolding accepting_agent_journal by (simp add: get_entry_accepted)

lemma accepting_agent_ok:
  "journal_ok (ag_journal a) \<Longrightarrow> journal_ok (ag_journal (accepting_agent E cmd a))"
  unfolding accepting_agent_journal by (rule journal_ok_accepted)

section \<open>The properties of messages\<close>

text \<open>
  C31: A result reads the same on every way to Cloud. The message a reconnect builds from the journal row of
  a recorded result is the message the live send builds from the same result under the row's
  placement generation, for every status, value, code and text.
\<close>

theorem resend_equals_live:
  assumes "get_entry cid j = Some q"
  shows "\<exists>q'. get_entry cid (record_result now cid s res ec em j) = Some q' \<and>
     message_for_entry q' = command_result_message cid s (je_placement_generation q) res ec em"
  using assms get_entry_key [OF assms] by (auto simp: journal_simps message_of_result)

theorem resend_equals_live_witness:
  "\<exists>q'. get_entry ''c'' (record_result ''t1'' ''c'' Failed None (Some ''E'') None
       (record_accepted ''t0'' ''c'' ''Create'' 3 [])) = Some q' \<and>
     message_for_entry q' = command_result_message ''c'' Failed 3 None (Some ''E'') None"
  using resend_equals_live [of "''c''" "record_accepted ''t0'' ''c'' ''Create'' 3 []"
      "accepted_row ''t0'' ''c'' ''Create'' 3" "''t1''" Failed None "Some ''E''" None]
  by (simp add: journal_simps) (simp add: get_entry_def accepted_row_def)

text \<open>
  The resend batch is complete. Building it never fails, and it holds one message per finished,
  unreported row, in the order of the resend list, with the row's command id, status, generation and
  texts.
\<close>

lemma resend_batch_complete:
  "\<exists>ms. build_unreported_results j = Inr ms \<and>
     list_all2 (\<lambda>r m. message_for_entry r = Inr m \<and> m = entry_message r) (unreported_terminal_entries j) ms"
proof -
  have "list_all2 (\<lambda>r m. message_for_entry r = Inr m \<and> m = entry_message r) rs (map entry_message rs)"
    if "\<forall>r \<in> set rs. terminal (je_status r)" for rs
    using that by (induction rs) (simp_all add: message_for_entry_terminal)
  moreover have "\<forall>r \<in> set (unreported_terminal_entries j). terminal (je_status r)"
    by (simp add: set_unreported)
  ultimately show ?thesis by (simp add: build_unreported_run)
qed

section \<open>The properties of inbound messages\<close>

text \<open>
  A finished command is never run again. When the journal holds a result for the command, its
  redelivery changes nothing at all: no callback, no message, no write. It ends quietly, or in the error of a
  disk that could not be read.
\<close>

lemma duplicate_ignored:
  assumes "has_terminal_result (command_id cmd) (ag_journal a)"
  shows "handle_inbound E callback (ExecuteCommandMsg cmd) a = Some (case disk_error E (ag_trace a) of
       None \<Rightarrow> Inr () | Some m \<Rightarrow> Inl (OtherException m), a)"
  using assms by (simp add: andThen_def read_journal_def split: option.split)

text \<open>
  C32: An unfinished command is accepted before it runs. Its delivery, the first or a repeated one, runs the
  callback exactly once, in a state where the journal has its row (the generation and status of an
  older delivery are kept), \<open>CommandAccepted\<close> is the last message queued and everything else is as it
  was; or the disk refused to look the command up or to store its row, and then Cloud hears nothing, the
  callback is not run and the error goes on to the connection.
\<close>

theorem command_accepted_then_run:
  assumes "\<not> has_terminal_result (command_id cmd) (ag_journal a)"
  shows "(\<exists>b now ms. handle_inbound E callback (ExecuteCommandMsg cmd) a = callback (command_id cmd) cmd b \<and>
     ag_journal b = record_accepted now (command_id cmd) (operation_name (operation cmd))
        (placement_generation cmd) (ag_journal a) \<and>
     get_entry (command_id cmd) (ag_journal b) = Some
        (case get_entry (command_id cmd) (ag_journal a) of
           Some q \<Rightarrow> q
         | None \<Rightarrow> accepted_row now (command_id cmd) (operation_name (operation cmd)) (placement_generation cmd)) \<and>
     ag_outbound b = map_option (\<lambda>q. q @ [CommandAcceptedMsg (command_id cmd) ms]) (ag_outbound a) \<and>
     ag_cache b = ag_cache a \<and> ag_pending b = ag_pending a \<and> ag_stopped b = ag_stopped a \<and>
     ag_trace b = ag_trace a @ [ReadUtc now, ReadUnixMs ms]) \<or>
     (\<exists>e us. disk_failure E e \<and> length us \<le> 1 \<and>
       handle_inbound E callback (ExecuteCommandMsg cmd) a = Some (Inl e, a\<lparr>ag_trace := ag_trace a @ map ReadUtc us\<rparr>))"
proof (cases "disk_error E (ag_trace a)")
  case None
  note readable = this
  show ?thesis
  proof (cases "disk_error E (ag_trace a @ [ReadUtc (utc_now E (ag_trace a))])")
    case None
    with handle_command_run [OF assms] readable show ?thesis
      by (intro disjI1 exI [of _ "accepting_agent E cmd a"] exI [of _ "utc_now E (ag_trace a)"]
          exI [of _ "unix_ms E (ag_trace a @ [ReadUtc (utc_now E (ag_trace a))])"])
        (auto simp: accepting_agent_def Let_def journal_simps simp del: handle_inbound.simps split: option.splits)
  next
    case (Some m)
    with handle_command_run [OF assms] readable show ?thesis
      by (intro disjI2 exI [of _ "OtherException m"] exI [of _ "[utc_now E (ag_trace a)]"])
        (auto simp: disk_failure_def Let_def simp del: handle_inbound.simps)
  qed
next
  case (Some m)
  with handle_command_run [OF assms] show ?thesis
    by (intro disjI2 exI [of _ "OtherException m"] exI [of _ "[]"]) (auto simp: disk_failure_def simp del: handle_inbound.simps)
qed

text \<open>
  \<open>HelloAccepted\<close> confirms the batch of its connection and nothing else. It takes exactly the pending
  commands out of the resend list, empties the pending list, and queues nothing.
\<close>

lemma hello_accepted_confirms:
  assumes "handle_inbound E callback (HelloAccepted gen reconcile) a = Some (Inr (), a')" and "journal_ok (ag_journal a)"
  shows "set (unreported_terminal_entries (ag_journal a')) =
       {q \<in> set (unreported_terminal_entries (ag_journal a)). je_command_id q \<notin> set (ag_pending a)} \<and>
     ag_pending a' = [] \<and> ag_outbound a' = ag_outbound a \<and> journal_ok (ag_journal a')"
  using assms(1)
proof (cases rule: hello_accepted_cases)
  case (confirmed ms us)
  have "snd ` set ms = set (ag_pending a)" using arg_cong [OF confirmed(2), of set] by simp
  with confirmed(3) marks_ok [OF assms(2)] marks_pending [OF assms(2), of ms] show ?thesis by simp
qed simp

definition idle_agent :: agent where
  "idle_agent = \<lparr>ag_journal = [], ag_cache = None, ag_outbound = Some [], ag_pending = [], ag_stopped = False,
     ag_trace = []\<rparr>"

theorem command_accepted_then_run_witness:
  "\<exists>b. handle_inbound (demo_env JNull) (\<lambda>_ _. ret ())
        (ExecuteCommandMsg (demo_command COMMAND_OPERATION_CREATE JNull)) idle_agent = ret () b \<and>
     get_entry ''cmd-1'' (ag_journal b) \<noteq> None"
proof -
  have "\<not> has_terminal_result (command_id (demo_command COMMAND_OPERATION_CREATE JNull)) (ag_journal idle_agent)"
    by (simp add: idle_agent_def has_terminal_result_def)
  from command_accepted_then_run [OF this, of "demo_env JNull" "\<lambda>_ _. ret ()"] show ?thesis
    using disk_works_never [OF demo_disk] by (auto simp del: handle_inbound.simps)
qed

section \<open>Reconnecting\<close>

lemma session_run:
  "session connect n a = (case connect a of
       None \<Rightarrow> None
     | Some (Inl e, a') \<Rightarrow> Some (if is_exception e then Inr n else Inl e, a')
     | Some (Inr u, a') \<Rightarrow> Some (Inr 0, a'))"
  by (auto simp: session_def tryExcept_def andThen_def split: option.splits sum.splits)

lemma reconnect_round_run:
  assumes "reconnect_round E C connect n a = Some (r, a')" and "reconnect_schedule C \<noteq> []"
  obtains (interrupted) e where "r = Inl e" and "\<not> is_exception e"
  | (stopped) x where "r = Inr None" and "ag_stopped a'" and "connect a = Some (x, a')"
  | (again) x a1 d u where "connect a = Some (x, a1)" and "\<not> ag_stopped a1" and "\<not> ag_stopped a'"
      and "r = Inr (Some (Suc (if isl x then n else 0)))"
      and "backoff_seconds E C (if isl x then n else 0) (ag_trace a1) = Some (Inr d, ag_trace a1 @ [Drew u])"
      and "ag_trace a' = ag_trace a1 @ [Drew u, Slept d]" and "ag_journal a' = ag_journal a1"
  using assms(1) unfolding reconnect_round_def
proof (cases rule: andThen_cases)
  case (raised e)
  then have "\<not> is_exception e" by (auto simp: session_run split: option.splits sum.splits if_splits)
  with raised(2) interrupted show thesis by blast
next
  case (returned m a1)
  then obtain x where x: "connect a = Some (x, a1)" "m = (if isl x then n else 0)"
    by (auto simp: session_run split: option.splits sum.splits if_splits)
  show thesis
  proof (cases "ag_stopped a1")
    case True
    with returned(2) stopped x(1) show thesis by simp
  next
    case False
    define d where "d = max 0 (backoff_base C m + uniform (random_draw E (ag_trace a1))
      (- (backoff_base C m * reconnect_jitter_fraction C)) (backoff_base C m * reconnect_jitter_fraction C))"
    define u where "u = random_draw E (ag_trace a1)"
    have pause: "backoff_seconds E C m (ag_trace a1) = Some (Inr d, ag_trace a1 @ [Drew u])"
      using assms(2) by (simp add: backoff_run Let_def d_def u_def)
    show thesis
    proof (cases "cancelled E (ag_trace a1 @ [Drew u])")
      case True
      with returned(2) False pause interrupted [of CancelledError] show thesis
        by (simp add: andThen_def on_trace_run sleep_def)
    next
      case go: False
      with returned(2) False pause have "r = Inr (Some (Suc m))"
        "a' = a1\<lparr>ag_trace := ag_trace a1 @ [Drew u, Slept d]\<rparr>"
        by (simp_all add: andThen_def on_trace_run sleep_def)
      with x False pause show thesis by (intro again [of x a1 d u]) simp_all
    qed
  qed
qed

text \<open>
  How the loop ends: stopped, or by an exception that is not an \<open>Exception\<close>; and only so when no session sets
  the flag.
\<close>

definition never_stops :: "(agent, unit) proc \<Rightarrow> bool" where
  "never_stops connect \<longleftrightarrow> (\<forall>a x a'. connect a = Some (x, a') \<longrightarrow> ag_stopped a' = ag_stopped a)"

definition interrupted :: "py_exc + unit \<Rightarrow> bool" where
  "interrupted r \<longleftrightarrow> (\<exists>e. r = Inl e \<and> \<not> is_exception e)"

lemma run_forever_ends:
  assumes "run_forever E C connect n a = Some (r, a')" and "reconnect_schedule C \<noteq> []"
  shows "r = Inr () \<and> ag_stopped a' \<or> interrupted r"
    and "never_stops connect \<Longrightarrow> \<not> ag_stopped a \<Longrightarrow> interrupted r"
proof -
  define P where "P = (\<lambda>(E :: env) (C :: config) (connect :: (agent, unit) proc) (n :: nat) (a :: agent)
     (x :: (py_exc + unit) \<times> agent). reconnect_schedule C \<noteq> [] \<longrightarrow>
       (fst x = Inr () \<and> ag_stopped (snd x) \<or> interrupted (fst x)) \<and>
       (never_stops connect \<longrightarrow> \<not> ag_stopped a \<longrightarrow> interrupted (fst x)))"
  have "P E C connect n a (r, a')"
  proof (rule run_forever.raw_induct [where P = P, OF _ assms(1)])
    fix loop E C connect n a x
    assume IH: "\<And>E C connect n a y. loop E C connect n a = Some y \<Longrightarrow> P E C connect n a y"
      and eq: "(if ag_stopped a then Some (Inr (), a)
        else (case reconnect_round E C connect n a of None \<Rightarrow> None
         | Some (r, a') \<Rightarrow> (case r of Inl e \<Rightarrow> Some (Inl e, a')
             | Inr next \<Rightarrow> (case next of None \<Rightarrow> Some (Inr (), a')
                 | Some n' \<Rightarrow> loop E C connect n' a')))) = Some x"
    show "P E C connect n a x"
    proof (cases "ag_stopped a \<or> reconnect_schedule C = []")
      case True
      with eq show ?thesis by (auto simp: P_def)
    next
      case False
      then obtain r a' where round: "reconnect_round E C connect n a = Some (r, a')"
        using eq by (auto split: option.splits)
      from round False have "reconnect_schedule C \<noteq> []" by simp
      with round show ?thesis
      proof (cases rule: reconnect_round_run)
        case (interrupted e)
        with eq round False show ?thesis by (auto simp: P_def interrupted_def)
      next
        case (stopped y)
        with eq round False show ?thesis by (auto simp: P_def never_stops_def)
      next
        case (again y a1 d u)
        with eq round False have "loop E C connect (Suc (if isl y then n else 0)) a' = Some x" by simp
        from IH [OF this] again(3) show ?thesis by (simp add: P_def)
      qed
    qed
  qed
  with assms(2) show "r = Inr () \<and> ag_stopped a' \<or> interrupted r"
    and "never_stops connect \<Longrightarrow> \<not> ag_stopped a \<Longrightarrow> interrupted r" by (simp_all add: P_def)
qed

text \<open>
  The agent never gives up reconnecting. With a non-empty schedule, whatever the sessions do and however
  often they fail, \<open>run_forever\<close> only ever leaves because the agent was stopped or by an exception that is
  not an \<open>Exception\<close>: its task was cancelled or the process is exiting.
\<close>

lemma never_gives_up:
  assumes "run_forever E C connect n a = Some (r, a')" and "reconnect_schedule C \<noteq> []"
  shows "r = Inr () \<and> ag_stopped a' \<or> (\<exists>e. r = Inl e \<and> \<not> is_exception e)"
  using run_forever_ends(1) [OF assms] by (simp add: interrupted_def)

text \<open>
  A lost connection is retried after the delay its history asks for. A turn that goes on made exactly one
  session; the next attempt is one after 0 when the session ended cleanly and one after the old attempt
  when it failed; and between the session and the next one lies a single sleep within a fifth of the
  schedule's entry for it.
\<close>

lemma reconnect_after_session:
  assumes "reconnect_round E default_config connect n a = Some (Inr (Some m), a')" and "fair_random E"
  shows "\<exists>x a1 d u k. connect a = Some (x, a1) \<and> k = (if isl x then n else 0) \<and> m = Suc k \<and>
     ag_trace a' = ag_trace a1 @ [Drew u, Slept d] \<and> ag_journal a' = ag_journal a1 \<and>
     backoff_base default_config k * (4 / 5) \<le> d \<and> d \<le> backoff_base default_config k * (6 / 5)"
proof -
  have "reconnect_schedule default_config \<noteq> []" by simp
  with assms(1) show ?thesis
  proof (cases rule: reconnect_round_run)
    case (again x a1 d u)
    with backoff_in_fraction [OF assms(2) again(5)] show ?thesis
      by (intro exI [of _ x] exI [of _ a1] exI [of _ d] exI [of _ u]) auto
  qed simp_all
qed

end
