(* ===== verification/Stream_Steps.thy ===== *)
theory Stream_Steps
  imports Control_Stream "HOL-Library.Sublist"
begin

text \<open>
  One connection of \<open>_connect_once\<close> as a step relation. The generator \<open>outbound_gen\<close> hands its messages
  to the stream one by one, and between any two of them other tasks run: inbound messages, the
  heartbeat and the local API queue messages, and executing a command writes the journal. Each code
  path between two awaits is one step; in particular the generator reads the journal, notes the pending
  ids and yields the first result without a pause, and a result is on the wire when it has been yielded. An
  \<open>ExecuteCommand\<close> is the journal writes and queued messages of its execution, in any order, so the relation
  has every interleaving of the code and more.
\<close>

text \<open>
  Where the generator is suspended; \<open>Resending\<close> is the pause after a result, with those it has still to
  yield, \<open>Serving\<close> is the wait for the queue. Its local
  \<open>unreported\<close> is \<open>st_unreported\<close>. \<open>Broken\<close> is a generator that has raised, which makes gRPC end the call.
\<close>

datatype gen_state = NotStarted | HelloSent | Resending "device_message list" | Serving | Broken

record stream =
  st_agent :: agent
  st_gen :: gen_state
  st_unreported :: journal
  st_wire :: "device_message list"

text \<open>\<open>self._outbound = asyncio.Queue()\<close>; \<open>_pending_resend_ids\<close> is whatever the last connection left.\<close>

definition new_stream :: "agent \<Rightarrow> stream" where
  "new_stream a = \<lparr>st_agent = a\<lparr>ag_outbound := Some []\<rparr>, st_gen = NotStarted, st_unreported = [],
     st_wire = []\<rparr>"

fun is_execute :: "cloud_message \<Rightarrow> bool" where
  "is_execute (ExecuteCommandMsg _) = True"
| "is_execute _ = False"

text \<open>The generator \<open>outbound_gen\<close>.\<close>

inductive generator_step :: "env \<Rightarrow> config \<Rightarrow> manager \<Rightarrow> stream \<Rightarrow> stream \<Rightarrow> bool" for E C mg where
  yield_hello: "st_gen s = NotStarted \<Longrightarrow>
    generator_step E C mg s (s\<lparr>st_gen := HelloSent, st_wire := st_wire s @ [build_hello C mg]\<rparr>)"
| cannot_read: "st_gen s = HelloSent \<Longrightarrow> disk_error E (ag_trace (st_agent s)) \<noteq> None \<Longrightarrow>
    generator_step E C mg s (s\<lparr>st_gen := Broken\<rparr>)"
| read_some: "st_gen s = HelloSent \<Longrightarrow> disk_error E (ag_trace (st_agent s)) = None \<Longrightarrow>
    rs = unreported_terminal_entries (ag_journal (st_agent s)) \<Longrightarrow>
    messages_for_entries rs = Inr (m # ms) \<Longrightarrow>
    generator_step E C mg s (s\<lparr>st_gen := Resending ms, st_unreported := rs, st_wire := st_wire s @ [m],
      st_agent := (st_agent s)\<lparr>ag_pending := map je_command_id rs\<rparr>\<rparr>)"
| read_nothing: "st_gen s = HelloSent \<Longrightarrow> disk_error E (ag_trace (st_agent s)) = None \<Longrightarrow>
    rs = unreported_terminal_entries (ag_journal (st_agent s)) \<Longrightarrow>
    messages_for_entries rs = Inr [] \<Longrightarrow>
    generator_step E C mg s (s\<lparr>st_gen := Serving, st_unreported := rs,
      st_agent := (st_agent s)\<lparr>ag_pending := map je_command_id rs\<rparr>\<rparr>)"
| yield_resend: "st_gen s = Resending (m # ms) \<Longrightarrow>
    generator_step E C mg s (s\<lparr>st_gen := Resending ms, st_wire := st_wire s @ [m]\<rparr>)"
| resends_done: "st_gen s = Resending [] \<Longrightarrow> generator_step E C mg s (s\<lparr>st_gen := Serving\<rparr>)"
| yield_queued: "st_gen s = Serving \<Longrightarrow> ag_outbound (st_agent s) = Some (m # q) \<Longrightarrow>
    generator_step E C mg s (s\<lparr>st_agent := (st_agent s)\<lparr>ag_outbound := Some q\<rparr>, st_wire := st_wire s @ [m]\<rparr>)"

text \<open>The connection: the generator, and everything that runs between its messages.\<close>

inductive stream_step :: "env \<Rightarrow> config \<Rightarrow> manager \<Rightarrow> stream \<Rightarrow> stream \<Rightarrow> bool" for E C mg where
  outbound: "generator_step E C mg s s' \<Longrightarrow> stream_step E C mg s s'"
| inbound: "\<not> is_execute msg \<Longrightarrow> handle_inbound E callback msg (st_agent s) = Some (Inr (), a) \<Longrightarrow>
    stream_step E C mg s (s\<lparr>st_agent := a\<rparr>)"
| heartbeats: "heartbeat E (st_agent s) = Some (Inr (), a) \<Longrightarrow> stream_step E C mg s (s\<lparr>st_agent := a\<rparr>)"
| other_send: "send m (st_agent s) = Some (Inr (), a) \<Longrightarrow> stream_step E C mg s (s\<lparr>st_agent := a\<rparr>)"
| other_write: "stream_step E C mg s (s\<lparr>st_agent := (st_agent s)\<lparr>ag_journal := journal_step w (ag_journal (st_agent s))\<rparr>\<rparr>)"

inductive connection_run :: "env \<Rightarrow> config \<Rightarrow> manager \<Rightarrow> agent \<Rightarrow> stream \<Rightarrow> bool" for E C mg a where
  opened: "connection_run E C mg a (new_stream a)"
| step: "connection_run E C mg a s \<Longrightarrow> stream_step E C mg s s' \<Longrightarrow> connection_run E C mg a s'"

text \<open>Whether a message is the result of a command.\<close>

fun carries :: "string \<Rightarrow> device_message \<Rightarrow> bool" where
  "carries cid (CommandResultMsg r) = (cr_command_id r = cid)"
| "carries cid _ = False"

lemma carries_entry [simp]: "carries cid (entry_message r) \<longleftrightarrow> je_command_id r = cid"
  by (simp add: entry_message_def)

text \<open>What inbound messages other than commands do to the pending ids.\<close>

lemma inbound_pending:
  assumes "handle_inbound E callback msg a = Some (Inr (), a')" and "\<not> is_execute msg"
  shows "ag_pending a' = ag_pending a \<or> ag_pending a' = []"
proof (cases msg)
  case (HelloAccepted gen reconcile)
  from assms(1) show ?thesis unfolding HelloAccepted by (cases rule: hello_accepted_cases) simp_all
qed (use assms in \<open>auto simp: send_run\<close>)

lemma heartbeat_pending: "heartbeat E a = Some (Inr (), a') \<Longrightarrow> ag_pending a' = ag_pending a"
  by (auto simp: heartbeat_def andThen_def on_trace_run read_unix_ms_def send_run Let_def)

text \<open>The order on the wire, and that every pending command's result is sent or about to be.\<close>

definition batch :: "journal \<Rightarrow> device_message list" where
  "batch rs = map entry_message rs"

definition stream_ok :: "config \<Rightarrow> manager \<Rightarrow> stream \<Rightarrow> bool" where
  "stream_ok C mg s \<longleftrightarrow> (case st_gen s of
       NotStarted \<Rightarrow> st_wire s = []
     | HelloSent \<Rightarrow> st_wire s = [build_hello C mg]
     | Broken \<Rightarrow> st_wire s = [build_hello C mg]
     | Resending ms \<Rightarrow> (\<exists>sent. batch (st_unreported s) = sent @ ms \<and> st_wire s = build_hello C mg # sent) \<and>
         set (ag_pending (st_agent s)) \<subseteq> je_command_id ` set (st_unreported s)
     | Serving \<Rightarrow> (\<exists>qs. st_wire s = build_hello C mg # batch (st_unreported s) @ qs) \<and>
         set (ag_pending (st_agent s)) \<subseteq> je_command_id ` set (st_unreported s))"

lemma stream_ok_agent:
  assumes "stream_ok C mg s" and "ag_pending a = ag_pending (st_agent s) \<or> ag_pending a = []"
  shows "stream_ok C mg (s\<lparr>st_agent := a\<rparr>)"
  using assms by (auto simp: stream_ok_def split: gen_state.splits)

text \<open>The generator reads the batch whole.\<close>

lemma messages_batch: "messages_for_entries (unreported_terminal_entries j) = Inr ms \<longleftrightarrow> ms = batch (unreported_terminal_entries j)"
  using build_unreported_run [of j] by (auto simp: build_unreported_results_def batch_def)

lemma stream_ok_generator:
  assumes "generator_step E C mg s s'" and "stream_ok C mg s"
  shows "stream_ok C mg s'"
  using assms(1)
proof (cases rule: generator_step.cases)
  case (read_some rs m ms)
  then have "m # ms = batch rs" by (simp add: messages_batch)
  with read_some assms(2) show ?thesis by (auto simp: stream_ok_def intro!: exI [of _ "[m]"])
next
  case (read_nothing rs)
  then have "batch rs = []" using messages_batch by metis
  with read_nothing assms(2) show ?thesis by (auto simp: stream_ok_def)
qed (use assms(2) in \<open>auto simp: stream_ok_def\<close>)

lemma stream_ok_step:
  assumes "stream_step E C mg s s'" and "stream_ok C mg s"
  shows "stream_ok C mg s'"
  using assms(1)
proof (cases rule: stream_step.cases)
  case outbound
  then show ?thesis using assms(2) by (rule stream_ok_generator)
next
  case (inbound msg callback a)
  from inbound_pending [OF inbound(3,2)] stream_ok_agent [OF assms(2)] inbound(1) show ?thesis by simp
next
  case (heartbeats a)
  from heartbeat_pending [OF heartbeats(2)] stream_ok_agent [OF assms(2)] heartbeats(1) show ?thesis by simp
next
  case (other_send m a)
  then have "ag_pending a = ag_pending (st_agent s)" by (auto simp: send_run)
  with other_send(1) stream_ok_agent [OF assms(2)] show ?thesis by simp
next
  case (other_write w)
  with stream_ok_agent [OF assms(2)] show ?thesis by simp
qed

lemma stream_ok_run: "connection_run E C mg a s \<Longrightarrow> stream_ok C mg s"
proof (induction rule: connection_run.induct)
  case opened
  then show ?case by (simp add: stream_ok_def new_stream_def)
next
  case (step s s')
  then show ?case using stream_ok_step by blast
qed

section \<open>The properties of a connection\<close>

text \<open>
  C18: The Hello is first on the wire and resends go before everything else. At every moment of a
  connection, under every interleaving, what was sent is nothing, or the Hello and then a prefix of the
  results the generator read from the journal, in that order; and anything that was queued follows only
  when all of these results are out.
\<close>

theorem wire_order:
  assumes "connection_run E C mg a s"
  shows "st_wire s = [] \<or> (\<exists>sent queued. st_wire s = build_hello C mg # sent @ queued \<and>
     (st_gen s \<noteq> HelloSent \<longrightarrow> prefix sent (map entry_message (st_unreported s))) \<and>
     (queued \<noteq> [] \<longrightarrow> st_gen s = Serving \<and> sent = map entry_message (st_unreported s)) \<and>
     (st_gen s = Serving \<longrightarrow> sent = map entry_message (st_unreported s)))"
proof (cases "st_gen s")
  case NotStarted
  with stream_ok_run [OF assms] show ?thesis by (simp add: stream_ok_def)
next
  case HelloSent
  with stream_ok_run [OF assms] show ?thesis by (simp add: stream_ok_def)
next
  case Broken
  with stream_ok_run [OF assms] show ?thesis by (simp add: stream_ok_def)
next
  case (Resending ms)
  with stream_ok_run [OF assms] obtain sent where
    "batch (st_unreported s) = sent @ ms" "st_wire s = build_hello C mg # sent"
    by (auto simp: stream_ok_def)
  with Resending show ?thesis
    by (intro disjI2 exI [of _ sent] exI [of _ "[]"]) (simp add: batch_def)
next
  case Serving
  with stream_ok_run [OF assms] obtain qs where "st_wire s = build_hello C mg # batch (st_unreported s) @ qs"
    by (auto simp: stream_ok_def)
  with Serving show ?thesis
    by (intro disjI2 exI [of _ "batch (st_unreported s)"] exI [of _ qs]) (simp add: batch_def)
qed

definition demo_manager :: manager where
  "demo_manager = \<lparr>mg_device_id = ''dev-1'', mg_device_token = ''dev-1'', mg_platform = 0, mg_architecture = 0,
     mg_runtime_version = [], mg_startup_id = []\<rparr>"

text \<open>The start of a connection: the Hello is out.\<close>

definition after_hello :: "config \<Rightarrow> manager \<Rightarrow> agent \<Rightarrow> stream" where
  "after_hello C mg a = (new_stream a)\<lparr>st_gen := HelloSent, st_wire := [build_hello C mg]\<rparr>"

lemma after_hello_step: "stream_step E C mg (new_stream a) (after_hello C mg a)"
  using outbound [OF yield_hello [of "new_stream a" E C mg]] by (simp add: new_stream_def after_hello_def)

lemma after_hello_run: "connection_run E C mg a (after_hello C mg a)"
  using opened after_hello_step by (rule connection_run.step)

text \<open>The next step of a connection with something to resend: the batch is read and its first result is out.\<close>

definition after_read :: "config \<Rightarrow> manager \<Rightarrow> agent \<Rightarrow> journal_row \<Rightarrow> journal \<Rightarrow> stream" where
  "after_read C mg a q rest = (after_hello C mg a)\<lparr>st_gen := Resending (map entry_message rest),
     st_unreported := q # rest, st_wire := [build_hello C mg, entry_message q],
     st_agent := a\<lparr>ag_outbound := Some [], ag_pending := map je_command_id (q # rest)\<rparr>\<rparr>"

lemma after_read_step:
  assumes "unreported_terminal_entries (ag_journal a) = q # rest" and "disk_works E"
  shows "stream_step E C mg (after_hello C mg a) (after_read C mg a q rest)"
proof -
  have "messages_for_entries (q # rest) = Inr (entry_message q # map entry_message rest)"
    using build_unreported_run [of "ag_journal a"] assms by (simp add: build_unreported_results_def)
  then show ?thesis
    using outbound [OF read_some [of "after_hello C mg a" E "q # rest" "entry_message q" "map entry_message rest" C mg]] assms
    by (simp add: disk_works_def after_hello_def after_read_def new_stream_def)
qed

lemma after_read_run:
  "unreported_terminal_entries (ag_journal a) = q # rest \<Longrightarrow> disk_works E \<Longrightarrow> connection_run E C mg a (after_read C mg a q rest)"
  using after_hello_run after_read_step by (rule connection_run.step)

theorem wire_order_witness:
  "\<exists>sent queued. st_wire (after_hello default_config demo_manager idle_agent) =
     build_hello default_config demo_manager # sent @ queued \<and> queued = []"
  using wire_order [OF after_hello_run [of "demo_env JNull" default_config demo_manager idle_agent]]
  by (auto simp: after_hello_def new_stream_def)

text \<open>
  C14: Confirming after the batch is safe. Once the generator has yielded its whole batch, every command that
  \<open>HelloAccepted\<close> would mark has had its result sent on this very connection.
\<close>

theorem confirmed_results_were_sent:
  assumes "connection_run E C mg a s" and "st_gen s = Serving"
    and "cid \<in> set (ag_pending (st_agent s))"
  shows "\<exists>m \<in> set (st_wire s). carries cid m"
proof -
  obtain qs where wire: "st_wire s = build_hello C mg # batch (st_unreported s) @ qs"
    and "cid \<in> je_command_id ` set (st_unreported s)"
    using stream_ok_run [OF assms(1)] assms(2,3) by (auto simp: stream_ok_def)
  then obtain q where "q \<in> set (st_unreported s)" "je_command_id q = cid" by blast
  then show ?thesis by (intro bexI [of _ "entry_message q"]) (auto simp: wire batch_def)
qed

text \<open>
  C15: Confirming during the batch loses results. On every connection of an agent with finished, unreported
  results, though the disk works, there is an interleaving in which \<open>HelloAccepted\<close>, which Cloud sends as soon as it has the
  Hello, arrives after the generator has yielded the first of them: then all of them are marked reported
  although only the Hello and that one were sent, and when the connection drops there, the next one
  resends none of the others.
\<close>

theorem results_can_be_lost:
  assumes "disk_works E" and "journal_ok (ag_journal a)" and "unreported_terminal_entries (ag_journal a) = q # rest"
  shows "\<exists>s. connection_run E C mg a s \<and> st_wire s = [build_hello C mg, entry_message q] \<and>
     (\<forall>r \<in> set rest. \<forall>m \<in> set (st_wire s). \<not> carries (je_command_id r) m) \<and>
     build_unreported_results (ag_journal (st_agent s)) = Inr []"
proof -
  let ?a2 = "a\<lparr>ag_outbound := Some [], ag_pending := map je_command_id (q # rest)\<rparr>"
  let ?s2 = "after_read C mg a q rest"
  have s2: "st_agent ?s2 = ?a2" "st_wire ?s2 = [build_hello C mg, entry_message q]"
    by (simp_all add: after_read_def after_hello_def)
  obtain b where "mark_all E (ag_pending ?a2) ?a2 = Some (Inr (), b)" using mark_all_works [OF assms(1)] by blast
  then have hello: "handle_inbound E (\<lambda>_ _. ret ()) (HelloAccepted 0 False) (st_agent ?s2) =
      Some (Inr (), b\<lparr>ag_pending := []\<rparr>)"
    by (simp add: s2 andThen_def)
  from hello_accepted_confirms [OF hello] have "set (unreported_terminal_entries (ag_journal b)) =
      {p \<in> set (q # rest). je_command_id p \<notin> set (map je_command_id (q # rest))}"
    using assms(2,3) by (simp add: s2)
  then have "set (unreported_terminal_entries (ag_journal b)) = {}" by auto
  then have none: "unreported_terminal_entries (ag_journal b) = []" by simp
  from inbound [OF _ hello, of C mg] have "stream_step E C mg ?s2 (?s2\<lparr>st_agent := b\<lparr>ag_pending := []\<rparr>\<rparr>)"
    by simp
  with after_read_run [OF assms(3,1)] have "connection_run E C mg a (?s2\<lparr>st_agent := b\<lparr>ag_pending := []\<rparr>\<rparr>)"
    by (rule connection_run.step)
  moreover have "je_command_id q \<notin> je_command_id ` set rest"
    using distinct_unreported [OF assms(2)] by (simp add: assms(3) journal_ok_def)
  then have "je_command_id q \<noteq> je_command_id r" if "r \<in> set rest" for r
    using that by (metis image_eqI)
  ultimately show ?thesis
    by (intro exI [of _ "?s2\<lparr>st_agent := b\<lparr>ag_pending := []\<rparr>\<rparr>"])
       (auto simp: none build_unreported_run s2 build_hello_def)
qed

text \<open>An agent with two finished commands, neither of them reported.\<close>

definition demo_finished_agent :: agent where
  "demo_finished_agent = idle_agent\<lparr>ag_journal :=
     record_result ''t3'' ''d'' Failed None (Some ''E'') None (record_accepted ''t2'' ''d'' ''Save'' 1
       (record_result ''t1'' ''c'' Succeeded None None None (record_accepted ''t0'' ''c'' ''Create'' 3 [])))\<rparr>"

lemma demo_finished:
  "journal_ok (ag_journal demo_finished_agent)"
  "\<exists>q r. unreported_terminal_entries (ag_journal demo_finished_agent) = [q, r] \<and> je_command_id q = ''c'' \<and>
     je_status q = Succeeded \<and> je_command_id r = ''d''"
  by (simp_all add: demo_finished_agent_def journal_simps)
    (simp add: unreported_terminal_entries_def record_result_def update_where_def set_result_def
      record_accepted_def has_seen_def accepted_row_def)

lemma demo_finished_entry:
  "\<exists>q. get_entry ''c'' (ag_journal demo_finished_agent) = Some q \<and> je_status q = Succeeded"
  by (simp add: demo_finished_agent_def journal_simps) (simp add: get_entry_def set_result_def)

theorem results_can_be_lost_witness:
  "\<exists>s r. connection_run (demo_env JNull) default_config demo_manager demo_finished_agent s \<and>
     r \<in> set (unreported_terminal_entries (ag_journal demo_finished_agent)) \<and>
     (\<forall>m \<in> set (st_wire s). \<not> carries (je_command_id r) m) \<and>
     build_unreported_results (ag_journal (st_agent s)) = Inr []"
proof -
  obtain q r where rows: "unreported_terminal_entries (ag_journal demo_finished_agent) = [q, r]"
    using demo_finished(2) by blast
  from results_can_be_lost [OF demo_disk demo_finished(1) rows] show ?thesis using rows by force
qed

theorem confirmed_results_were_sent_witness:
  "\<exists>s. connection_run (demo_env JNull) default_config demo_manager demo_finished_agent s \<and>
     (\<exists>m \<in> set (st_wire s). carries ''c'' m)"
proof -
  let ?E = "demo_env JNull" and ?C = default_config and ?a = demo_finished_agent
  obtain q r where q: "unreported_terminal_entries (ag_journal ?a) = [q, r]" "je_command_id q = ''c''"
    using demo_finished(2) by blast
  let ?s1 = "after_read ?C demo_manager ?a q [r]"
  let ?s2 = "?s1\<lparr>st_gen := Resending [], st_wire := st_wire ?s1 @ [entry_message r]\<rparr>"
  have "stream_step ?E ?C demo_manager ?s1 ?s2"
    by (intro outbound yield_resend) (simp add: after_read_def)
  with after_read_run [OF q(1) demo_disk] have "connection_run ?E ?C demo_manager ?a ?s2" by (rule connection_run.step)
  moreover have "stream_step ?E ?C demo_manager ?s2 (?s2\<lparr>st_gen := Serving\<rparr>)"
    by (intro outbound resends_done) simp
  ultimately have run: "connection_run ?E ?C demo_manager ?a (?s2\<lparr>st_gen := Serving\<rparr>)"
    by (rule connection_run.step)
  moreover have "''c'' \<in> set (ag_pending (st_agent (?s2\<lparr>st_gen := Serving\<rparr>)))"
    by (simp add: after_read_def q)
  ultimately show ?thesis using confirmed_results_were_sent [OF run] by fastforce
qed

end
