(* ===== verification/Local_Api.thy ===== *)
theory Local_Api
  imports Control_Stream Cloud_Client
begin

text \<open>
  \<open>device_agent/local_api/service.py\<close>: \<open>LocalDeviceAgentServicer\<close>, one definition per RPC. A response
  holds the Python values its generated constructor is called with, and \<open>check_reply\<close> of the environment is
  the constructor's own check of the values that came from Cloud. Aborting an RPC raises in the
  handler: it is a \<open>GrpcRpcError\<close> with the status code and the message given to \<open>context.abort\<close>.
\<close>

section \<open>Requests and responses\<close>

record status_report =
  sr_container_id :: string
  sr_placement_generation :: int
  sr_observed_status :: string
  sr_kubernetes_id :: string

record command_reference =
  ref_created :: bool
  ref_command_id :: json
  ref_error :: json

record terminal_target =
  tt_valid :: bool
  tt_container_id :: json
  tt_ssh_host :: json
  tt_ssh_port :: json
  tt_ssh_username :: json
  tt_ssh_password :: json

record snapshot_allocation =
  sa_id :: json
  sa_version_sequence :: json
  sa_version :: json
  sa_image_repository :: json
  sa_status :: json
  sa_image_tag :: json

record snapshot_report =
  sn_container_id :: string
  sn_snapshot_id :: string
  sn_status :: string
  sn_image_reference :: string
  sn_registry_digest :: string
  sn_error_detail :: string

text \<open>\<open>v or d\<close>, and \<open>s or None\<close> for a string.\<close>

definition or_default :: "json \<Rightarrow> json \<Rightarrow> json" where
  "or_default v d = (if py_truthy v then v else d)"

definition or_none :: "string \<Rightarrow> string option" where
  "or_none s = (if s = [] then None else Some s)"

text \<open>The response \<open>x\<close>, whose constructor \<open>c\<close> is called with \<open>args\<close> and may refuse them.\<close>

definition constructed :: "env \<Rightarrow> string \<Rightarrow> json list \<Rightarrow> 'a \<Rightarrow> py_exc + 'a" where
  "constructed E c args x = (case check_reply E c args of Some e \<Rightarrow> Inl e | None \<Rightarrow> Inr x)"

section \<open>Relays over the control stream\<close>

definition generation_of_report :: "placement_cache option \<Rightarrow> status_report \<Rightarrow> int" where
  "generation_of_report cache q = (case cache of
       None \<Rightarrow> sr_placement_generation q
     | Some c \<Rightarrow> (case cache_get (sr_container_id q) c of
          Some (_, gen) \<Rightarrow> gen
        | None \<Rightarrow> sr_placement_generation q))"

definition status_payload :: "int \<Rightarrow> status_report \<Rightarrow> json" where
  "status_payload gen q = JObj [(''container_id'', JStr (sr_container_id q)),
     (''placement_generation'', JInt gen), (''observed_status'', JStr (sr_observed_status q)),
     (''kubernetes_id'', json_of_opt (or_none (sr_kubernetes_id q)))]"

definition ReportContainerStatus :: "status_report \<Rightarrow> (agent, bool) proc" where
  "ReportContainerStatus q = (\<lambda>a.
     andThen (send_local_event ''container_status_report''
         (json_dumps (status_payload (generation_of_report (ag_cache a) q) q)))
       (\<lambda>_. ret True) a)"

definition ReportSnapshotProgress :: "string \<Rightarrow> string \<Rightarrow> string \<Rightarrow> (agent, bool) proc" where
  "ReportSnapshotProgress cid stage message =
     (if cid \<noteq> [] then andThen (send_command_progress cid stage message) (\<lambda>_. ret True) else ret True)"

definition ReportTunnel :: "string \<Rightarrow> string \<Rightarrow> int \<Rightarrow> string \<Rightarrow> (agent, bool) proc" where
  "ReportTunnel provider public_url gen status =
     andThen (send_terminal_tunnel_registration provider public_url gen status) (\<lambda>_. ret True)"

section \<open>Calls with a safe default\<close>

definition RequestHibernate :: "env \<Rightarrow> string \<Rightarrow> string \<Rightarrow> string \<Rightarrow> (agent, command_reference) proc" where
  "RequestHibernate E dev cid reason =
     andThen (on_trace (request_hibernate E dev cid (reason = ''pod_lost''))) (\<lambda>result.
       let cmd = or_default (hr_command_id result) (JStr []); err = or_default (hr_error result) (JStr []) in
       lift_sum (constructed E ''CommandReference'' [JBool (hr_created result), cmd, err]
         \<lparr>ref_created = hr_created result, ref_command_id = cmd, ref_error = err\<rparr>))"

definition invalid_target :: terminal_target where
  "invalid_target = \<lparr>tt_valid = False, tt_container_id = JStr [], tt_ssh_host = JStr [], tt_ssh_port = JInt 0,
     tt_ssh_username = JStr [], tt_ssh_password = JStr []\<rparr>"

definition target_of :: "env \<Rightarrow> json \<Rightarrow> py_exc + terminal_target" where
  "target_of E target =
     sum_bind (py_get ''container_id'' (JStr []) target) (\<lambda>cid.
     sum_bind (map_sum id (\<lambda>v. or_default v (JStr [])) (py_get ''ssh_host'' JNull target)) (\<lambda>h.
     sum_bind (map_sum id (\<lambda>v. or_default v (JInt 0)) (py_get ''ssh_port'' JNull target)) (\<lambda>p.
     sum_bind (map_sum id (\<lambda>v. or_default v (JStr [])) (py_get ''ssh_username'' JNull target)) (\<lambda>u.
     sum_bind (map_sum id (\<lambda>v. or_default v (JStr [])) (py_get ''ssh_password'' JNull target)) (\<lambda>w.
       constructed E ''TerminalTarget'' [JBool True, cid, h, p, u, w]
         \<lparr>tt_valid = True, tt_container_id = cid, tt_ssh_host = h, tt_ssh_port = p, tt_ssh_username = u,
          tt_ssh_password = w\<rparr>)))))"

definition ConsumeTerminalTicket :: "env \<Rightarrow> string \<Rightarrow> (agent, terminal_target) proc" where
  "ConsumeTerminalTicket E ticket =
     andThen (on_trace (consume_terminal_ticket E ticket)) (\<lambda>target.
       if \<not> py_truthy target then ret invalid_target else lift_sum (target_of E target))"

definition GetTunnelGeneration :: "env \<Rightarrow> string \<Rightarrow> (agent, json) proc" where
  "GetTunnelGeneration E dev =
     andThen (on_trace (get_tunnel_generation E dev)) (\<lambda>gen.
       let g = (if gen \<noteq> JNull then gen else JInt 0) in
       lift_sum (constructed E ''GetTunnelGenerationResponse'' [g] g))"

section \<open>Calls that abort on failure\<close>

text \<open>\<open>except CloudClientError as e: await _abort_on_cloud_error(...)\<close>; the abort carries the bare message.\<close>

definition abort_on_cloud_error :: "py_exc \<Rightarrow> (agent, 'a) proc option" where
  "abort_on_cloud_error e = (case e of
       CloudClientError m \<Rightarrow> Some (raise (GrpcRpcError (Some UNAVAILABLE) m))
     | _ \<Rightarrow> None)"

text \<open>The call in the \<open>try\<close>, the answer outside it.\<close>

definition answered :: "(trace, 'a) proc \<Rightarrow> ('a \<Rightarrow> py_exc + 'b) \<Rightarrow> (agent, 'b) proc" where
  "answered p reply = andThen (tryExcept (on_trace p) abort_on_cloud_error) (\<lambda>x. lift_sum (reply x))"

definition GetActiveContainerIds :: "env \<Rightarrow> string \<Rightarrow> (agent, json) proc" where
  "GetActiveContainerIds E dev = answered (get_active_container_ids E dev) (\<lambda>ids. constructed E ''ContainerIdList'' [ids] ids)"

definition ReconcileDeviceResources ::
  "env \<Rightarrow> string \<Rightarrow> string list \<Rightarrow> (string \<times> string) list \<Rightarrow> (agent, bool) proc"
where
  "ReconcileDeviceResources E dev running_ids pod_ips =
     answered (reconcile_device_resources E dev running_ids pod_ips) (\<lambda>_. Inr True)"

definition GetIdleContainers :: "env \<Rightarrow> string \<Rightarrow> int \<Rightarrow> (agent, json list) proc" where
  "GetIdleContainers E dev threshold =
     answered (get_idle_containers E dev threshold) (\<lambda>ids. constructed E ''ContainerIdList'' [JArr ids] ids)"

definition allocation_of :: "env \<Rightarrow> json \<Rightarrow> py_exc + snapshot_allocation" where
  "allocation_of E snapshot =
     sum_bind (py_getitem ''id'' snapshot) (\<lambda>i.
     sum_bind (py_getitem ''version_sequence'' snapshot) (\<lambda>vs.
     sum_bind (py_getitem ''version'' snapshot) (\<lambda>v.
     sum_bind (py_getitem ''image_repository'' snapshot) (\<lambda>repo.
     sum_bind (py_getitem ''status'' snapshot) (\<lambda>st.
     sum_bind (py_getitem ''image_tag'' snapshot) (\<lambda>tag.
       constructed E ''SnapshotAllocation'' [i, vs, v, repo, st, tag]
         \<lparr>sa_id = i, sa_version_sequence = vs, sa_version = v, sa_image_repository = repo,
          sa_status = st, sa_image_tag = tag\<rparr>))))))"

definition AllocateSnapshot :: "env \<Rightarrow> string \<Rightarrow> string \<Rightarrow> string \<Rightarrow> (agent, snapshot_allocation) proc" where
  "AllocateSnapshot E dev cid request_id = answered (allocate_snapshot E dev cid request_id) (allocation_of E)"

definition ReportSnapshotResult :: "env \<Rightarrow> string \<Rightarrow> snapshot_report \<Rightarrow> (agent, bool) proc" where
  "ReportSnapshotResult E dev q =
     answered (report_snapshot_result E dev (sn_container_id q) (sn_snapshot_id q) (sn_status q)
       (or_none (sn_image_reference q)) (or_none (sn_registry_digest q)) (or_none (sn_error_detail q)))
       (\<lambda>_. Inr True)"

text \<open>\<open>None\<close> is \<open>found=False\<close>, else the container as JSON text.\<close>

definition GetContainer :: "env \<Rightarrow> string \<Rightarrow> string \<Rightarrow> (agent, string option) proc" where
  "GetContainer E dev cid =
     answered (get_container E dev cid) (\<lambda>c. Inr (if c = JNull then None else Some (json_dumps c)))"

definition UpdateContainerKubernetesId :: "env \<Rightarrow> string \<Rightarrow> string \<Rightarrow> string \<Rightarrow> (agent, bool) proc" where
  "UpdateContainerKubernetesId E dev cid kubernetes_id =
     answered (update_container_kubernetes_id E dev cid kubernetes_id) (\<lambda>_. Inr True)"

section \<open>Acknowledged calls\<close>

lemma answered_run:
  "answered p reply a = (case p (ag_trace a) of
       None \<Rightarrow> None
     | Some (Inr x, t) \<Rightarrow> Some (reply x, a\<lparr>ag_trace := t\<rparr>)
     | Some (Inl (CloudClientError m), t) \<Rightarrow> Some (Inl (GrpcRpcError (Some UNAVAILABLE) m), a\<lparr>ag_trace := t\<rparr>)
     | Some (Inl e, t) \<Rightarrow> Some (Inl e, a\<lparr>ag_trace := t\<rparr>))"
  by (auto simp: answered_def andThen_def tryExcept_def on_trace_run abort_on_cloud_error_def
      split: option.splits sum.splits py_exc.splits)

text \<open>The Cloud calls that only look at the status code.\<close>

definition status_checked :: "env \<Rightarrow> http_request \<Rightarrow> nat \<Rightarrow> rat \<Rightarrow> rat \<Rightarrow> (trace, unit) proc" where
  "status_checked E q m b d =
     andThen (or_cloud_error (call_with_retry E (call_http E q) transport_retryable m b d))
       (\<lambda>response. if status_code response \<noteq> 200 then unexpected_status response else ret ())"

lemma status_checked_run:
  assumes "status_checked E q m b d t = Some (r, t')" and "0 < m"
  shows "case r of
     Inr u \<Rightarrow> \<exists>es resp. t' = t @ es @ [HttpCall q (Inr resp)] \<and> status_code resp = 200
   | Inl (CloudClientError msg) \<Rightarrow> True
   | Inl e \<Rightarrow> \<not> is_http_error e"
proof -
  obtain x where run: "call_with_retry E (call_http E q) transport_retryable m b d t = Some (x, t')"
    and r: "case x of
       Inr resp \<Rightarrow> if status_code resp \<noteq> 200 then (\<exists>msg. r = Inl (CloudClientError msg)) else r = Inr ()
     | Inl e \<Rightarrow> if is_http_error e then (\<exists>msg. r = Inl (CloudClientError msg)) else r = Inl e"
    using assms(1)
    by (auto simp: status_checked_def andThen_def or_cloud_error_def tryExcept_def unexpected_status_def
        split: option.splits sum.splits if_splits)
  obtain eus final where t': "t' = t @ retry_events (HttpCall q) b d 0 eus @ final"
    "retry_outcome (HttpCall q) transport_retryable m (length eus) x final"
    using call_with_retry_run [OF single_call_http assms(2) run] by metis
  show ?thesis
  proof (cases x)
    case (Inr resp)
    with t' have "t' = t @ retry_events (HttpCall q) b d 0 eus @ [HttpCall q (Inr resp)]"
      by (auto simp: retry_outcome_def)
    with r Inr show ?thesis by (auto split: if_splits)
  next
    case (Inl e)
    with r show ?thesis by (cases e) auto
  qed
qed

lemma total_status_checked: "total_proc (status_checked E q m b d)"
  by (auto simp: status_checked_def intro!: total_andThen)

lemma status_checked_calls:
  "reconcile_device_resources E dev ids ips = status_checked E (post (devices_path dev ''/resources/reconcile'')
     (JObj [(''running_container_ids'', JArr (map JStr ids)),
       (''running_pod_ips'', JObj (map (\<lambda>(k, v). (k, JStr v)) ips))])) 3 (1 / 2) 5"
  "report_snapshot_result E dev cid sid st img dig err = status_checked E
     (post (container_path dev cid (''/snapshots/'' @ sid @ ''/report''))
       (JObj ([(''status'', JStr st)] @ opt_member ''image_reference'' img @
          opt_member ''registry_digest'' dig @ opt_member ''error_detail'' err))) 5 (1 / 2) 30"
  "update_container_kubernetes_id E dev cid kid = status_checked E
     (post (container_path dev cid ''/kubernetes-id'') (JObj [(''kubernetes_id'', JStr kid)])) 3 (1 / 2) 5"
  by (simp_all add: reconcile_device_resources_def report_snapshot_result_def
      update_container_kubernetes_id_def status_checked_def)

text \<open>An acknowledged call that Cloud confirmed, or a failure the caller sees.\<close>

definition honest_ack :: "http_request \<Rightarrow> agent \<Rightarrow> py_exc + bool \<Rightarrow> agent \<Rightarrow> bool" where
  "honest_ack q a r a' \<longleftrightarrow>
     (r = Inr True \<and> (\<exists>es resp. ag_trace a' = ag_trace a @ es @ [HttpCall q (Inr resp)] \<and> status_code resp = 200)) \<or>
     (\<exists>m. r = Inl (GrpcRpcError (Some UNAVAILABLE) m)) \<or>
     (\<exists>e. r = Inl e \<and> \<not> is_http_error e)"

lemma honest_ack_run:
  assumes "answered (status_checked E q m b d) (\<lambda>_. Inr True) a = Some (r, a')" and "0 < m"
  shows "honest_ack q a r a'"
proof -
  obtain x t where x: "status_checked E q m b d (ag_trace a) = Some (x, t)"
    using total_procD [OF total_status_checked] by blast
  note outcome = status_checked_run [OF x assms(2)]
  show ?thesis
  proof (cases x)
    case (Inr u)
    with x outcome assms(1) show ?thesis by (auto simp: answered_run honest_ack_def)
  next
    case (Inl e)
    with x outcome assms(1) show ?thesis by (cases e) (auto simp: answered_run honest_ack_def)
  qed
qed

section \<open>The properties of the local API\<close>

text \<open>
  C29: An \<open>Ack\<close> of the synchronous calls means Cloud said yes. Reconciling resources, reporting a snapshot
  result and updating a Kubernetes id answer \<open>ok\<close> only when the run ends in Cloud's answer 200 to
  exactly that request; otherwise the RPC is aborted with \<open>UNAVAILABLE\<close>, or an exception that is no HTTP
  error goes on.
\<close>

theorem ack_means_accepted:
  "(ReportSnapshotResult E dev q a = Some (r, a') \<longrightarrow>
      honest_ack (post (container_path dev (sn_container_id q) (''/snapshots/'' @ sn_snapshot_id q @ ''/report''))
        (JObj ([(''status'', JStr (sn_status q))] @ opt_member ''image_reference'' (or_none (sn_image_reference q)) @
          opt_member ''registry_digest'' (or_none (sn_registry_digest q)) @
          opt_member ''error_detail'' (or_none (sn_error_detail q))))) a r a') \<and>
   (UpdateContainerKubernetesId E dev cid kid a = Some (r, a') \<longrightarrow>
      honest_ack (post (container_path dev cid ''/kubernetes-id'') (JObj [(''kubernetes_id'', JStr kid)])) a r a') \<and>
   (ReconcileDeviceResources E dev ids ips a = Some (r, a') \<longrightarrow>
      honest_ack (post (devices_path dev ''/resources/reconcile'')
        (JObj [(''running_container_ids'', JArr (map JStr ids)),
          (''running_pod_ips'', JObj (map (\<lambda>(k, v). (k, JStr v)) ips))])) a r a')"
  unfolding ReportSnapshotResult_def UpdateContainerKubernetesId_def ReconcileDeviceResources_def
    status_checked_calls
  by (intro conjI impI) (rule honest_ack_run, assumption, rule zero_less_numeral)+

theorem ack_means_accepted_witness:
  "\<exists>r a'. UpdateContainerKubernetesId (demo_env JNull) ''dev-1'' ''c-1'' ''k-1'' idle_agent = Some (r, a') \<and>
     honest_ack (post (container_path ''dev-1'' ''c-1'' ''/kubernetes-id'')
       (JObj [(''kubernetes_id'', JStr ''k-1'')])) idle_agent r a'"
proof -
  have "\<exists>r a'. UpdateContainerKubernetesId (demo_env JNull) ''dev-1'' ''c-1'' ''k-1'' idle_agent = Some (r, a')"
    by (simp add: UpdateContainerKubernetesId_def status_checked_calls answered_run status_checked_def
        andThen_def or_cloud_error_def tryExcept_def call_with_retry_def call_http_def Let_def numeral_3_eq_3)
  with ack_means_accepted [of "demo_env JNull" "''dev-1''" _ idle_agent _ _ "''c-1''" "''k-1''"]
  show ?thesis by blast
qed

text \<open>
  A status report carries the generation this agent placed the container under. The event queued for
  Cloud decodes to the container, the observed status, the Kubernetes id or null, and the cached
  generation when the container is cached, the caller's otherwise; it is the last message queued and
  the RPC is acknowledged.
\<close>

lemma status_report_generation:
  assumes "ag_outbound a = Some queue" and "ag_cache a = Some c"
  shows "\<exists>text a'. ReportContainerStatus q a = Some (Inr True, a') \<and>
     ag_outbound a' = Some (queue @ [LocalEventMsg ''container_status_report'' text]) \<and>
     json_loads text = Inr (JObj [(''container_id'', JStr (sr_container_id q)),
       (''placement_generation'', JInt (case cache_get (sr_container_id q) c of
            Some (dev, gen) \<Rightarrow> gen | None \<Rightarrow> sr_placement_generation q)),
       (''observed_status'', JStr (sr_observed_status q)),
       (''kubernetes_id'', if sr_kubernetes_id q = [] then JNull else JStr (sr_kubernetes_id q))])"
proof -
  let ?v = "status_payload (generation_of_report (ag_cache a) q) q"
  have "json_loads (json_dumps ?v) = Inr ?v"
    by (rule json_loads_dumps) (simp add: status_payload_def or_none_def)
  with assms show ?thesis
    by (intro exI [of _ "json_dumps ?v"])
      (simp add: ReportContainerStatus_def send_local_event_def andThen_def send_run generation_of_report_def
        status_payload_def or_none_def del: json_dumps.simps)
qed

text \<open>
  Allocating a snapshot needs a tag. When Cloud answers an allocation with the shape the client documents,
  an object without \<open>image_tag\<close>, the RPC ends in a \<open>KeyError\<close>, not in a response or an abort.
\<close>

lemma allocation_needs_tag:
  assumes "allocate_snapshot E dev cid rid (ag_trace a) = Some (Inr (JObj kvs), t')"
    and "map_of kvs ''image_tag'' = None"
    and "\<forall>k \<in> {''id'', ''version_sequence'', ''version'', ''image_repository'', ''status''}. map_of kvs k \<noteq> None"
  shows "\<exists>a'. AllocateSnapshot E dev cid rid a = Some (Inl (KeyError ''image_tag''), a')"
  using assms by (auto simp: AllocateSnapshot_def answered_run allocation_of_def)

definition demo_snapshot :: "(string \<times> json) list" where
  "demo_snapshot = [(''id'', JStr ''s-1''), (''version_sequence'', JInt 1), (''version'', JStr ''v1''),
     (''image_repository'', JStr ''reg/app''), (''status'', JStr ''Pending'')]"

end
