(* ===== verification/Delivery.thy ===== *)
theory Delivery
  imports Wiring Stream_Steps Local_Api
begin

text \<open>
  The whole path of a command: the control stream of \<open>Control_Stream\<close> with the callback of \<open>main.py\<close>, the
  executor with the registered handlers, and the report over HTTP.
\<close>

definition on_execute_command :: "env \<Rightarrow> config \<Rightarrow> string \<Rightarrow> command_callback" where
  "on_execute_command E C dev cid cmd = execute E (main_handlers E C dev) (report_result E dev) cid cmd"

text \<open>The inbound loop \<open>async for message in call\<close>, for the messages of one connection.\<close>

definition receive :: "env \<Rightarrow> config \<Rightarrow> string \<Rightarrow> cloud_message \<Rightarrow> (agent, unit) proc" where
  "receive E C dev msg = handle_inbound E (on_execute_command E C dev) msg"

section \<open>One message\<close>

text \<open>
  What receiving a command comes to: nothing, the error of a disk that does not answer, or its execution in the
  state that accepted it.
\<close>

lemma receive_command_cases:
  assumes "receive E C dev (ExecuteCommandMsg cmd) a = Some (r, a')"
  obtains (ignored) "has_terminal_result (command_id cmd) (ag_journal a)" and "r = Inr ()" and "a' = a"
  | (refused) us e where "r = Inl e" and "disk_failure E e" and "a' = a\<lparr>ag_trace := ag_trace a @ map ReadUtc us\<rparr>"
  | (run) "\<not> has_terminal_result (command_id cmd) (ag_journal a)"
      and "execute E (main_handlers E C dev) (report_result E dev) (command_id cmd) cmd (accepting_agent E cmd a) =
        Some (r, a')"
proof (cases "has_terminal_result (command_id cmd) (ag_journal a)")
  case True
  from assms duplicate_ignored [OF True, where E = E and callback = "on_execute_command E C dev"]
  have r: "r = (case disk_error E (ag_trace a) of None \<Rightarrow> Inr () | Some m \<Rightarrow> Inl (OtherException m))" "a' = a"
    unfolding receive_def by simp_all
  show thesis
  proof (cases "disk_error E (ag_trace a)")
    case None
    with r show thesis by (intro ignored [OF True]) simp_all
  next
    case (Some m)
    with r show thesis by (intro refused [where us = "[]" and e = "OtherException m"]) (auto simp: disk_failure_def)
  qed
next
  case False
  from assms [unfolded receive_def] False show thesis
    by (cases rule: handle_command_cases) (use False refused run in \<open>auto simp: on_execute_command_def\<close>)
qed

text \<open>The accepted command has no result yet.\<close>

lemma accepting_agent_unfinished:
  "\<not> has_terminal_result cid (ag_journal a) \<Longrightarrow> \<not> has_terminal_result cid (ag_journal (accepting_agent E cmd a))"
  unfolding accepting_agent_journal
  by (auto simp: has_terminal_result_def record_accepted_def accepted_row_def)

section \<open>The properties of delivery\<close>

text \<open>A delivery that ends normally has left a result.\<close>

lemma receive_finishes:
  assumes "receive E C dev (ExecuteCommandMsg cmd) a = Some (Inr (), a')" and "journal_ok (ag_journal a)"
  shows "has_terminal_result (command_id cmd) (ag_journal a')"
  using assms(1)
proof (cases rule: receive_command_cases)
  case run
  from run(2) accepting_agent_ok [OF assms(2)] accepting_agent_unfinished [OF run(1)] disjI2 [OF accepting_agent_seen]
  show ?thesis by (cases rule: executed_result) (use get_entry_terminal in auto)
qed simp_all

text \<open>
  C13: A delivered command is executed until it has a result, and then never again. If receiving a command
  ends normally, the journal has its result, and receiving the same command id again changes nothing and
  does nothing, whether it ends quietly or in the error of a disk that cannot be read.
\<close>

theorem executed_once:
  assumes "receive E C dev (ExecuteCommandMsg cmd) a = Some (Inr (), a')" and "journal_ok (ag_journal a)"
    and "command_id cmd' = command_id cmd"
  shows "has_terminal_result (command_id cmd) (ag_journal a') \<and>
     (\<exists>r. receive E C dev (ExecuteCommandMsg cmd') a' = Some (r, a') \<and>
       (\<forall>e. r = Inl e \<longrightarrow> disk_failure E e))"
proof
  show finished: "has_terminal_result (command_id cmd) (ag_journal a')" using assms(1,2) by (rule receive_finishes)
  with assms(3) have "has_terminal_result (command_id cmd') (ag_journal a')" by simp
  from duplicate_ignored [OF this, where E = E and callback = "on_execute_command E C dev"]
  show "\<exists>r. receive E C dev (ExecuteCommandMsg cmd') a' = Some (r, a') \<and> (\<forall>e. r = Inl e \<longrightarrow> disk_failure E e)"
    by (auto simp: receive_def disk_failure_def simp del: handle_inbound.simps split: option.splits)
qed

text \<open>A command without a handler, delivered to an agent that can report.\<close>

lemma demo_delivery:
  "\<exists>a'. receive (demo_env JNull) default_config ''dev-1''
     (ExecuteCommandMsg (demo_command COMMAND_OPERATION_RECONCILE JNull)) demo_agent = Some (Inr (), a')"
proof -
  have "\<not> has_terminal_result (command_id (demo_command COMMAND_OPERATION_RECONCILE JNull)) (ag_journal demo_agent)"
    by (simp add: demo_agent_def has_terminal_result_def)
  note run = handle_command_run [OF this]
  have "\<exists>a'. report_result (demo_env JNull) ''dev-1'' ''cmd-1'' Failed 3 None (Some ''NO_HANDLER'') em b = Some (Inr (), a')"
    for em b
    by (simp add: report_result_def report_command_result_def andThen_def catching_run tryExcept_def call_with_retry_def
        call_http_def Let_def on_trace_run numeral_nat write_journal_works)
  then show ?thesis
    unfolding receive_def run on_execute_command_def
    by (auto simp: execute_def main_handlers_def register_def finish_command_works Let_def)
qed

theorem executed_once_witness:
  "\<exists>a'. receive (demo_env JNull) default_config ''dev-1''
       (ExecuteCommandMsg (demo_command COMMAND_OPERATION_RECONCILE JNull)) demo_agent = Some (Inr (), a') \<and>
     receive (demo_env JNull) default_config ''dev-1''
       (ExecuteCommandMsg (demo_command COMMAND_OPERATION_CREATE JNull)) a' = Some (Inr (), a')"
proof -
  obtain a' where run: "receive (demo_env JNull) default_config ''dev-1''
       (ExecuteCommandMsg (demo_command COMMAND_OPERATION_RECONCILE JNull)) demo_agent = Some (Inr (), a')"
    using demo_delivery by blast
  have "journal_ok (ag_journal demo_agent)" by (simp add: demo_agent_def)
  from executed_once [OF run this, of "demo_command COMMAND_OPERATION_CREATE JNull"]
  obtain r where r: "receive (demo_env JNull) default_config ''dev-1''
       (ExecuteCommandMsg (demo_command COMMAND_OPERATION_CREATE JNull)) a' = Some (r, a')"
    "\<And>e. r = Inl e \<Longrightarrow> disk_failure (demo_env JNull) e" by auto
  with disk_works_never [OF demo_disk] have "r = Inr ()" by (cases r) auto
  with run r(1) show ?thesis by blast
qed

end
