(* ===== verification/Lifecycle.thy ===== *)
theory Lifecycle
  imports Delivery
begin

text \<open>
  The promise of the whole agent as an abstract machine, and the proof that the agent implements it. The
  machine knows of every command only its generation, its outcome and whether Cloud has it; the agent's
  steps are inbound messages, handled at once or write by write with anything else in between, everything
  else that happens on a connection, and the death and restart of the process at any moment.
\<close>

section \<open>The abstract machine\<close>

datatype outcome =
    Success "string option"
  | Failure "string option" "string option"

record life =
  lf_generation :: int
  lf_outcome :: "outcome option"
  lf_reported :: bool

text \<open>The commands, and those the current connection will confirm.\<close>

type_synonym lifecycle = "(string \<Rightarrow> life option) \<times> string set"

definition confirm :: "string set \<Rightarrow> (string \<Rightarrow> life option) \<Rightarrow> string \<Rightarrow> life option" where
  "confirm P L = (\<lambda>cid. if cid \<in> P then map_option (\<lambda>l. l\<lparr>lf_reported := True\<rparr>) (L cid) else L cid)"

text \<open>The commands with an outcome that Cloud does not have.\<close>

definition owed :: "(string \<Rightarrow> life option) \<Rightarrow> string set" where
  "owed L = {cid. \<exists>l. L cid = Some l \<and> lf_outcome l \<noteq> None \<and> \<not> lf_reported l}"

inductive life_step :: "lifecycle \<Rightarrow> lifecycle \<Rightarrow> bool" where
  idle: "life_step S S"
| work: "(\<And>l. L cid = Some l \<Longrightarrow> lf_outcome l = None \<and> lf_generation l = lf_generation l') \<Longrightarrow>
    (lf_reported l' \<Longrightarrow> lf_outcome l' \<noteq> None) \<Longrightarrow> life_step (L, P) (L(cid \<mapsto> l'), P)"
| told: "L cid = Some l \<Longrightarrow> lf_outcome l \<noteq> None \<Longrightarrow> life_step (L, P) (L(cid \<mapsto> l\<lparr>lf_reported := True\<rparr>), P)"
| confirmed: "life_step (L, P) (confirm P L, {})"
| partly_confirmed: "Q \<subseteq> P \<Longrightarrow> life_step (L, P) (confirm Q L, P)"
| batch_built: "life_step (L, P) (L, owed L)"
| forgotten: "life_step (L, P) (L, {})"

inductive_cases life_stepE: "life_step S S'"

text \<open>What no step of the machine changes.\<close>

definition advanced :: "life \<Rightarrow> life \<Rightarrow> bool" where
  "advanced l l' \<longleftrightarrow> lf_generation l' = lf_generation l \<and> (lf_outcome l \<noteq> None \<longrightarrow> lf_outcome l' = lf_outcome l)"

lemma life_step_advances:
  assumes "life_step S S'" and "fst S cid = Some l"
  shows "\<exists>l'. fst S' cid = Some l' \<and> advanced l l'"
  using assms by (elim life_stepE) (auto simp: advanced_def confirm_def)

lemma life_steps_advance:
  assumes "life_step\<^sup>*\<^sup>* S S'" and "fst S cid = Some l"
  shows "\<exists>l'. fst S' cid = Some l' \<and> advanced l l'"
  using assms
proof (induction rule: rtranclp_induct)
  case base
  then show ?case by (auto simp: advanced_def)
next
  case (step S1 S2)
  then obtain l1 where l1: "fst S1 cid = Some l1" "advanced l l1" by blast
  with life_step_advances [OF step.hyps(2)] obtain l2 where "fst S2 cid = Some l2" "advanced l1 l2" by blast
  with l1(2) show ?case by (auto simp: advanced_def)
qed

section \<open>The steps of the agent\<close>

text \<open>
  The writes of one command's execution before it is reported: accepted, running, a result, and a second
  result when reporting the first raised. As steps of their own (\<open>working\<close>, and \<open>marked\<close> after an acknowledged
  report) other tasks run between them, and the process can be killed there; only the second result
  follows the first without a pause.
\<close>

inductive writes_of :: "execute_command \<Rightarrow> journal \<Rightarrow> journal \<Rightarrow> bool" for cmd j where
  none_yet: "writes_of cmd j j"
| accepted: "writes_of cmd j j' \<Longrightarrow> writes_of cmd j (record_accepted now (command_id cmd)
    (operation_name (operation cmd)) (placement_generation cmd) j')"
| started: "writes_of cmd j j' \<Longrightarrow> \<not> has_terminal_result (command_id cmd) j' \<Longrightarrow>
    writes_of cmd j (record_running now (command_id cmd) j')"
| finished: "writes_of cmd j j' \<Longrightarrow> proper_result s res ec em \<Longrightarrow>
    writes_of cmd j (record_result now (command_id cmd) s res ec em j')"

definition restarted :: "agent \<Rightarrow> agent" where
  "restarted a = a\<lparr>ag_cache := Some cache_empty, ag_outbound := None, ag_pending := [], ag_stopped := False\<rparr>"

inductive agent_step :: "env \<Rightarrow> config \<Rightarrow> string \<Rightarrow> agent \<Rightarrow> agent \<Rightarrow> bool" for E C dev where
  inbound_message: "receive E C dev msg a = Some (r, a') \<Longrightarrow> agent_step E C dev a a'"
| killed: "agent_step E C dev a (restarted a)"
| working: "\<not> has_terminal_result (command_id cmd) (ag_journal a) \<Longrightarrow> writes_of cmd (ag_journal a) j \<Longrightarrow>
    agent_step E C dev a (a\<lparr>ag_journal := j, ag_cache := c\<rparr>)"
| marked: "get_entry cid (ag_journal a) = Some q \<Longrightarrow> terminal (je_status q) \<Longrightarrow> holds (je_status q) res ec em q \<Longrightarrow>
    acknowledged dev cid (je_status q) res ec em gen (ag_trace a) \<Longrightarrow>
    agent_step E C dev a (a\<lparr>ag_journal := mark_reported now cid (ag_journal a)\<rparr>)"
| connected: "agent_step E C dev a (a\<lparr>ag_outbound := Some []\<rparr>)"
| batch_read: "agent_step E C dev a
    (a\<lparr>ag_pending := map je_command_id (unreported_terminal_entries (ag_journal a))\<rparr>)"
| message_queued: "send m a = Some (r, a') \<Longrightarrow> agent_step E C dev a a'"
| message_taken: "ag_outbound a = Some (m # q) \<Longrightarrow> agent_step E C dev a (a\<lparr>ag_outbound := Some q\<rparr>)"
| outside_calls: "agent_step E C dev a (a\<lparr>ag_trace := ag_trace a @ es\<rparr>)"
| stopping: "agent_step E C dev a (stop a)"

section \<open>Well-formed agents\<close>

text \<open>
  A row that is not finished has no result, code or message and is not reported; a finished one has the
  fields of its status; a result is the JSON text of a value.
\<close>

definition row_ok :: "journal_row \<Rightarrow> bool" where
  "row_ok q \<longleftrightarrow> (case je_status q of
       Succeeded \<Rightarrow> je_error_code q = None \<and> je_error_message q = None
     | Failed \<Rightarrow> je_result_json q = None \<and> je_error_code q \<noteq> None
     | _ \<Rightarrow> je_result_json q = None \<and> je_error_code q = None \<and> je_error_message q = None \<and>
         \<not> je_reported_to_cloud q) \<and>
     (\<exists>v. je_result_json q = map_option json_dumps v)"

definition rows_ok :: "journal \<Rightarrow> bool" where
  "rows_ok j \<longleftrightarrow> journal_ok j \<and> (\<forall>k q. get_entry k j = Some q \<longrightarrow> row_ok q)"

definition well_formed :: "agent \<Rightarrow> bool" where
  "well_formed a \<longleftrightarrow> rows_ok (ag_journal a) \<and>
     (\<forall>cid \<in> set (ag_pending a). has_terminal_result cid (ag_journal a))"

text \<open>A command that may still be worked on.\<close>

definition unfinished :: "string \<Rightarrow> journal \<Rightarrow> bool" where
  "unfinished cid j \<longleftrightarrow> rows_ok j \<and> \<not> has_terminal_result cid j"

lemma unfinished_row: "unfinished cid j \<Longrightarrow> get_entry cid j = Some q \<Longrightarrow> \<not> terminal (je_status q) \<and> row_ok q"
  by (auto simp: unfinished_def rows_ok_def has_terminal_get)

lemma row_ok_accepted [simp]: "row_ok (accepted_row now cid op gen)"
  by (simp add: row_ok_def accepted_row_def)

lemma row_ok_running: "\<not> terminal (je_status q) \<Longrightarrow> row_ok q \<Longrightarrow> row_ok (set_status now Running q)"
  by (cases "je_status q") (auto simp: row_ok_def set_status_def)

lemma row_ok_result: "proper_result s res ec em \<Longrightarrow> row_ok (set_result now s res ec em q)"
  by (auto simp: row_ok_def set_result_def proper_result_def)

lemma row_ok_reported: "terminal (je_status q) \<Longrightarrow> row_ok q \<Longrightarrow> row_ok (set_reported now q)"
  by (cases "je_status q") (simp_all add: row_ok_def set_reported_def)

lemma rows_ok_accepted: "rows_ok j \<Longrightarrow> rows_ok (record_accepted now cid op gen j)"
  by (auto simp: rows_ok_def journal_ok_accepted get_entry_accepted split: if_splits)

lemma rows_ok_running: "unfinished cid j \<Longrightarrow> rows_ok (record_running now cid j)"
  using unfinished_row [of cid j]
  by (auto simp: unfinished_def rows_ok_def journal_ok_running get_entry_running intro: row_ok_running split: if_splits)

lemma rows_ok_result: "proper_result s res ec em \<Longrightarrow> rows_ok j \<Longrightarrow> rows_ok (record_result now cid s res ec em j)"
  by (auto simp: rows_ok_def journal_ok_result get_entry_result intro: row_ok_result split: if_splits)

lemma rows_ok_reported:
  "(\<And>q. get_entry cid j = Some q \<Longrightarrow> terminal (je_status q)) \<Longrightarrow> rows_ok j \<Longrightarrow> rows_ok (mark_reported now cid j)"
  by (auto simp: rows_ok_def journal_ok_reported get_entry_reported intro: row_ok_reported split: if_splits)

lemma unfinished_accepted: "unfinished cid j \<Longrightarrow> unfinished cid (record_accepted now cid op gen j)"
  using rows_ok_accepted [of j now cid op gen]
  by (auto simp: unfinished_def has_terminal_result_def record_accepted_def accepted_row_def)


lemma unfinished_running: "unfinished cid j \<Longrightarrow> unfinished cid (record_running now cid j)"
  using rows_ok_running [of cid j now]
  by (auto simp: unfinished_def has_terminal_get rows_ok_def get_entry_running) (auto simp: set_status_def)

section \<open>Executing keeps the agent well-formed\<close>

lemma finish_rows_ok:
  assumes "proper_result s res ec em"
  shows "keeps (\<lambda>a. rows_ok (ag_journal a)) (finish_command F (report_result E dev) cid s gen res ec em)"
proof (rule keepsI)
  fix a :: agent and r a'
  assume "finish_command F (report_result E dev) cid s gen res ec em a = Some (r, a')" and a: "rows_ok (ag_journal a)"
  then show "rows_ok (ag_journal a')"
  proof (cases rule: finish_cases)
    case (recorded now)
    let ?j = "record_result now cid s res ec em (ag_journal a)"
    have j: "rows_ok ?j" using rows_ok_result [OF assms a] .
    have fin: "terminal (je_status q)" if "get_entry cid ?j = Some q" for q
      using that assms by (auto simp: get_entry_result proper_result_def set_result_def)
    from recorded show ?thesis
    proof (cases rule: report_result_cases)
      case unmarked
      with j show ?thesis by simp
    next
      case (marked now')
      with rows_ok_reported [OF fin j] show ?thesis by simp
    qed
  qed (use a in simp)
qed

lemma finish_pending:
  "keeps (\<lambda>a. ag_pending a = P) (finish_command F (report_result E dev) cid s gen res ec em)"
proof (rule keepsI)
  fix a :: agent and r a'
  assume "finish_command F (report_result E dev) cid s gen res ec em a = Some (r, a')" and P: "ag_pending a = P"
  then show "ag_pending a' = P"
  proof (cases rule: finish_cases)
    case (recorded now)
    from recorded show ?thesis by (cases rule: report_result_cases) (use P in simp_all)
  qed (use P in simp)
qed

text \<open>The row of the command, once there, stays the row of the same command.\<close>

definition still :: "string \<Rightarrow> journal_row option \<Rightarrow> agent \<Rightarrow> bool" where
  "still cid q0 a \<longleftrightarrow> (\<forall>q. q0 = Some q \<longrightarrow> (\<exists>q'. get_entry cid (ag_journal a) = Some q' \<and> same_command q q'))"

lemma finish_still:
  "keeps (still cid q0) (finish_command F (report_result E dev) cid s gen res ec em)"
proof (rule keepsI)
  fix a :: agent and r a'
  assume run: "finish_command F (report_result E dev) cid s gen res ec em a = Some (r, a')" and a: "still cid q0 a"
  show "still cid q0 a'"
    unfolding still_def
  proof (intro allI impI)
    fix q
    assume "q0 = Some q"
    with a obtain q1 where q1: "get_entry cid (ag_journal a) = Some q1" "same_command q q1"
      by (auto simp: still_def)
    from run show "\<exists>q'. get_entry cid (ag_journal a') = Some q' \<and> same_command q q'"
    proof (cases rule: finish_cases)
      case (recorded now)
      let ?q = "set_result now s res ec em q1"
      have "get_entry cid (record_result now cid s res ec em (ag_journal a)) = Some ?q"
        using q1 by (simp add: get_entry_result)
      with main_reporter.report_keeps_row [OF recorded, of cid ?q] obtain q' where
        "get_entry cid (ag_journal a') = Some q'" "same_result ?q q'" by auto
      moreover have "same_command q ?q"
        by (rule same_command_trans [OF q1(2) same_command_setters(2)])
      ultimately show ?thesis
        unfolding same_result_def using same_command_trans by blast
    qed (use q1 in auto)
  qed
qed

interpretation rows_kept: reporter_invariant "report_result E dev" "\<lambda>a. rows_ok (ag_journal a)" cid for E dev cid
  by unfold_locales (simp_all add: finish_rows_ok)

interpretation pending_kept: reporter_invariant "report_result E dev" "\<lambda>a. ag_pending a = P" cid for E dev P cid
  by unfold_locales (simp_all add: finish_pending)

interpretation still_kept: reporter_invariant "report_result E dev" "still cid q0" cid for E dev q0 cid
  by unfold_locales (simp_all add: finish_still still_def)

text \<open>What one execution does to the journal, from a row that is not finished.\<close>

lemma execute_unfinished:
  assumes run: "execute E H (report_result E' dev) cid cmd a = Some (r, a')"
    and "unfinished cid (ag_journal a)"
  shows "rows_ok (ag_journal a')" and "ag_pending a' = ag_pending a"
    and "still cid (get_entry cid (ag_journal a)) a'"
proof -
  show "rows_ok (ag_journal a')"
    by (rule rows_kept.execute_inv [OF run, where pre = "\<lambda>b. unfinished cid (ag_journal b)"])
      (use assms(2) in \<open>simp_all add: unfinished_accepted rows_ok_running\<close>, simp add: unfinished_def)
  show "ag_pending a' = ag_pending a"
    by (rule pending_kept.execute_inv [OF run, where pre = "\<lambda>b. ag_pending b = ag_pending a"]) simp_all
  let ?pre = "still cid (get_entry cid (ag_journal a))"
  have "?pre (b\<lparr>ag_journal := record_accepted now cid op gen (ag_journal b)\<rparr>)"
    "?pre (b\<lparr>ag_journal := record_running now cid (ag_journal b)\<rparr>)" if "?pre b" for b now op gen
    using that same_command_trans same_command_setters(1)
    by (auto simp: still_def get_entry_accepted get_entry_running)
  then show "?pre a'"
    by (intro still_kept.execute_inv [OF run, where pre = ?pre]) (simp_all add: still_def)
qed

section \<open>The simulation\<close>

definition outcome_of :: "journal_row \<Rightarrow> outcome option" where
  "outcome_of q = (case je_status q of
       Succeeded \<Rightarrow> Some (Success (je_result_json q))
     | Failed \<Rightarrow> Some (Failure (je_error_code q) (je_error_message q))
     | _ \<Rightarrow> None)"

definition life_of :: "journal_row \<Rightarrow> life" where
  "life_of q = \<lparr>lf_generation = je_placement_generation q, lf_outcome = outcome_of q,
     lf_reported = je_reported_to_cloud q\<rparr>"

definition lives :: "journal \<Rightarrow> string \<Rightarrow> life option" where
  "lives j = (\<lambda>cid. map_option life_of (get_entry cid j))"

definition abs_agent :: "agent \<Rightarrow> lifecycle" where
  "abs_agent a = (lives (ag_journal a), set (ag_pending a))"

lemma outcome_terminal: "outcome_of q \<noteq> None \<longleftrightarrow> terminal (je_status q)"
  by (cases "je_status q") (simp_all add: outcome_of_def)

lemma reported_finished: "row_ok q \<Longrightarrow> je_reported_to_cloud q \<Longrightarrow> outcome_of q \<noteq> None"
  by (cases "je_status q") (simp_all add: row_ok_def outcome_of_def)

lemma life_of_reported: "life_of (set_reported now q) = (life_of q)\<lparr>lf_reported := True\<rparr>"
  by (cases "je_status q") (simp_all add: life_of_def set_reported_def outcome_of_def)

lemma lives_reported: "lives (mark_reported now cid j) = confirm {cid} (lives j)"
  by (auto simp: lives_def confirm_def fun_eq_iff get_entry_reported option.map_comp comp_def life_of_reported)

lemma confirm_confirm: "confirm P (confirm Q L) = confirm (Q \<union> P) L"
  by (auto simp: confirm_def fun_eq_iff option.map_comp comp_def)

lemma lives_marks: "lives (marks ms j) = confirm (snd ` set ms) (lives j)"
proof (induction ms arbitrary: j)
  case Nil
  then show ?case by (simp add: confirm_def)
qed (simp add: lives_reported confirm_confirm)

text \<open>Work on one unfinished command, seen by the machine.\<close>

lemma work_step:
  assumes "unfinished cid j" and "rows_ok j'"
    and "get_entry cid j' = Some q'" and "\<And>q. get_entry cid j = Some q \<Longrightarrow> same_command q q'"
    and "\<And>k. k \<noteq> cid \<Longrightarrow> get_entry k j' = get_entry k j"
  shows "life_step (lives j, P) (lives j', P)"
proof -
  have "life_step (lives j, P) ((lives j)(cid \<mapsto> life_of q'), P)"
  proof (rule work)
    fix l
    assume "lives j cid = Some l"
    then obtain q where q: "get_entry cid j = Some q" "l = life_of q" by (auto simp: lives_def)
    with unfinished_row [OF assms(1) q(1)] outcome_terminal [of q] assms(4) [OF q(1)]
    show "lf_outcome l = None \<and> lf_generation l = lf_generation (life_of q')"
      by (auto simp: life_of_def same_command_def)
  next
    assume "lf_reported (life_of q')"
    with reported_finished [of q'] assms(2,3) show "lf_outcome (life_of q') \<noteq> None"
      by (auto simp: life_of_def rows_ok_def)
  qed
  moreover have "lives j' = (lives j)(cid \<mapsto> life_of q')"
    using assms(3,5) by (auto simp: lives_def fun_eq_iff)
  ultimately show ?thesis by simp
qed

lemma terminal_reported: "rows_ok j \<Longrightarrow> has_terminal_result k (mark_reported now cid j) \<longleftrightarrow> has_terminal_result k j"
  by (auto simp: rows_ok_def has_terminal_get journal_ok_reported get_entry_reported)
    (auto simp: set_reported_def)

lemma marks_rows_ok:
  "rows_ok j \<Longrightarrow> \<forall>cid \<in> snd ` set ms. has_terminal_result cid j \<Longrightarrow>
    rows_ok (marks ms j) \<and> (\<forall>k. has_terminal_result k (marks ms j) \<longleftrightarrow> has_terminal_result k j)"
proof (induction ms arbitrary: j)
  case (Cons m ms)
  have "rows_ok (mark_reported (fst m) (snd m) j)"
    using rows_ok_reported [of "snd m" j "fst m"] Cons.prems by (auto simp: rows_ok_def has_terminal_get)
  with Cons show ?case by (simp add: terminal_reported)
qed simp

text \<open>One inbound message.\<close>

lemma hello_simulated:
  assumes "receive E C dev (HelloAccepted gen reconcile) a = Some (r, a')" and "well_formed a"
  shows "well_formed a' \<and> life_step (abs_agent a) (abs_agent a')"
  using assms(1) [unfolded receive_def]
proof (cases rule: hello_accepted_cases)
  case (confirmed ms us)
  have ids: "snd ` set ms = set (ag_pending a)" using arg_cong [OF confirmed(2), of set] by simp
  with marks_rows_ok [of "ag_journal a" ms] assms(2) have "rows_ok (marks ms (ag_journal a))"
    by (simp add: well_formed_def)
  then show ?thesis
    using life_step.confirmed [of "lives (ag_journal a)" "set (ag_pending a)"] ids
    by (simp add: confirmed(3) well_formed_def abs_agent_def lives_marks)
next
  case (refused e ms us)
  have ids: "snd ` set ms \<subseteq> set (ag_pending a)" using refused(3) by simp
  with assms(2) have "\<forall>cid \<in> snd ` set ms. has_terminal_result cid (ag_journal a)" by (auto simp: well_formed_def)
  with marks_rows_ok [of "ag_journal a" ms] assms(2) have "well_formed a'" by (simp add: refused(4) well_formed_def)
  then show ?thesis
    using partly_confirmed [OF ids, of "lives (ag_journal a)"] by (simp add: refused(4) abs_agent_def lives_marks)
qed

lemma command_simulated:
  assumes run: "receive E C dev (ExecuteCommandMsg cmd) a = Some (r, a')" and wf: "well_formed a"
  shows "well_formed a' \<and> life_step (abs_agent a) (abs_agent a')"
  using run
proof (cases rule: receive_command_cases)
  case ignored
  with wf show ?thesis by (simp add: idle)
next
  case (refused now e)
  with wf show ?thesis by (simp add: well_formed_def abs_agent_def idle)
next
  case run
  note False = run(1) and exec = run(2)
  let ?cid = "command_id cmd" and ?b = "accepting_agent E cmd a"
  have open_: "unfinished ?cid (ag_journal a)" using wf False by (simp add: well_formed_def unfinished_def)
  then have b: "unfinished ?cid (ag_journal ?b)" unfolding accepting_agent_journal by (rule unfinished_accepted)
  have ok: "rows_ok (ag_journal a')" and pend: "ag_pending a' = ag_pending ?b"
    and row: "still ?cid (get_entry ?cid (ag_journal ?b)) a'"
    using execute_unfinished [OF exec b] by simp_all
  have frame: "get_entry k (ag_journal a') = get_entry k (ag_journal a)" if "k \<noteq> ?cid" for k
    using main_reporter.execute_frame [OF exec that] accepting_agent_frame [OF that] by simp
  obtain q0 where q0: "get_entry ?cid (ag_journal ?b) = Some q0"
    using accepting_agent_seen [of cmd E a] by (auto simp: has_seen_get)
  with row obtain q' where q': "get_entry ?cid (ag_journal a') = Some q'" "same_command q0 q'"
    by (auto simp: still_def)
  have "same_command q q'" if "get_entry ?cid (ag_journal a) = Some q" for q
    using that q0 q'(2) by (simp add: accepting_agent_journal get_entry_accepted)
  from work_step [OF open_ ok q'(1) this frame]
  have "life_step (lives (ag_journal a), set (ag_pending a)) (lives (ag_journal a'), set (ag_pending a))" .
  moreover have "ag_pending a' = ag_pending a" using pend by (simp add: accepting_agent_def Let_def)
  moreover have "has_terminal_result k (ag_journal a')" if "k \<in> set (ag_pending a)" for k
  proof -
    have "has_terminal_result k (ag_journal a)" using wf that by (simp add: well_formed_def)
    moreover from this False have "k \<noteq> ?cid" by auto
    ultimately show ?thesis
      using ok wf frame by (simp add: rows_ok_def well_formed_def has_terminal_get)
  qed
  ultimately show ?thesis using ok by (simp add: well_formed_def abs_agent_def)
qed

lemma inbound_simulated:
  assumes "receive E C dev msg a = Some (r, a')" and "well_formed a"
  shows "well_formed a' \<and> life_step (abs_agent a) (abs_agent a')"
proof (cases msg)
  case (HelloAccepted gen reconcile)
  with assms hello_simulated show ?thesis by blast
next
  case (ExecuteCommandMsg cmd)
  with assms command_simulated show ?thesis by blast
qed (use assms in \<open>auto simp: receive_def send_run well_formed_def abs_agent_def idle\<close>)

text \<open>The writes of an execution as steps of their own.\<close>

lemma same_command_then:
  "same_command q q' \<Longrightarrow> same_command q (set_status now s q')"
  "same_command q q' \<Longrightarrow> same_command q (set_result now s res ec em q')"
  by (simp_all add: same_command_def set_status_def set_result_def)

lemma writes_of_unfinished:
  assumes "writes_of cmd j j'" and "unfinished (command_id cmd) j"
  shows "rows_ok j' \<and> (\<forall>k. k \<noteq> command_id cmd \<longrightarrow> get_entry k j' = get_entry k j) \<and>
     (\<forall>q. get_entry (command_id cmd) j = Some q \<longrightarrow>
        (\<exists>q'. get_entry (command_id cmd) j' = Some q' \<and> same_command q q'))"
  using assms(1)
proof induction
  case none_yet
  then show ?case using assms(2) by (auto simp: unfinished_def)
next
  case (accepted j' now)
  then show ?case by (auto simp: rows_ok_accepted get_entry_accepted)
next
  case (started j' now)
  then have "rows_ok (record_running now (command_id cmd) j')"
    by (intro rows_ok_running) (simp add: unfinished_def)
  with started.IH show ?case
    using same_command_then(1) by (auto simp: get_entry_running)
next
  case (finished j' s res ec em now)
  then show ?case using same_command_then(2) by (auto simp: rows_ok_result get_entry_result)
qed

lemma writes_keep_terminal:
  assumes "writes_of cmd j j'" and "unfinished (command_id cmd) j" and "has_terminal_result k j"
  shows "has_terminal_result k j'"
proof -
  note writes = writes_of_unfinished [OF assms(1,2)]
  have "k \<noteq> command_id cmd" using assms(2,3) by (auto simp: unfinished_def)
  with writes assms(2,3) show ?thesis by (simp add: unfinished_def rows_ok_def has_terminal_get)
qed

lemma working_simulated:
  assumes "\<not> has_terminal_result (command_id cmd) (ag_journal a)" and "writes_of cmd (ag_journal a) j"
    and "well_formed a"
  shows "well_formed (a\<lparr>ag_journal := j, ag_cache := c\<rparr>) \<and>
     life_step (abs_agent a) (abs_agent (a\<lparr>ag_journal := j, ag_cache := c\<rparr>))"
proof -
  let ?cid = "command_id cmd"
  have open_: "unfinished ?cid (ag_journal a)"
    using assms(1,3) by (simp add: well_formed_def unfinished_def)
  have j: "rows_ok j" "\<And>k. k \<noteq> ?cid \<Longrightarrow> get_entry k j = get_entry k (ag_journal a)"
    "\<And>q. get_entry ?cid (ag_journal a) = Some q \<Longrightarrow> \<exists>q'. get_entry ?cid j = Some q' \<and> same_command q q'"
    using writes_of_unfinished [OF assms(2) open_] by simp_all
  have "life_step (lives (ag_journal a), set (ag_pending a)) (lives j, set (ag_pending a))"
  proof (cases "get_entry ?cid j")
    case None
    with j(2,3) have "get_entry k j = get_entry k (ag_journal a)" for k
      by (cases "k = ?cid"; cases "get_entry k (ag_journal a)") auto
    then have "lives j = lives (ag_journal a)" by (simp add: lives_def)
    then show ?thesis by (simp add: idle)
  next
    case (Some q')
    with j(3) have "same_command q q'" if "get_entry ?cid (ag_journal a) = Some q" for q
      using that by fastforce
    from work_step [OF open_ j(1) Some this j(2)] show ?thesis .
  qed
  moreover have "\<forall>cid \<in> set (ag_pending a). has_terminal_result cid j"
    using writes_keep_terminal [OF assms(2) open_] assms(3) by (simp add: well_formed_def)
  ultimately show ?thesis using j(1) by (simp add: well_formed_def abs_agent_def)
qed

lemma marked_simulated:
  assumes "get_entry cid (ag_journal a) = Some q" and "terminal (je_status q)" and "well_formed a"
  shows "well_formed (a\<lparr>ag_journal := mark_reported now cid (ag_journal a)\<rparr>) \<and>
     life_step (abs_agent a) (abs_agent (a\<lparr>ag_journal := mark_reported now cid (ag_journal a)\<rparr>))"
proof -
  let ?L = "lives (ag_journal a)"
  have ok: "rows_ok (ag_journal a)" using assms(3) by (simp add: well_formed_def)
  have l: "?L cid = Some (life_of q)" using assms(1) by (simp add: lives_def)
  then have "lives (mark_reported now cid (ag_journal a)) = ?L(cid \<mapsto> (life_of q)\<lparr>lf_reported := True\<rparr>)"
    by (auto simp: lives_reported confirm_def fun_eq_iff)
  moreover have "lf_outcome (life_of q) \<noteq> None" using assms(2) outcome_terminal by (simp add: life_of_def)
  ultimately have "life_step (?L, set (ag_pending a)) (lives (mark_reported now cid (ag_journal a)), set (ag_pending a))"
    using told [where L = ?L, OF l] by simp
  moreover have "rows_ok (mark_reported now cid (ag_journal a))"
    by (rule rows_ok_reported [OF _ ok]) (use assms(1,2) in simp)
  ultimately show ?thesis
    using assms(3) by (simp add: well_formed_def abs_agent_def terminal_reported [OF ok])
qed

lemma owed_lives:
  assumes "journal_ok j"
  shows "owed (lives j) = set (map je_command_id (unreported_terminal_entries j))"
proof -
  have "cid \<in> owed (lives j) \<longleftrightarrow> (\<exists>q. get_entry cid j = Some q \<and> terminal (je_status q) \<and> \<not> je_reported_to_cloud q)" for cid
    using outcome_terminal not_None_eq by (fastforce simp: owed_def lives_def life_of_def simp del: not_None_eq)
  moreover have "cid \<in> je_command_id ` set (unreported_terminal_entries j) \<longleftrightarrow>
      (\<exists>q. get_entry cid j = Some q \<and> terminal (je_status q) \<and> \<not> je_reported_to_cloud q)" for cid
    using get_entry_key [of cid j] unfolding image_iff Bex_def jn.pending_iff [OF assms] by metis
  ultimately show ?thesis by (simp add: set_eq_iff)
qed

section \<open>The properties of the agent's life\<close>

lemma agent_step_simulated:
  assumes "agent_step E C dev a a'" and wf: "well_formed a"
  shows "well_formed a' \<and> life_step\<^sup>*\<^sup>* (abs_agent a) (abs_agent a')"
  using assms(1)
proof cases
  case (inbound_message msg r)
  with inbound_simulated [OF inbound_message wf] show ?thesis by blast
next
  case killed
  have "life_step (abs_agent a) (abs_agent a')"
    unfolding killed abs_agent_def by (simp add: restarted_def forgotten)
  moreover have "well_formed a'" using wf by (simp add: killed restarted_def well_formed_def)
  ultimately show ?thesis by blast
next
  case (working cmd j c)
  with working_simulated [OF working(2,3) wf] show ?thesis by blast
next
  case (marked cid q res ec em gen now)
  with marked_simulated [OF marked(2,3) wf] show ?thesis by blast
next
  case batch_read
  have ok: "journal_ok (ag_journal a)" using wf by (simp add: well_formed_def rows_ok_def)
  have "life_step (abs_agent a) (abs_agent a')"
    unfolding batch_read abs_agent_def by (simp add: owed_lives [OF ok, symmetric, simplified] batch_built)
  moreover have "well_formed a'"
    using wf by (auto simp: batch_read well_formed_def has_terminal_result_def list_ex_iff set_unreported)
  ultimately show ?thesis by blast
qed (use wf in \<open>auto simp: well_formed_def abs_agent_def send_run stop_def\<close>)

interpretation agent_life: forward_simulation "agent_step E C dev" life_step abs_agent well_formed for E C dev
  by unfold_locales (use agent_step_simulated in blast)+

text \<open>
  C20: The agent keeps its state well-formed for life. Through messages, connections, cancellations and kills
  between any two journal writes, from an empty or any well-formed journal: command ids are unique;
  an unfinished row has no result, code or message and is not reported; a success has no code and no
  message, a failure has a code and no result; a stored result is the JSON text of a value; and the
  pending ids of a connection are finished commands.
\<close>

theorem agent_stays_well_formed:
  assumes "(agent_step E C dev)\<^sup>*\<^sup>* a a'" and "well_formed a"
  shows "well_formed a'"
  using assms by (rule agent_life.run_inv)

text \<open>
  C4: The agent implements the abstract command machine. Whatever happens to it, what its journal and its
  pending ids say about the commands changes only by steps of the machine: work on a command without an
  outcome, under the generation it was first accepted with; telling Cloud an outcome; confirming the pending
  commands, or some of them when the disk refuses a mark; building the batch of all commands whose outcome is owed; or forgetting the pending ids.
\<close>

theorem agent_refines_lifecycle:
  assumes "(agent_step E C dev)\<^sup>*\<^sup>* a a'" and "well_formed a"
  shows "life_step\<^sup>*\<^sup>* (abs_agent a) (abs_agent a')"
  using assms by (rule agent_life.run_sim)

text \<open>
  C8: An outcome is final. Once the execution of a command has left a result in the journal, no later
  message, redelivery, connection, kill or restart changes its status, its result or its code and message, or the generation
  it is reported under.
\<close>

theorem outcome_is_final:
  assumes "(agent_step E C dev)\<^sup>*\<^sup>* a a'" and "well_formed a"
    and "get_entry cid (ag_journal a) = Some q" and "je_status q \<in> {Succeeded, Failed}"
  shows "\<exists>q'. get_entry cid (ag_journal a') = Some q' \<and> je_status q' = je_status q \<and>
     je_result_json q' = je_result_json q \<and> je_error_code q' = je_error_code q \<and>
     je_error_message q' = je_error_message q \<and> je_placement_generation q' = je_placement_generation q"
proof -
  have "fst (abs_agent a) cid = Some (life_of q)" using assms(3) by (simp add: abs_agent_def lives_def)
  from life_steps_advance [OF agent_life.run_sim [OF assms(1,2)] this] obtain l' where
    "fst (abs_agent a') cid = Some l'" "advanced (life_of q) l'" by blast
  moreover have wf: "well_formed a'" using assms(1,2) by (rule agent_life.run_inv)
  ultimately obtain q' where q': "get_entry cid (ag_journal a') = Some q'" "advanced (life_of q) (life_of q')"
    by (auto simp: abs_agent_def lives_def)
  have "outcome_of q' = outcome_of q" "je_placement_generation q' = je_placement_generation q"
    using q'(2) assms(4) by (auto simp: advanced_def life_of_def outcome_of_def)
  moreover have "row_ok q" "row_ok q'"
    using assms(2,3) wf q'(1) by (auto simp: well_formed_def rows_ok_def)
  ultimately show ?thesis
    using q'(1) assms(4) by (auto simp: outcome_of_def row_ok_def split: jstatus.splits)
qed

text \<open>A life: a save is delivered and fails for want of a config, Cloud confirms it, the process is killed.\<close>

lemma demo_finished_ok: "well_formed demo_finished_agent"
proof -
  have "rows_ok (ag_journal demo_finished_agent)"
    unfolding demo_finished_agent_def agent.update_convs agent.select_convs idle_agent_def
    by (intro rows_ok_result rows_ok_accepted) (simp_all add: proper_result_def rows_ok_def get_entry_def)
  then show ?thesis by (simp add: well_formed_def demo_finished_agent_def idle_agent_def)
qed

lemma demo_life:
  "(agent_step (demo_env JNull) default_config ''dev-1'')\<^sup>*\<^sup>* demo_finished_agent (restarted demo_finished_agent)"
  by (rule r_into_rtranclp, rule killed)

theorem agent_stays_well_formed_witness: "well_formed (restarted demo_finished_agent)"
  by (rule agent_stays_well_formed [OF demo_life demo_finished_ok])

theorem agent_refines_lifecycle_witness:
  "life_step\<^sup>*\<^sup>* (abs_agent demo_finished_agent) (abs_agent (restarted demo_finished_agent))"
  by (rule agent_refines_lifecycle [OF demo_life demo_finished_ok])

theorem outcome_is_final_witness:
  "\<exists>q'. get_entry ''c'' (ag_journal (restarted demo_finished_agent)) = Some q' \<and> je_status q' = Succeeded"
proof -
  obtain q where q: "get_entry ''c'' (ag_journal demo_finished_agent) = Some q" "je_status q = Succeeded"
    using demo_finished_entry by blast
  from outcome_is_final [OF demo_life demo_finished_ok q(1)] q(2) show ?thesis by auto
qed

end
