(* ===== verification/Agent_Traces.thy ===== *)
theory Agent_Traces
  imports Delivery
begin

text \<open>
  What the agent's procedures do to the trace and to the stop flag: they only append to the trace, never an
  event of the control stream's channel, and none of them stops the agent.
\<close>

section \<open>The operations of the agent\<close>

abbreviation no_link :: "event \<Rightarrow> bool" where
  "no_link e \<equiv> \<not> link_event e"

definition calm :: "(agent, 'a) proc \<Rightarrow> bool" where
  "calm p \<longleftrightarrow> appends ag_trace no_link p \<and> (\<forall>b. keeps (\<lambda>a. ag_stopped a = b) p)"

lemma calmD:
  assumes "calm p" and "p a = Some (r, a')"
  shows "\<exists>es. ag_trace a' = ag_trace a @ es \<and> list_all no_link es" and "ag_stopped a' = ag_stopped a"
proof -
  from assms(1) have p: "appends ag_trace no_link p" "keeps (\<lambda>b. ag_stopped b = ag_stopped a) p" by (simp_all add: calm_def)
  from appendsD [OF p(1) assms(2)] show "\<exists>es. ag_trace a' = ag_trace a @ es \<and> list_all no_link es" .
  from keepsD [OF p(2) assms(2)] show "ag_stopped a' = ag_stopped a" by simp
qed

lemma calm_ret: "calm (ret x)"
  by (simp add: calm_def emits_intros keeps_intros)

lemma calm_lift_sum: "calm (lift_sum x)"
  by (auto simp: calm_def keeps_def intro: emits_intros)

lemma calm_andThen: "calm p \<Longrightarrow> (\<And>x. calm (f x)) \<Longrightarrow> calm (andThen p f)"
  by (simp add: calm_def emits_intros keeps_intros)

lemma calm_tryExcept: "calm p \<Longrightarrow> (\<And>e q. h e = Some q \<Longrightarrow> calm q) \<Longrightarrow> calm (tryExcept p h)"
  unfolding calm_def by (blast intro: appends_tryExcept keeps_tryExcept)

lemma calm_if: "(b \<Longrightarrow> calm p) \<Longrightarrow> (\<not> b \<Longrightarrow> calm q) \<Longrightarrow> calm (if b then p else q)"
  by simp

lemma calm_modify:
  "(\<And>a. ag_trace (f a) = ag_trace a) \<Longrightarrow> (\<And>a. ag_stopped (f a) = ag_stopped a) \<Longrightarrow> calm (modify f)"
  by (simp add: calm_def appends_modify keeps_modify)

lemma calm_on_trace: "emits no_link p \<Longrightarrow> calm (on_trace p)"
  unfolding calm_def appends_def keeps_def using on_trace_keeps(5,6) by metis

lemma calm_write_journal: "calm (write_journal E f)"
  by (auto simp: calm_def appends_def keeps_def elim!: write_journal_cases)

lemma calm_read_journal: "calm (read_journal E f)"
  by (auto simp: calm_def appends_def keeps_def elim!: read_journal_cases)

lemma calm_send: "calm (send m)"
  unfolding send_def by (rule calm_modify) simp_all

lemmas calm_intros = calm_ret calm_lift_sum calm_andThen calm_tryExcept calm_if calm_on_trace calm_write_journal
  calm_read_journal calm_send

section \<open>Handlers and executions\<close>

lemma handlers_calm:
  assumes "main_handlers E C dev opn = Some h"
  shows "emits no_link (h cmd)"
proof -
  have pause: "no_link e" if "is_pause e" for e using that by (cases e) simp_all
  have save: "emits no_link (perform_save E C dev cid network rid)" for cid network rid
  proof (rule emits_mono [OF emits_perform_save])
    fix e
    assume "save_event dev cid network rid e"
    then show "no_link e" using pause by (cases e) (auto simp: save_event_def)
  qed
  have del: "emits no_link (delete_container E cid network rid)" for cid network rid
    by (rule emits_delete_container) (simp_all add: pause)
  have new: "emits no_link (create_container E img name network exposure publish envs res rid)" for img name network exposure publish envs res rid
    by (rule emits_create_container) (simp_all add: pause)
  have create: "emits no_link (create_handler E c)" "emits no_link (resume_handler E c)" for c
    unfolding create_handler_def resume_handler_def create_from_config_def
    by (auto intro!: emits_intros new split: sum.splits)
  have remove: "emits no_link (delete_handler E c)" "emits no_link (save_handler E C dev c)"
    "emits no_link (hibernate_handler E C dev c)" for c
    unfolding delete_handler_def save_handler_def hibernate_handler_def hibernate_with_save_def hibernate_without_save_def Let_def
    by (auto intro!: emits_intros save del split: sum.splits)
  show ?thesis
    using assms by (cases opn) (auto simp: create remove)
qed

lemma report_calm: "calm (report_result E dev cid s gen res ec em)"
  unfolding report_result_def report_command_result_def
  by (auto intro!: calm_intros emits_intros)

lemma finish_calm: "calm (finish_command E (report_result E dev) cid s gen res ec em)"
  unfolding finish_command_def by (intro calm_intros report_calm)

lemma conclude_calm: "calm (conclude E (report_result E dev) cid cmd x)"
  unfolding conclude_def update_placement_cache_def
  by (auto intro!: calm_andThen calm_modify finish_calm split: prod.splits option.splits)

lemma execute_calm: "calm (execute E (main_handlers E C dev) (report_result E dev) cid cmd)"
proof (cases "main_handlers E C dev (operation cmd)")
  case None
  then show ?thesis by (simp add: execute_def finish_calm)
next
  case (Some h)
  then show ?thesis
    unfolding execute_def accept_if_new_def
    by (auto simp: handler_raised_def intro!: calm_intros conclude_calm finish_calm handlers_calm split: if_splits)
qed

lemma execute_appends:
  assumes "execute E (main_handlers E C dev) (report_result E dev) cid cmd a = Some (r, a')"
  shows "\<exists>es. ag_trace a' = ag_trace a @ es"
  using calmD(1) [OF execute_calm assms] by blast

lemma accepting_appends: "\<exists>es. ag_trace (accepting_agent E cmd a) = ag_trace a @ es"
  by (simp add: accepting_agent_def Let_def)

section \<open>Messages\<close>

lemma mark_all_calm: "calm (mark_all E cids)"
  by (induction cids) (simp_all only: mark_all.simps calm_ret calm_andThen calm_write_journal)

lemma heartbeat_calm: "calm (heartbeat E)"
  unfolding heartbeat_def by (auto intro!: calm_intros emits_intros)

lemma receive_calm: "calm (receive E C dev msg)"
proof (cases msg)
  case (HelloAccepted gen reconcile)
  have "calm (andThen (mark_all E cids) (\<lambda>_. modify (\<lambda>b. b\<lparr>ag_pending := []\<rparr>)))" for cids
    by (intro calm_andThen mark_all_calm calm_modify) simp_all
  then show ?thesis
    unfolding HelloAccepted receive_def handle_inbound.simps calm_def appends_def keeps_def by blast
next
  case (ExecuteCommandMsg cmd)
  then show ?thesis
    by (auto simp: receive_def on_execute_command_def intro!: calm_intros emits_intros execute_calm)
next
  case (Ping sent)
  show ?thesis unfolding Ping receive_def handle_inbound.simps by (rule calm_send)
next
  case (ServerDraining t)
  show ?thesis unfolding ServerDraining receive_def handle_inbound.simps by (rule calm_ret)
next
  case (UnhandledPayload kind)
  show ?thesis unfolding UnhandledPayload receive_def handle_inbound.simps by (rule calm_ret)
qed

end
