(* ===== verification/Accounting.thy ===== *)
theory Accounting
  imports Lifecycle Agent_Traces
begin

text \<open>
  What it means that the journal calls a result reported: Cloud has answered its HTTP report with 200, or the
  result was yielded on a control stream. The machine here is the whole agent: its connections, each with
  the generator of \<open>Stream_Steps\<close>, its inbound messages with the executions they start, and kills. A command is
  executed in one step, or write by write while the generator and everything else go on; a result may be
  overwritten (\<open>success_overwritten\<close>) long after it was recorded. Two things that the code does not
  rule out are left to parameters of the machine: which messages Cloud sends when, and which results are
  overwritten when. The property holds under a condition on each: \<open>HelloAccepted\<close> comes after the batch
  (\<open>results_can_be_lost\<close> is what happens otherwise), and no result that the connection is resending is overwritten.
\<close>

section \<open>Rows that keep their result\<close>

lemma same_result_trans: "same_result a b \<Longrightarrow> same_result b c \<Longrightarrow> same_result a c"
  by (auto simp: same_result_def intro: same_command_trans)

lemma entry_message_same: "same_result q q' \<Longrightarrow> entry_message q' = entry_message q"
  by (simp add: same_result_def same_command_def entry_message_def)

definition keeps_rows :: "journal \<Rightarrow> journal \<Rightarrow> bool" where
  "keeps_rows j j' \<longleftrightarrow> (\<forall>k q. get_entry k j = Some q \<longrightarrow> terminal (je_status q) \<longrightarrow>
     (\<exists>q'. get_entry k j' = Some q' \<and> same_result q q'))"

lemma keeps_rows_refl [simp]: "keeps_rows j j"
  by (auto simp: keeps_rows_def)

lemma keeps_rowsD:
  "keeps_rows j j' \<Longrightarrow> get_entry k j = Some q \<Longrightarrow> terminal (je_status q) \<Longrightarrow>
    \<exists>q'. get_entry k j' = Some q' \<and> same_result q q'"
  by (simp add: keeps_rows_def)

lemma keeps_rows_trans: "keeps_rows i j \<Longrightarrow> keeps_rows j k \<Longrightarrow> keeps_rows i k"
  unfolding keeps_rows_def
proof (intro allI impI)
  fix c q
  assume ij: "\<forall>c q. get_entry c i = Some q \<longrightarrow> terminal (je_status q) \<longrightarrow> (\<exists>q'. get_entry c j = Some q' \<and> same_result q q')"
    and jk: "\<forall>c q. get_entry c j = Some q \<longrightarrow> terminal (je_status q) \<longrightarrow> (\<exists>q'. get_entry c k = Some q' \<and> same_result q q')"
    and q: "get_entry c i = Some q" "terminal (je_status q)"
  from ij q obtain q1 where q1: "get_entry c j = Some q1" "same_result q q1" by blast
  with q(2) have "terminal (je_status q1)" by (simp add: same_result_def)
  with jk q1(1) obtain q2 where "get_entry c k = Some q2" "same_result q1 q2" by blast
  with same_result_trans [OF q1(2)] show "\<exists>q'. get_entry c k = Some q' \<and> same_result q q'" by blast
qed

lemma keeps_rows_reported: "keeps_rows j (mark_reported now cid j)"
  unfolding keeps_rows_def
proof (intro allI impI)
  fix k q
  assume "get_entry k j = Some q"
  then have "get_entry k (mark_reported now cid j) = Some (if k = cid then set_reported now q else q)"
    by (cases "k = cid") (simp_all add: get_entry_reported)
  then show "\<exists>q'. get_entry k (mark_reported now cid j) = Some q' \<and> same_result q q'" by simp
qed

lemma keeps_rows_marks: "keeps_rows j (marks ms j)"
  by (induction ms arbitrary: j) (auto intro: keeps_rows_trans [OF keeps_rows_reported])

lemma keeps_rows_frame:
  assumes "\<not> has_terminal_result cid j" and "journal_ok j"
    and "\<And>k. k \<noteq> cid \<Longrightarrow> get_entry k j' = get_entry k j"
  shows "keeps_rows j j'"
  unfolding keeps_rows_def
proof (intro allI impI)
  fix k q
  assume q: "get_entry k j = Some q" "terminal (je_status q)"
  with assms(1,2) have "k \<noteq> cid" by (auto simp: has_terminal_get)
  with assms(3) q(1) show "\<exists>q'. get_entry k j' = Some q' \<and> same_result q q'" by auto
qed

section \<open>The agent on its connections\<close>

text \<open>Cloud has the result of this row: it was yielded on a stream, or its report was answered with 200.\<close>

definition cloud_has :: "string \<Rightarrow> journal_row \<Rightarrow> trace \<Rightarrow> device_message list \<Rightarrow> bool" where
  "cloud_has dev q t sent \<longleftrightarrow> entry_message q \<in> set sent \<or>
     (\<exists>res gen. je_result_json q = map_option json_dumps res \<and>
        acknowledged dev (je_command_id q) (je_status q) res (je_error_code q) (je_error_message q) gen t)"

fun is_hello :: "cloud_message \<Rightarrow> bool" where
  "is_hello (HelloAccepted _ _) = True"
| "is_hello _ = False"

text \<open>The current connection, and what was sent on the earlier ones.\<close>

type_synonym line = "stream \<times> device_message list"

text \<open>
  A step of the whole agent; \<open>P s msg\<close> says that Cloud may have sent \<open>msg\<close> by now, \<open>W s cid\<close> that the execution of
  \<open>cid\<close>, whose result is recorded, may now overwrite it because its report has raised.
\<close>

inductive agent_line ::
  "env \<Rightarrow> config \<Rightarrow> string \<Rightarrow> manager \<Rightarrow> (stream \<Rightarrow> cloud_message \<Rightarrow> bool) \<Rightarrow> (stream \<Rightarrow> string \<Rightarrow> bool) \<Rightarrow> line \<Rightarrow> line \<Rightarrow> bool"
  for E C dev mg P W where
  line_generator: "generator_step E C mg s s' \<Longrightarrow> agent_line E C dev mg P W (s, h) (s', h)"
| line_received: "P s msg \<Longrightarrow> receive E C dev msg (st_agent s) = Some (r, a) \<Longrightarrow>
    agent_line E C dev mg P W (s, h) (s\<lparr>st_agent := a\<rparr>, h)"
| line_queued: "send m (st_agent s) = Some (r, a) \<Longrightarrow> agent_line E C dev mg P W (s, h) (s\<lparr>st_agent := a\<rparr>, h)"
| line_outside: "agent_line E C dev mg P W (s, h)
    (s\<lparr>st_agent := (st_agent s)\<lparr>ag_trace := ag_trace (st_agent s) @ es\<rparr>\<rparr>, h)"
| line_reconnected: "agent_line E C dev mg P W (s, h) (new_stream (st_agent s), h @ st_wire s)"
| line_killed: "agent_line E C dev mg P W (s, h) (new_stream (restarted (st_agent s)), h @ st_wire s)"
| line_working: "\<not> has_terminal_result (command_id cmd) (ag_journal (st_agent s)) \<Longrightarrow>
    writes_of cmd (ag_journal (st_agent s)) j \<Longrightarrow>
    agent_line E C dev mg P W (s, h) (s\<lparr>st_agent := (st_agent s)\<lparr>ag_journal := j, ag_cache := c\<rparr>\<rparr>, h)"
| line_overwritten: "get_entry cid (ag_journal (st_agent s)) = Some q \<Longrightarrow> terminal (je_status q) \<Longrightarrow> W s cid \<Longrightarrow>
    agent_line E C dev mg P W (s, h) (s\<lparr>st_agent := (st_agent s)\<lparr>ag_journal :=
      record_result now cid Failed None (Some ''HANDLER_EXCEPTION'') (Some m) (ag_journal (st_agent s))\<rparr>\<rparr>, h)"
| line_marked: "get_entry cid (ag_journal (st_agent s)) = Some q \<Longrightarrow> terminal (je_status q) \<Longrightarrow>
    holds (je_status q) res ec em q \<Longrightarrow>
    acknowledged dev cid (je_status q) res ec em gen (ag_trace (st_agent s)) \<Longrightarrow>
    agent_line E C dev mg P W (s, h)
      (s\<lparr>st_agent := (st_agent s)\<lparr>ag_journal := mark_reported now cid (ag_journal (st_agent s))\<rparr>\<rparr>, h)"

text \<open>\<open>HelloAccepted\<close> only when the batch of the connection is out; only results that it does not resend.\<close>

definition after_batch :: "stream \<Rightarrow> cloud_message \<Rightarrow> bool" where
  "after_batch s msg \<longleftrightarrow> (is_hello msg \<longrightarrow> st_gen s = Serving)"

definition not_resending :: "stream \<Rightarrow> string \<Rightarrow> bool" where
  "not_resending s cid \<longleftrightarrow> (case st_gen s of
       Resending ms \<Rightarrow> cid \<notin> je_command_id ` set (st_unreported s)
     | Serving \<Rightarrow> cid \<notin> je_command_id ` set (st_unreported s)
     | _ \<Rightarrow> True)"

text \<open>The batch of the connection: its rows are still those of the journal, and they are sent or about to be.\<close>

definition batch_live :: "stream \<Rightarrow> bool" where
  "batch_live s \<longleftrightarrow> set (ag_pending (st_agent s)) \<subseteq> je_command_id ` set (st_unreported s) \<and>
     (\<forall>u \<in> set (st_unreported s). terminal (je_status u) \<and>
        (\<exists>q. get_entry (je_command_id u) (ag_journal (st_agent s)) = Some q \<and> same_result u q))"

definition batch_ok :: "stream \<Rightarrow> bool" where
  "batch_ok s \<longleftrightarrow> (case st_gen s of
       NotStarted \<Rightarrow> True
     | HelloSent \<Rightarrow> True
     | Broken \<Rightarrow> True
     | Resending ms \<Rightarrow> batch_live s \<and> (\<exists>sent. batch (st_unreported s) = sent @ ms \<and> set sent \<subseteq> set (st_wire s))
     | Serving \<Rightarrow> batch_live s \<and> set (batch (st_unreported s)) \<subseteq> set (st_wire s))"

definition told :: "string \<Rightarrow> agent \<Rightarrow> device_message list \<Rightarrow> bool" where
  "told dev a sent \<longleftrightarrow> (\<forall>k q. get_entry k (ag_journal a) = Some q \<longrightarrow> je_reported_to_cloud q \<longrightarrow>
     cloud_has dev q (ag_trace a) sent)"

definition line_ok :: "string \<Rightarrow> line \<Rightarrow> bool" where
  "line_ok dev x \<longleftrightarrow> well_formed (st_agent (fst x)) \<and> batch_ok (fst x) \<and>
     told dev (st_agent (fst x)) (snd x @ st_wire (fst x))"

section \<open>What happens to reported rows\<close>

lemma cloud_has_mono:
  "cloud_has dev q t sent \<Longrightarrow> set sent \<subseteq> set sent' \<Longrightarrow> cloud_has dev q (t @ es) sent'"
  by (auto simp: cloud_has_def acknowledged_def)

lemma cloud_has_same:
  "cloud_has dev q t sent \<Longrightarrow> same_result q q' \<Longrightarrow> cloud_has dev q' t sent"
  by (simp add: cloud_has_def entry_message_same) (simp add: same_result_def same_command_def)

text \<open>A new agent state whose reported rows were reported before, or are known to Cloud.\<close>

lemma told_step:
  assumes "told dev a sent" and "ag_trace a' = ag_trace a @ es" and "set sent \<subseteq> set sent'"
    and "\<And>k q'. get_entry k (ag_journal a') = Some q' \<Longrightarrow> je_reported_to_cloud q' \<Longrightarrow>
      (\<exists>q. get_entry k (ag_journal a) = Some q \<and> je_reported_to_cloud q \<and> same_result q q') \<or>
      cloud_has dev q' (ag_trace a') sent'"
  shows "told dev a' sent'"
  unfolding told_def
proof (intro allI impI)
  fix k q'
  assume q': "get_entry k (ag_journal a') = Some q'" "je_reported_to_cloud q'"
  from assms(4) [OF this] show "cloud_has dev q' (ag_trace a') sent'"
  proof (elim disjE exE conjE)
    fix q
    assume "get_entry k (ag_journal a) = Some q" "je_reported_to_cloud q" "same_result q q'"
    with assms(1) have "cloud_has dev q (ag_trace a) sent" by (simp add: told_def)
    from cloud_has_same [OF cloud_has_mono [OF this assms(3)] \<open>same_result q q'\<close>]
    show ?thesis by (simp add: assms(2))
  qed
qed

lemma told_same_journal:
  assumes "told dev a sent" and "ag_trace a' = ag_trace a @ es" and "set sent \<subseteq> set sent'"
    and "ag_journal a' = ag_journal a"
  shows "told dev a' sent'"
  by (rule told_step [OF assms(1-3)]) (use assms(4) in auto)

text \<open>A batch survives when finished rows keep their result.\<close>

lemma batch_ok_agent:
  assumes "batch_ok s" and "keeps_rows (ag_journal (st_agent s)) (ag_journal a)"
    and "ag_pending a = ag_pending (st_agent s) \<or> ag_pending a = []"
  shows "batch_ok (s\<lparr>st_agent := a\<rparr>)"
proof -
  have "batch_live (s\<lparr>st_agent := a\<rparr>)" if live: "batch_live s"
  proof -
    have "\<exists>q. get_entry (je_command_id u) (ag_journal a) = Some q \<and> same_result u q" if u: "u \<in> set (st_unreported s)" for u
    proof -
      from live u obtain q where q: "get_entry (je_command_id u) (ag_journal (st_agent s)) = Some q" "same_result u q"
        "terminal (je_status u)" by (auto simp: batch_live_def)
      then have "terminal (je_status q)" by (simp add: same_result_def)
      with keeps_rowsD [OF assms(2) q(1)] same_result_trans [OF q(2)] show ?thesis by blast
    qed
    with live assms(3) show ?thesis by (auto simp: batch_live_def)
  qed
  with assms(1) show ?thesis by (auto simp: batch_ok_def split: gen_state.splits)
qed

lemma batch_ok_overwritten:
  assumes "batch_ok s" and "not_resending s cid" and frame: "\<And>k. k \<noteq> cid \<Longrightarrow> get_entry k j = get_entry k (ag_journal (st_agent s))"
  shows "batch_ok (s\<lparr>st_agent := (st_agent s)\<lparr>ag_journal := j\<rparr>\<rparr>)"
proof -
  let ?s = "s\<lparr>st_agent := (st_agent s)\<lparr>ag_journal := j\<rparr>\<rparr>"
  have live: "batch_live ?s" if "batch_live s" and cid: "cid \<notin> je_command_id ` set (st_unreported s)"
  proof -
    have "get_entry (je_command_id u) j = get_entry (je_command_id u) (ag_journal (st_agent s))" if "u \<in> set (st_unreported s)" for u
      using cid that by (intro frame) blast
    with that(1) show ?thesis by (simp add: batch_live_def)
  qed
  show ?thesis
  proof (cases "st_gen s")
    case (Resending ms)
    with assms(1,2) have "batch_live ?s" by (intro live) (simp_all add: batch_ok_def not_resending_def)
    with Resending assms(1) show ?thesis by (simp add: batch_ok_def)
  next
    case Serving
    with assms(1,2) have "batch_live ?s" by (intro live) (simp_all add: batch_ok_def not_resending_def)
    with Serving assms(1) show ?thesis by (simp add: batch_ok_def)
  qed (use assms(1) in \<open>simp_all add: batch_ok_def\<close>)
qed

lemma marks_reported:
  "get_entry k (marks ms j) = Some q' \<Longrightarrow> je_reported_to_cloud q' \<Longrightarrow>
    \<exists>q. get_entry k j = Some q \<and> same_result q q' \<and> (je_reported_to_cloud q \<or> k \<in> snd ` set ms)"
proof (induction ms arbitrary: j)
  case (Cons m ms)
  from Cons.IH [of "mark_reported (fst m) (snd m) j"] Cons.prems obtain q1 where
    q1: "get_entry k (mark_reported (fst m) (snd m) j) = Some q1" "same_result q1 q'"
    "je_reported_to_cloud q1 \<or> k \<in> snd ` set ms" by auto
  show ?case
  proof (cases "k = snd m")
    case True
    with q1(1) obtain q where q: "get_entry k j = Some q" "q1 = set_reported (fst m) q"
      by (auto simp: get_entry_reported)
    with same_result_trans [OF same_result_reported [of q "fst m"]] q1(2) True show ?thesis by auto
  next
    case False
    with q1 show ?thesis by (auto simp: get_entry_reported)
  qed
qed auto

section \<open>Every step keeps the account\<close>

text \<open>Receiving a command.\<close>

lemma command_accounted:
  assumes run: "receive E C dev (ExecuteCommandMsg cmd) a = Some (r, a')" and wf: "well_formed a"
  shows "keeps_rows (ag_journal a) (ag_journal a') \<and> ag_pending a' = ag_pending a \<and>
     (\<exists>es. ag_trace a' = ag_trace a @ es) \<and> (told dev a sent \<longrightarrow> told dev a' sent)"
  using run
proof (cases rule: receive_command_cases)
  case (refused us e)
  with told_same_journal [of dev a sent a' "map ReadUtc us" sent] show ?thesis by simp
next
  case run
  note False = run(1) and exec = run(2)
  let ?cid = "command_id cmd" and ?b = "accepting_agent E cmd a"
  have ok: "journal_ok (ag_journal a)" using wf by (simp add: well_formed_def rows_ok_def)
  have b: "unfinished ?cid (ag_journal ?b)" "journal_ok (ag_journal ?b)"
    using wf False unfinished_accepted [of ?cid "ag_journal a"] accepting_agent_ok [OF ok]
    by (simp_all add: accepting_agent_journal well_formed_def unfinished_def)
  have frame: "get_entry k (ag_journal a') = get_entry k (ag_journal a)" if "k \<noteq> ?cid" for k
    using main_reporter.execute_frame [OF exec that] accepting_agent_frame [OF that] by simp
  have pend: "ag_pending a' = ag_pending a"
    using execute_unfinished(2) [OF exec b(1)] by (simp add: accepting_agent_def Let_def)
  obtain es1 es2 where "ag_trace ?b = ag_trace a @ es1" "ag_trace a' = ag_trace ?b @ es2"
    using accepting_appends execute_appends [OF exec] by blast
  then have trace: "ag_trace a' = ag_trace a @ (es1 @ es2)" by simp
  have rows: "rows_ok (ag_journal a')" using execute_unfinished(1) [OF exec b(1)] .
  have known: "cloud_has dev q (ag_trace a') sent"
    if q: "get_entry ?cid (ag_journal a') = Some q" and rep: "je_reported_to_cloud q" for q
    using exec b(2) accepting_agent_unfinished [OF False] disjI2 [OF accepting_agent_seen]
  proof (cases rule: executed_result)
    case (result q')
    with q rep obtain s res ec em where "holds s res ec em q"
      "acknowledged dev ?cid s res ec em (placement_generation cmd) (ag_trace a')"
      by (auto simp: set_unreported)
    moreover have "je_command_id q = ?cid" using get_entry_key [OF q] by simp
    ultimately show ?thesis by (auto simp: cloud_has_def holds_def)
  next
    case (no_result e)
    have "row_ok q" using rows q by (simp add: rows_ok_def)
    with rep reported_finished outcome_terminal get_entry_terminal [OF q] no_result(1) show ?thesis by blast
  qed
  have "told dev a' sent" if told: "told dev a sent"
  proof (rule told_step [OF told trace])
    fix k q'
    assume "get_entry k (ag_journal a') = Some q'" "je_reported_to_cloud q'"
    then show "(\<exists>q. get_entry k (ag_journal a) = Some q \<and> je_reported_to_cloud q \<and> same_result q q') \<or>
      cloud_has dev q' (ag_trace a') sent"
      using known frame by (cases "k = ?cid") auto
  qed simp
  with keeps_rows_frame [OF False ok frame] pend trace show ?thesis by blast
qed simp

text \<open>\<open>HelloAccepted\<close> once the batch is out.\<close>

lemma hello_accounted:
  assumes run: "receive E C dev (HelloAccepted gen reconcile) (st_agent s) = Some (r, a')"
    and ok: "line_ok dev (s, h)" and serving: "st_gen s = Serving"
  shows "line_ok dev (s\<lparr>st_agent := a'\<rparr>, h)"
proof -
  let ?a = "st_agent s"
  obtain ms us where journal: "ag_journal a' = marks ms (ag_journal ?a)" "snd ` set ms \<subseteq> set (ag_pending ?a)"
    and trace: "ag_trace a' = ag_trace ?a @ map ReadUtc us" and pend: "ag_pending a' = ag_pending ?a \<or> ag_pending a' = []"
    using run [unfolded receive_def]
  proof (cases rule: hello_accepted_cases)
    case (confirmed ms us)
    have "snd ` set ms = set (ag_pending ?a)" using arg_cong [OF confirmed(2), of set] by simp
    with confirmed(3) that [of ms us] show thesis by simp
  next
    case (refused e ms us)
    with that [of ms us] show thesis by simp
  qed
  have live: "batch_live s" and sent: "set (batch (st_unreported s)) \<subseteq> set (st_wire s)"
    using ok serving by (simp_all add: line_ok_def batch_ok_def)
  have "told dev a' (h @ st_wire s)"
  proof (rule told_step [OF _ trace subset_refl])
    show "told dev ?a (h @ st_wire s)" using ok by (simp add: line_ok_def)
    fix k q'
    assume "get_entry k (ag_journal a') = Some q'" "je_reported_to_cloud q'"
    then obtain q where q: "get_entry k (ag_journal ?a) = Some q" "same_result q q'"
      "je_reported_to_cloud q \<or> k \<in> set (ag_pending ?a)"
      using marks_reported [of k ms "ag_journal ?a" q'] journal by auto
    show "(\<exists>q. get_entry k (ag_journal ?a) = Some q \<and> je_reported_to_cloud q \<and> same_result q q') \<or>
      cloud_has dev q' (ag_trace a') (h @ st_wire s)"
    proof (cases "je_reported_to_cloud q")
      case False
      with q(3) live obtain u where u: "u \<in> set (st_unreported s)" "je_command_id u = k"
        by (auto simp: batch_live_def)
      with live q(1) have "same_result u q" by (auto simp: batch_live_def)
      then have "entry_message q' = entry_message u"
        using entry_message_same same_result_trans [OF _ q(2)] by blast
      with u(1) sent show ?thesis by (auto simp: cloud_has_def batch_def)
    qed (use q in blast)
  qed
  moreover have "batch_ok (s\<lparr>st_agent := a'\<rparr>)"
    using ok pend by (intro batch_ok_agent) (simp_all add: line_ok_def journal(1) keeps_rows_marks)
  moreover have "well_formed a'" using inbound_simulated [OF run] ok by (simp add: line_ok_def)
  ultimately show ?thesis by (simp add: line_ok_def)
qed

lemma received_accounted:
  assumes run: "receive E C dev msg (st_agent s) = Some (r, a')"
    and ok: "line_ok dev (s, h)" and serving: "is_hello msg \<Longrightarrow> st_gen s = Serving"
  shows "line_ok dev (s\<lparr>st_agent := a'\<rparr>, h)"
proof (cases msg)
  case (HelloAccepted gen reconcile)
  with run serving hello_accounted [OF _ ok] show ?thesis by simp
next
  case (ExecuteCommandMsg cmd)
  have wf: "well_formed (st_agent s)" using ok by (simp add: line_ok_def)
  from run ExecuteCommandMsg command_accounted [OF _ wf]
  have "keeps_rows (ag_journal (st_agent s)) (ag_journal a')" "ag_pending a' = ag_pending (st_agent s)"
    "told dev (st_agent s) (h @ st_wire s) \<longrightarrow> told dev a' (h @ st_wire s)" by blast+
  moreover have "well_formed a'" using inbound_simulated [OF run wf] by simp
  ultimately show ?thesis using ok by (simp add: line_ok_def batch_ok_agent)
next
  case (Ping sent_at)
  with run have "ag_journal a' = ag_journal (st_agent s)" "ag_pending a' = ag_pending (st_agent s)"
    "ag_trace a' = ag_trace (st_agent s) @ []" by (auto simp: receive_def send_run)
  with ok told_same_journal [of dev "st_agent s" "h @ st_wire s" a' "[]" "h @ st_wire s"] show ?thesis
    by (simp add: line_ok_def batch_ok_agent well_formed_def)
qed (use run ok in \<open>auto simp: receive_def\<close>)

text \<open>The generator.\<close>

lemma unreported_live:
  assumes "journal_ok j" and "u \<in> set (unreported_terminal_entries j)"
  shows "terminal (je_status u) \<and> (\<exists>q. get_entry (je_command_id u) j = Some q \<and> same_result u q)"
  using assms by (auto simp: jn.pending_iff)

lemma generator_accounted:
  assumes "generator_step E C mg s s'" and ok: "line_ok dev (s, h)"
  shows "line_ok dev (s', h)"
proof -
  have wf: "well_formed (st_agent s)" and told: "told dev (st_agent s) (h @ st_wire s)" and b: "batch_ok s"
    using ok by (simp_all add: line_ok_def)
  have jok: "journal_ok (ag_journal (st_agent s))" using wf by (simp add: well_formed_def rows_ok_def)
  have told': "told dev a (h @ st_wire s @ ms)"
    if "ag_journal a = ag_journal (st_agent s)" "ag_trace a = ag_trace (st_agent s)" for a ms
    by (rule told_same_journal [OF told, of _ "[]"]) (use that in auto)
  from assms(1) show ?thesis
  proof (cases rule: generator_step.cases)
    case yield_hello
    then show ?thesis using wf told' [of "st_agent s"] by (simp add: line_ok_def batch_ok_def)
  next
    case cannot_read
    then show ?thesis using wf told' [of "st_agent s" "[]"] by (simp add: line_ok_def batch_ok_def)
  next
    case (read_some rs m ms)
    then have "m # ms = batch rs" by (simp add: messages_batch)
    then have "\<exists>sent. batch rs = sent @ ms \<and> set sent \<subseteq> set (st_wire s @ [m])"
      by (intro exI [of _ "[m]"]) simp
    moreover have "batch_live s'"
      using unreported_live [OF jok] by (auto simp: read_some(1,4) batch_live_def)
    moreover have "well_formed (st_agent s')"
      using wf by (auto simp: read_some(1,4) well_formed_def has_terminal_result_def list_ex_iff set_unreported)
    ultimately show ?thesis
      using told' [of "st_agent s'"] by (simp add: read_some(1) line_ok_def batch_ok_def)
  next
    case (read_nothing rs)
    then have "batch rs = []" using messages_batch by metis
    moreover have "batch_live s'"
      using unreported_live [OF jok] by (auto simp: read_nothing(1,4) batch_live_def)
    moreover have "well_formed (st_agent s')"
      using wf by (auto simp: read_nothing(1,4) well_formed_def has_terminal_result_def list_ex_iff set_unreported)
    ultimately show ?thesis
      using told' [of "st_agent s'" "[]"] by (simp add: read_nothing(1) line_ok_def batch_ok_def)
  next
    case (yield_resend m ms)
    then obtain sent where sent: "batch_live s" "batch (st_unreported s) = sent @ m # ms" "set sent \<subseteq> set (st_wire s)"
      using b by (auto simp: batch_ok_def)
    then have "\<exists>sent'. batch (st_unreported s) = sent' @ ms \<and> set sent' \<subseteq> set (st_wire s @ [m])"
      by (intro exI [of _ "sent @ [m]"]) auto
    with sent(1) wf told' [of "st_agent s"] show ?thesis
      by (simp add: yield_resend(1) line_ok_def batch_ok_def batch_live_def)
  next
    case resends_done
    with b wf told show ?thesis by (auto simp: line_ok_def batch_ok_def batch_live_def)
  next
    case (yield_queued m q)
    with b wf told' [of "st_agent s'"] show ?thesis
      by (auto simp: line_ok_def batch_ok_def batch_live_def well_formed_def)
  qed
qed

text \<open>The writes of an execution leave the command's row unreported.\<close>

lemma writes_of_unreported:
  assumes "writes_of cmd j j'" and "unfinished (command_id cmd) j"
    and "get_entry (command_id cmd) j' = Some q"
  shows "\<not> je_reported_to_cloud q"
  using assms(1,3)
proof (induction arbitrary: q)
  case none_yet
  with unfinished_row [OF assms(2)] have "\<not> terminal (je_status q)" "row_ok q" by blast+
  then show ?case by (cases "je_status q") (simp_all add: row_ok_def)
next
  case (accepted j' now)
  then show ?case by (auto simp: get_entry_accepted accepted_row_def split: if_splits)
next
  case (started j' now)
  then show ?case by (auto simp: get_entry_running) (simp add: set_status_def)
next
  case (finished j' s res ec em now)
  then show ?case by (auto simp: get_entry_result) (simp add: set_result_def)
qed

lemma overwritten_well_formed:
  assumes "well_formed a" and "get_entry cid (ag_journal a) = Some q"
  shows "well_formed (a\<lparr>ag_journal := record_result now cid Failed None (Some ec) em (ag_journal a)\<rparr>)"
proof -
  let ?j = "record_result now cid Failed None (Some ec) em (ag_journal a)"
  have rows: "rows_ok (ag_journal a)" using assms(1) by (simp add: well_formed_def)
  then have new: "rows_ok ?j" by (rule rows_ok_result [rotated]) (simp add: proper_result_def)
  have "has_terminal_result k ?j" if "has_terminal_result k (ag_journal a)" for k
    using that rows new assms(2)
    by (auto simp: rows_ok_def has_terminal_get get_entry_result) (auto simp: set_result_def)
  with assms(1) new show ?thesis by (simp add: well_formed_def)
qed

lemma line_ok_step:
  assumes "agent_line E C dev mg after_batch not_resending x y" and ok: "line_ok dev x"
  shows "line_ok dev y"
  using assms(1)
proof cases
  case (line_generator s s' h)
  then show ?thesis using generator_accounted ok by blast
next
  case (line_received s msg r a h)
  then have "is_hello msg \<Longrightarrow> st_gen s = Serving" by (simp add: after_batch_def)
  with line_received show ?thesis using received_accounted ok by blast
next
  case (line_queued m s r a h)
  then have a: "a = (st_agent s)\<lparr>ag_outbound := map_option (\<lambda>q. q @ [m]) (ag_outbound (st_agent s))\<rparr>"
    by (simp add: send_run)
  have "told dev a (h @ st_wire s)"
    using ok line_queued(1) told_same_journal [of dev "st_agent s" "h @ st_wire s" a "[]" "h @ st_wire s"]
    by (simp add: line_ok_def a)
  with ok line_queued(1,2) show ?thesis by (simp add: line_ok_def a well_formed_def batch_ok_agent)
next
  case (line_outside s h es)
  let ?a = "(st_agent s)\<lparr>ag_trace := ag_trace (st_agent s) @ es\<rparr>"
  have "told dev ?a (h @ st_wire s)"
    using ok line_outside(1) told_same_journal [of dev "st_agent s" "h @ st_wire s" ?a es "h @ st_wire s"]
    by (simp add: line_ok_def)
  with ok line_outside show ?thesis by (simp add: line_ok_def well_formed_def batch_ok_agent)
next
  case (line_reconnected s h)
  have "told dev ((st_agent s)\<lparr>ag_outbound := Some []\<rparr>) (h @ st_wire s)"
    using ok line_reconnected(1) told_same_journal [of dev "st_agent s" "h @ st_wire s" _ "[]" "h @ st_wire s"]
    by (simp add: line_ok_def)
  with ok line_reconnected show ?thesis by (simp add: line_ok_def new_stream_def batch_ok_def well_formed_def)
next
  case (line_killed s h)
  have "told dev ((restarted (st_agent s))\<lparr>ag_outbound := Some []\<rparr>) (h @ st_wire s)"
    using ok line_killed(1) told_same_journal [of dev "st_agent s" "h @ st_wire s" _ "[]" "h @ st_wire s"]
    by (simp add: line_ok_def restarted_def)
  with ok line_killed show ?thesis by (simp add: line_ok_def new_stream_def batch_ok_def well_formed_def restarted_def)
next
  case (line_working cmd s j h c)
  let ?a = "(st_agent s)\<lparr>ag_journal := j, ag_cache := c\<rparr>"
  have wf: "well_formed (st_agent s)" and told: "told dev (st_agent s) (h @ st_wire s)"
    using ok line_working(1) by (simp_all add: line_ok_def)
  have open_: "unfinished (command_id cmd) (ag_journal (st_agent s))"
    using wf line_working(3) by (simp add: well_formed_def unfinished_def)
  note writes = writes_of_unfinished [OF line_working(4) open_]
  have "told dev ?a (h @ st_wire s)"
  proof (rule told_step [OF told, of _ "[]"])
    fix k q'
    assume "get_entry k (ag_journal ?a) = Some q'" "je_reported_to_cloud q'"
    then have q': "get_entry k j = Some q'" "je_reported_to_cloud q'" by simp_all
    with writes_of_unreported [OF line_working(4) open_] have "k \<noteq> command_id cmd" by blast
    with writes q' show "(\<exists>q. get_entry k (ag_journal (st_agent s)) = Some q \<and> je_reported_to_cloud q \<and> same_result q q') \<or>
        cloud_has dev q' (ag_trace ?a) (h @ st_wire s)" by auto
  qed simp_all
  moreover have "keeps_rows (ag_journal (st_agent s)) j"
    using keeps_rows_frame [OF line_working(3)] open_ writes by (simp add: unfinished_def rows_ok_def)
  moreover have "well_formed ?a" using working_simulated [OF line_working(3,4) wf] by blast
  ultimately show ?thesis using ok line_working(1,2) by (simp add: line_ok_def batch_ok_agent)
next
  case (line_overwritten cid s q h now m)
  let ?j = "record_result now cid Failed None (Some ''HANDLER_EXCEPTION'') (Some m) (ag_journal (st_agent s))"
  let ?a = "(st_agent s)\<lparr>ag_journal := ?j\<rparr>"
  have wf: "well_formed (st_agent s)" and told: "told dev (st_agent s) (h @ st_wire s)" and b: "batch_ok s"
    using ok line_overwritten(1) by (simp_all add: line_ok_def)
  have rows: "get_entry k ?j = (if k = cid then Some (set_result now Failed None (Some ''HANDLER_EXCEPTION'') (Some m) q)
      else get_entry k (ag_journal (st_agent s)))" for k
    using line_overwritten(3) by (simp add: get_entry_result)
  have "told dev ?a (h @ st_wire s)"
    by (rule told_step [OF told, of _ "[]"]) (auto simp: rows set_result_def split: if_splits)
  moreover have "well_formed ?a" using wf line_overwritten(3) by (rule overwritten_well_formed)
  moreover have "batch_ok (s\<lparr>st_agent := ?a\<rparr>)"
    by (rule batch_ok_overwritten [OF b line_overwritten(5)]) (simp add: rows)
  ultimately show ?thesis using line_overwritten(1,2) by (simp add: line_ok_def)
next
  case (line_marked cid s q res ec em gen h now)
  let ?j = "mark_reported now cid (ag_journal (st_agent s))"
  let ?a = "(st_agent s)\<lparr>ag_journal := ?j\<rparr>"
  have wf: "well_formed (st_agent s)" and told: "told dev (st_agent s) (h @ st_wire s)"
    using ok line_marked(1) by (simp_all add: line_ok_def)
  have "cloud_has dev (set_reported now q) (ag_trace (st_agent s)) (h @ st_wire s)"
  proof (rule cloud_has_same [OF _ same_result_reported])
    show "cloud_has dev q (ag_trace (st_agent s)) (h @ st_wire s)"
      using line_marked(5,6) get_entry_key [OF line_marked(3)] by (auto simp: cloud_has_def holds_def)
  qed
  then have "told dev ?a (h @ st_wire s)"
    by (intro told_step [OF told, of _ "[]"]) (use line_marked(3) in \<open>auto simp: get_entry_reported split: if_splits\<close>)
  moreover have "well_formed ?a" using marked_simulated [OF line_marked(3,4) wf] by blast
  ultimately show ?thesis
    using ok line_marked(1,2) keeps_rows_reported by (simp add: line_ok_def batch_ok_agent)
qed

lemma line_ok_run: "(agent_line E C dev mg after_batch not_resending)\<^sup>*\<^sup>* x y \<Longrightarrow> line_ok dev x \<Longrightarrow> line_ok dev y"
  by (induction rule: rtranclp_induct) (auto intro: line_ok_step)

lemma line_ok_new: "ag_journal a = [] \<Longrightarrow> ag_pending a = [] \<Longrightarrow> line_ok dev (new_stream a, [])"
  by (simp add: line_ok_def new_stream_def batch_ok_def told_def well_formed_def rows_ok_def get_entry_def)

section \<open>The property of accounting\<close>

text \<open>
  C2: No result is lost while two things do not happen. On a new agent, whatever messages, executions, overwritten
  results, failed reports, disconnections, reconnections and kills follow, as long as \<open>HelloAccepted\<close> is handled
  after the batch of its connection and no result is overwritten while its connection is resending it:
  every finished command is in the resend list, or its result was sent on a control stream exactly as the
  journal has it, or Cloud has answered 200 to an HTTP report of exactly that result. (The code rules out neither of
  the two; \<open>results_can_be_lost\<close> shows the loss when the first happens.)
\<close>

theorem no_result_lost:
  assumes "(agent_line E C dev mg after_batch not_resending)\<^sup>*\<^sup>* (new_stream a, []) (s, h)"
    and "ag_journal a = []" and "ag_pending a = []"
    and "get_entry cid (ag_journal (st_agent s)) = Some q" and "je_status q \<in> {Succeeded, Failed}"
  shows "q \<in> set (unreported_terminal_entries (ag_journal (st_agent s))) \<or>
     entry_message q \<in> set (h @ st_wire s) \<or>
     (\<exists>res gen. je_result_json q = map_option json_dumps res \<and>
        acknowledged dev cid (je_status q) res (je_error_code q) (je_error_message q) gen (ag_trace (st_agent s)))"
proof -
  have ok: "line_ok dev (s, h)" by (rule line_ok_run [OF assms(1) line_ok_new [OF assms(2,3)]])
  have q: "q \<in> set (ag_journal (st_agent s))" "je_command_id q = cid" using get_entry_key [OF assms(4)] by simp_all
  show ?thesis
  proof (cases "je_reported_to_cloud q")
    case True
    with ok assms(4) have "cloud_has dev q (ag_trace (st_agent s)) (h @ st_wire s)"
      by (auto simp: line_ok_def told_def)
    then show ?thesis by (auto simp: cloud_has_def q(2))
  next
    case False
    with q(1) assms(5) show ?thesis by (auto simp: set_unreported)
  qed
qed

theorem no_result_lost_witness:
  "\<exists>s q. (agent_line (demo_env JNull) default_config ''dev-1'' demo_manager after_batch not_resending)\<^sup>*\<^sup>* (new_stream demo_agent, []) (s, []) \<and>
     get_entry ''cmd-1'' (ag_journal (st_agent s)) = Some q \<and>
     (q \<in> set (unreported_terminal_entries (ag_journal (st_agent s))) \<or> entry_message q \<in> set (st_wire s) \<or>
      (\<exists>res gen. acknowledged ''dev-1'' ''cmd-1'' (je_status q) res (je_error_code q) (je_error_message q) gen
         (ag_trace (st_agent s))))"
proof -
  let ?msg = "ExecuteCommandMsg (demo_command COMMAND_OPERATION_RECONCILE JNull)"
  have same: "st_agent (new_stream demo_agent) = demo_agent" by (simp add: new_stream_def demo_agent_def)
  obtain a' where run: "receive (demo_env JNull) default_config ''dev-1'' ?msg demo_agent = Some (Inr (), a')"
    using demo_delivery by blast
  let ?s = "(new_stream demo_agent)\<lparr>st_agent := a'\<rparr>"
  have "agent_line (demo_env JNull) default_config ''dev-1'' demo_manager after_batch not_resending (new_stream demo_agent, []) (?s, [])"
    by (rule line_received [of _ _ ?msg]) (simp_all only: same run after_batch_def is_hello.simps simp_thms)
  then have steps: "(agent_line (demo_env JNull) default_config ''dev-1'' demo_manager after_batch not_resending)\<^sup>*\<^sup>*
      (new_stream demo_agent, []) (?s, [])" by (rule r_into_rtranclp)
  have fresh: "ag_journal demo_agent = []" "ag_pending demo_agent = []" by (simp_all add: demo_agent_def)
  have ok: "journal_ok (ag_journal demo_agent)" by (simp add: fresh)
  have "journal_ok (ag_journal a')"
    using line_ok_run [OF steps line_ok_new [OF fresh]] by (simp add: line_ok_def well_formed_def rows_ok_def)
  then obtain q where q: "get_entry ''cmd-1'' (ag_journal a') = Some q" "terminal (je_status q)"
    using receive_finishes [OF run ok] by (auto simp: has_terminal_get)
  then have "je_status q \<in> {Succeeded, Failed}" by (cases "je_status q") simp_all
  from no_result_lost [OF steps fresh _ this, of "''cmd-1''"] q(1)
  have "q \<in> set (unreported_terminal_entries (ag_journal a')) \<or> entry_message q \<in> set (st_wire ?s) \<or>
      (\<exists>res gen. acknowledged ''dev-1'' ''cmd-1'' (je_status q) res (je_error_code q) (je_error_message q) gen
         (ag_trace a'))" by auto
  with steps q(1) show ?thesis by (intro exI [of _ ?s] exI [of _ q]) simp
qed

end
