(* ===== verification/Footprint.thy ===== *)
theory Footprint
  imports Accounting
begin

text \<open>
  Everything one command can touch. \<open>Lifecycle\<close> and \<open>Accounting\<close> run a command in one step, or write by write
  through \<open>writes_of\<close>; here the second is derived from the first: whatever its handler, the report and the disk
  do, an execution is its calls, at most one message, and these writes of its own row.
\<close>

section \<open>Unmarked and marked ends\<close>

definition same_line :: "agent \<Rightarrow> agent \<Rightarrow> bool" where
  "same_line a b \<longleftrightarrow> ag_outbound b = ag_outbound a \<and> ag_pending b = ag_pending a \<and> ag_stopped b = ag_stopped a"

lemma same_line_simps [simp]:
  "same_line a a" "same_line a (b\<lparr>ag_trace := t\<rparr>) \<longleftrightarrow> same_line a b" "same_line a (b\<lparr>ag_cache := c\<rparr>) \<longleftrightarrow> same_line a b"
  "same_line a (b\<lparr>ag_journal := j\<rparr>) \<longleftrightarrow> same_line a b"
  by (simp_all add: same_line_def)

text \<open>The state \<open>b\<close> is \<open>a\<close> after some calls and writes for the command; its row is not yet marked, or has been.\<close>

definition worked :: "execute_command \<Rightarrow> agent \<Rightarrow> agent \<Rightarrow> bool" where
  "worked cmd a b \<longleftrightarrow> same_line a b \<and> writes_of cmd (ag_journal a) (ag_journal b)"

definition marked_end :: "string \<Rightarrow> execute_command \<Rightarrow> agent \<Rightarrow> agent \<Rightarrow> bool" where
  "marked_end dev cmd a b \<longleftrightarrow> same_line a b \<and> (\<exists>j now s res ec em. writes_of cmd (ag_journal a) j \<and>
     (\<forall>q. get_entry (command_id cmd) j = Some q \<longrightarrow> holds s res ec em q) \<and> terminal s \<and>
     acknowledged dev (command_id cmd) s res ec em (placement_generation cmd) (ag_trace b) \<and>
     ag_journal b = mark_reported now (command_id cmd) j)"

lemma worked_simps [simp]:
  "worked cmd a a" "worked cmd a (b\<lparr>ag_trace := t\<rparr>) \<longleftrightarrow> worked cmd a b" "worked cmd a (b\<lparr>ag_cache := c\<rparr>) \<longleftrightarrow> worked cmd a b"
  by (simp_all add: worked_def none_yet)

lemma worked_on_trace: "on_trace p b = Some (r, c) \<Longrightarrow> worked cmd a b \<Longrightarrow> worked cmd a c"
  by (auto simp: on_trace_run split: option.splits)

text \<open>Finishing.\<close>

lemma finish_footprint:
  assumes "finish_command E (report_result E dev) (command_id cmd) s (placement_generation cmd) res ec em b = Some (r, a')"
    and "worked cmd a b" and "proper_result s res ec em"
  shows "worked cmd a a' \<or> r = Inr () \<and> marked_end dev cmd a a'"
  using assms(1)
proof (cases rule: finish_cases)
  case (recorded now)
  let ?j = "record_result now (command_id cmd) s res ec em (ag_journal b)"
  have j: "writes_of cmd (ag_journal a) ?j"
    using assms(2,3) by (auto simp: worked_def intro: writes_of.finished)
  have row: "\<forall>q. get_entry (command_id cmd) ?j = Some q \<longrightarrow> holds s res ec em q"
    by (auto simp: get_entry_result) (simp add: holds_def set_result_def)
  from recorded show ?thesis
  proof (cases rule: report_result_cases)
    case unmarked
    with j assms(2) show ?thesis by (simp add: worked_def same_line_def)
  next
    case (marked now')
    have "same_line a a'" using marked(3-5) assms(2) by (simp add: worked_def same_line_def)
    with j row marked(1,6) proper_terminal [OF assms(3)] have "marked_end dev cmd a a'"
      unfolding marked_end_def by (intro conjI exI [of _ ?j] exI [of _ now'] exI [of _ s] exI [of _ res] exI [of _ ec] exI [of _ em]) simp_all
    with marked(7) show ?thesis by blast
  qed
next
  case (refused now e)
  with assms(2) show ?thesis by simp
qed

lemma conclude_footprint:
  assumes "conclude E (report_result E dev) (command_id cmd) cmd x b = Some (r, a')" and "worked cmd a b"
  shows "worked cmd a a' \<or> r = Inr () \<and> marked_end dev cmd a a'"
proof -
  obtain result ec em where x: "x = (result, ec, em)" by (cases x)
  obtain b' s res ec' em' where "worked cmd a b'" "proper_result s res ec' em'"
    "finish_command E (report_result E dev) (command_id cmd) s (placement_generation cmd) res ec' em' b' = Some (r, a')"
  proof (cases ec)
    case None
    with assms x that [where b' = "b\<lparr>ag_cache := map_option (cache_after cmd) (ag_cache b)\<rparr>" and s = Succeeded and
        res = result and ec' = None and em' = None] show thesis
      by (simp add: conclude_def update_placement_cache_def andThen_def proper_result_def)
  next
    case (Some code)
    with assms x that [where b' = b and s = Failed and res = None and ec' = "Some code" and em' = em] show thesis by (simp add: conclude_def proper_result_def)
  qed
  then show ?thesis using finish_footprint by blast
qed

lemma handling_footprint:
  assumes "tryExcept (andThen (on_trace (h cmd)) (conclude E (report_result E dev) (command_id cmd) cmd))
      (handler_raised E (report_result E dev) (command_id cmd) cmd) b = Some (r, a')" and b: "worked cmd a b"
  shows "worked cmd a a' \<or> marked_end dev cmd a a'"
proof -
  have body: "worked cmd a c \<or> r' = Inr () \<and> marked_end dev cmd a c"
    if "andThen (on_trace (h cmd)) (conclude E (report_result E dev) (command_id cmd) cmd) b = Some (r', c)" for r' c
    using that
  proof (cases rule: andThen_cases)
    case (raised e)
    then show ?thesis using worked_on_trace b by blast
  next
    case (returned x b')
    then show ?thesis using conclude_footprint worked_on_trace b by blast
  qed
  from assms(1) show ?thesis
  proof (cases rule: tryExcept_cases)
    case (handled e c q)
    then have "finish_command E (report_result E dev) (command_id cmd) Failed (placement_generation cmd) None
       (Some ''HANDLER_EXCEPTION'') (Some (take 1000 (exc_str e))) c = Some (r, a')"
      by (auto simp: handler_raised_def split: if_splits)
    moreover have "worked cmd a c" using body [OF handled(1)] by simp
    ultimately show ?thesis using finish_footprint by (fastforce simp: proper_result_def)
  qed (use body in blast)+
qed

lemma execute_footprint:
  assumes "execute E H (report_result E dev) (command_id cmd) cmd a = Some (r, a')"
    and "\<not> has_terminal_result (command_id cmd) (ag_journal a)"
  shows "worked cmd a a' \<or> marked_end dev cmd a a'"
proof (cases "H (operation cmd)")
  case None
  then have "finish_command E (report_result E dev) (command_id cmd) Failed (placement_generation cmd) None
      (Some ''NO_HANDLER'') (Some (no_handler_message E (operation cmd))) a = Some (r, a')"
    using assms(1) by (simp add: execute_def)
  from finish_footprint [OF this, of a] show ?thesis by (auto simp: proper_result_def)
next
  case (Some h)
  have writes: "writes_of cmd (ag_journal a) j" if "accepted_journal (command_id cmd) cmd (ag_journal a) j" for j
    using that by (auto simp: accepted_journal_def intro: writes_of.intros)
  from assms(1) Some show ?thesis
  proof (cases rule: execute_start)
    case (refused e us j)
    with writes show ?thesis by (simp add: worked_def)
  next
    case (started us j now b)
    have "\<not> has_terminal_result (command_id cmd) j"
      using accepted_journal_terminal [OF started(1)] assms(2) by simp
    with writes [OF started(1)] started(3) have "worked cmd a b" by (auto simp: worked_def intro: writes_of.started)
    with handling_footprint [where h = h, OF started(4)] show ?thesis by blast
  qed
qed

text \<open>Writes after the command was accepted are writes from before.\<close>

lemma writes_of_trans: "writes_of cmd j' k \<Longrightarrow> writes_of cmd j j' \<Longrightarrow> writes_of cmd j k"
  by (induction rule: writes_of.induct) (auto intro: writes_of.intros)

lemma writes_of_seen: "writes_of cmd j j' \<Longrightarrow> has_seen (command_id cmd) j \<Longrightarrow> has_seen (command_id cmd) j'"
  by (induction rule: writes_of.induct) (auto simp: has_seen_get journal_simps)

section \<open>The property of one command\<close>

text \<open>
  C7: A command touches only what is its own. Whatever its handler returns or raises, whatever Cloud answers and
  whatever the disk refuses, receiving an unfinished command changes the journal only by acceptances,
  \<open>running\<close> and results of this command, and at the end, if at all, by its mark, for which Cloud has answered 200
  to exactly the result of the row; it queues at most one message, \<open>CommandAccepted\<close>; it keeps the pending ids
  and the stop flag; and the calls it makes are added to those made before.
\<close>

theorem command_footprint:
  assumes "receive E C dev (ExecuteCommandMsg cmd) a = Some (r, a')"
    and "\<not> has_terminal_result (command_id cmd) (ag_journal a)"
  shows "\<exists>es ms j. ag_trace a' = ag_trace a @ es \<and>
     ag_outbound a' = map_option (\<lambda>q. q @ ms) (ag_outbound a) \<and> ms \<in> {[]} \<union> range (\<lambda>t. [CommandAcceptedMsg (command_id cmd) t]) \<and>
     ag_pending a' = ag_pending a \<and> ag_stopped a' = ag_stopped a \<and> writes_of cmd (ag_journal a) j \<and>
     (ag_journal a' = j \<or> (\<exists>now q s res ec em. ag_journal a' = mark_reported now (command_id cmd) j \<and>
        get_entry (command_id cmd) j = Some q \<and> holds s res ec em q \<and> s \<in> {Succeeded, Failed} \<and>
        acknowledged dev (command_id cmd) s res ec em (placement_generation cmd) (ag_trace a')))"
  using assms(1)
proof (cases rule: receive_command_cases)
  case (refused us e)
  then show ?thesis
    by (intro exI [of _ "map ReadUtc us"] exI [of _ "[]"] exI [of _ "ag_journal a"])
      (cases "ag_outbound a"; simp add: none_yet)
next
  case run
  let ?b = "accepting_agent E cmd a"
  obtain es where trace: "ag_trace a' = ag_trace a @ es"
    using accepting_appends execute_appends [OF run(2)] by (metis append.assoc)
  obtain t where out: "ag_outbound ?b = map_option (\<lambda>q. q @ [CommandAcceptedMsg (command_id cmd) t]) (ag_outbound a)"
    and same: "ag_pending ?b = ag_pending a" "ag_stopped ?b = ag_stopped a"
    by (simp add: accepting_agent_def Let_def)
  have first: "writes_of cmd (ag_journal a) (ag_journal ?b)"
    unfolding accepting_agent_journal by (intro writes_of.accepted none_yet)
  have line: "ag_outbound a' = map_option (\<lambda>q. q @ [CommandAcceptedMsg (command_id cmd) t]) (ag_outbound a) \<and>
      ag_pending a' = ag_pending a \<and> ag_stopped a' = ag_stopped a" if "same_line ?b a'"
    using that out same by (simp add: same_line_def)
  from execute_footprint [OF run(2) accepting_agent_unfinished [OF run(1)]] show ?thesis
  proof
    assume "worked cmd ?b a'"
    with line trace writes_of_trans [OF _ first] show ?thesis
      by (intro exI [of _ es] exI [of _ "[CommandAcceptedMsg (command_id cmd) t]"] exI [of _ "ag_journal a'"])
        (auto simp: worked_def)
  next
    assume "marked_end dev cmd ?b a'"
    then obtain j now s res ec em where m: "same_line ?b a'" "writes_of cmd (ag_journal ?b) j" "terminal s"
      "\<forall>q. get_entry (command_id cmd) j = Some q \<longrightarrow> holds s res ec em q"
      "acknowledged dev (command_id cmd) s res ec em (placement_generation cmd) (ag_trace a')"
      "ag_journal a' = mark_reported now (command_id cmd) j" by (auto simp: marked_end_def)
    obtain q where "get_entry (command_id cmd) j = Some q"
      using writes_of_seen [OF m(2)] accepting_agent_seen [of cmd E a] by (auto simp: has_seen_get)
    moreover have "s \<in> {Succeeded, Failed}" using m(3) by (cases s) simp_all
    ultimately have "\<exists>now q s res ec em. ag_journal a' = mark_reported now (command_id cmd) j \<and>
        get_entry (command_id cmd) j = Some q \<and> holds s res ec em q \<and> s \<in> {Succeeded, Failed} \<and>
        acknowledged dev (command_id cmd) s res ec em (placement_generation cmd) (ag_trace a')"
      using m(4-6) by blast
    with line [OF m(1)] trace writes_of_trans [OF m(2) first] show ?thesis
      by (intro exI [of _ es] exI [of _ "[CommandAcceptedMsg (command_id cmd) t]"] exI [of _ j]) simp
  qed
qed (use assms(2) in simp)

theorem command_footprint_witness:
  "\<exists>a' ms. receive (demo_env JNull) default_config ''dev-1''
       (ExecuteCommandMsg (demo_command COMMAND_OPERATION_RECONCILE JNull)) demo_agent = Some (Inr (), a') \<and>
     ag_outbound a' = Some ms \<and> ms \<in> {[]} \<union> range (\<lambda>t. [CommandAcceptedMsg ''cmd-1'' t])"
proof -
  obtain a' where run: "receive (demo_env JNull) default_config ''dev-1''
       (ExecuteCommandMsg (demo_command COMMAND_OPERATION_RECONCILE JNull)) demo_agent = Some (Inr (), a')"
    using demo_delivery by blast
  have "\<not> has_terminal_result (command_id (demo_command COMMAND_OPERATION_RECONCILE JNull)) (ag_journal demo_agent)"
    by (simp add: demo_agent_def has_terminal_result_def)
  from command_footprint [OF run this] run show ?thesis by (auto simp: demo_agent_def)
qed

end
