(* ===== verification/Client_Properties.thy ===== *)
theory Client_Properties
  imports Container_Maker Cloud_Client Demo_World
begin

text \<open>The properties of the retry helper and of the Cloud client's calls.\<close>

section \<open>The retry helper\<close>

text \<open>
  C30: A call with retries makes at least one attempt and at most \<open>max_attempts\<close>, and its trace is exactly
  its failed attempts, each an exception the policy accepts and each followed by one jittered
  sleep, and then the attempt whose outcome it returns. That last outcome is a value, or an
  exception that is not retryable, not an \<open>Exception\<close>, or that came from the last attempt allowed;
  the only other way out is a cancellation during a sleep.
\<close>

theorem call_with_retry_trace:
  assumes "single_call fn mk" and "0 < max_attempts"
    and "call_with_retry E fn retryable max_attempts base_delay max_delay t = Some (r, t')"
  shows "\<exists>eus final. t' = t @ retry_events mk base_delay max_delay 0 eus @ final \<and>
     length eus < max_attempts \<and> (\<forall>(e, u) \<in> set eus. is_exception e \<and> retryable e) \<and>
     retry_outcome mk retryable max_attempts (length eus) r final"
  using call_with_retry_run [OF assms] by metis

theorem call_with_retry_trace_witness:
  "\<exists>eus final. [HttpCall (consume_ticket_req ''tkt'') (Inr \<lparr>status_code = 200, content = ''null''\<rparr>)] =
     [] @ retry_events (HttpCall (consume_ticket_req ''tkt'')) (1 / 2) 5 0 eus @ final \<and> length eus < 3 \<and>
     retry_outcome (HttpCall (consume_ticket_req ''tkt'')) is_exception 3 (length eus) (Inr \<lparr>status_code = 200, content = ''null''\<rparr>) final"
proof -
  have "call_with_retry (demo_env JNull) (call_http (demo_env JNull) (consume_ticket_req ''tkt'')) is_exception 3 (1 / 2) 5 [] =
      Some (Inr \<lparr>status_code = 200, content = ''null''\<rparr>, [HttpCall (consume_ticket_req ''tkt'') (Inr \<lparr>status_code = 200, content = ''null''\<rparr>)])"
    by (simp add: call_with_retry_def call_http_def tryExcept_def numeral_3_eq_3 Let_def)
  from call_with_retry_trace [OF single_call_http _ this] show ?thesis by auto
qed

section \<open>The Cloud client\<close>

text \<open>A request that may have reached Cloud.\<close>

fun may_have_been_sent :: "event \<Rightarrow> bool" where
  "may_have_been_sent (HttpCall q (Inl e)) = (\<not> never_sent e)"
| "may_have_been_sent (HttpCall q (Inr resp)) = True"
| "may_have_been_sent _ = False"

text \<open>
  C36: A terminal ticket is never submitted twice. Consuming a ticket makes at most three attempts, all of
  the same request, and at most one of them can have reached Cloud; a ticket session is only returned
  from an answer with status 200 that ends the run.
\<close>

theorem ticket_sent_once:
  assumes "consume_terminal_ticket E ticket t = Some (r, t')"
  shows "\<exists>es. t' = t @ es \<and> count_events may_have_been_sent es \<le> 1 \<and>
     (\<forall>v. r = Inr v \<and> v \<noteq> JNull \<longrightarrow>
        (\<exists>fs resp. es = fs @ [HttpCall (consume_ticket_req ticket) (Inr resp)] \<and>
           status_code resp = 200 \<and> response_json resp = Inr v))"
proof -
  let ?q = "consume_ticket_req ticket"
  from assms obtain x where run: "call_with_retry_default E (call_http E ?q) connect_retryable t = Some (x, t')"
    and r: "\<And>v. r = Inr v \<Longrightarrow> v \<noteq> JNull \<Longrightarrow> \<exists>resp. x = Inr resp \<and> status_code resp = 200 \<and> response_json resp = Inr v"
    by (auto simp: consume_terminal_ticket_def andThen_def catching_run
        split: option.splits sum.splits if_splits)
  obtain eus final where es: "t' = t @ retry_events (HttpCall ?q) (1 / 2) 5 0 eus @ final"
    "retry_outcome (HttpCall ?q) connect_retryable 3 (length eus) x final"
    using call_with_retry_run [OF single_call_http _ run] by (metis zero_less_numeral)
  obtain es' where "t' = t @ es'" "count_events may_have_been_sent es' \<le> 1"
    using connect.harmful_once [OF single_call_http _ run, of may_have_been_sent] by auto
  with es(1) have "count_events may_have_been_sent (retry_events (HttpCall ?q) (1 / 2) 5 0 eus @ final) \<le> 1"
    by simp
  moreover have "\<exists>fs resp. retry_events (HttpCall ?q) (1 / 2) 5 0 eus @ final = fs @ [HttpCall ?q (Inr resp)] \<and>
      status_code resp = 200 \<and> response_json resp = Inr v" if "r = Inr v \<and> v \<noteq> JNull" for v
    using r [of v] that es(2) by (auto simp: retry_outcome_def)
  ultimately show ?thesis using es(1) by blast
qed

theorem ticket_sent_once_witness:
  "\<exists>r t'. consume_terminal_ticket (demo_env saved_reply) ''tkt'' [] = Some (r, t') \<and>
     count_events may_have_been_sent t' \<le> 1"
proof -
  have "\<exists>r t'. consume_terminal_ticket (demo_env saved_reply) ''tkt'' [] = Some (r, t')"
    by (simp add: consume_terminal_ticket_def andThen_def catching_run call_with_retry_def call_http_def
        tryExcept_def Let_def numeral_3_eq_3)
  then obtain r t' where run: "consume_terminal_ticket (demo_env saved_reply) ''tkt'' [] = Some (r, t')" by blast
  from ticket_sent_once [OF run] run show ?thesis by auto
qed

text \<open>
  Asking Cloud to hibernate can raise. When Cloud answers 202 with a body that is not JSON,
  \<open>request_hibernate\<close> raises the decoding error instead of returning its usual result.
\<close>

lemma request_hibernate_raises:
  assumes "http E t (hibernate_request_req dev cid skip) = Inr resp" and "status_code resp = 202"
    and "json_loads (content resp) = Inl e"
  shows "request_hibernate E dev cid skip t =
     Some (Inl e, t @ [HttpCall (hibernate_request_req dev cid skip) (Inr resp)])"
  using assms
  by (simp add: request_hibernate_def andThen_def catching_run call_with_retry_def call_http_def
      tryExcept_def Let_def numeral_3_eq_3 response_json_def)

end
