(* ===== verification/Sessions.thy ===== *)
theory Sessions
  imports Accounting
begin

text \<open>
  \<open>_connect_once\<close> of \<open>device_agent/control/grpc_client.py\<close> from the channel it opens to the channel it closes,
  and \<open>run_forever\<close> around it: one connection is a conversation, in which the generator, the inbound messages
  with the commands they execute, the heartbeat and the local API take turns until the call ends.
\<close>

section \<open>What a conversation is\<close>

text \<open>
  The turns of one connection, as far as the environment lets them happen: \<open>P s msg\<close> says which messages Cloud
  may have sent by then. A command is executed in one turn, or write by write with other turns between.
\<close>

inductive talk_step ::
  "env \<Rightarrow> config \<Rightarrow> string \<Rightarrow> manager \<Rightarrow> (stream \<Rightarrow> cloud_message \<Rightarrow> bool) \<Rightarrow> stream \<Rightarrow> stream \<Rightarrow> bool"
  for E C dev mg P
where
  talk_generator: "generator_step E C mg s s' \<Longrightarrow> talk_step E C dev mg P s s'"
| talk_received: "P s msg \<Longrightarrow> receive E C dev msg (st_agent s) = Some (Inr (), a) \<Longrightarrow>
    talk_step E C dev mg P s (s\<lparr>st_agent := a\<rparr>)"
| talk_heartbeat: "heartbeat E (st_agent s) = Some (Inr (), a) \<Longrightarrow> talk_step E C dev mg P s (s\<lparr>st_agent := a\<rparr>)"
| talk_queued: "send m (st_agent s) = Some (Inr (), a) \<Longrightarrow> talk_step E C dev mg P s (s\<lparr>st_agent := a\<rparr>)"
| talk_outside: "list_all (\<lambda>e. \<not> link_event e) es \<Longrightarrow> talk_step E C dev mg P s
    (s\<lparr>st_agent := (st_agent s)\<lparr>ag_trace := ag_trace (st_agent s) @ es\<rparr>\<rparr>)"
| talk_working: "\<not> has_terminal_result (command_id cmd) (ag_journal (st_agent s)) \<Longrightarrow>
    writes_of cmd (ag_journal (st_agent s)) j \<Longrightarrow>
    talk_step E C dev mg P s (s\<lparr>st_agent := (st_agent s)\<lparr>ag_journal := j, ag_cache := c\<rparr>\<rparr>)"
| talk_marked: "get_entry cid (ag_journal (st_agent s)) = Some q \<Longrightarrow> terminal (je_status q) \<Longrightarrow>
    holds (je_status q) res ec em q \<Longrightarrow>
    acknowledged dev cid (je_status q) res ec em gen (ag_trace (st_agent s)) \<Longrightarrow>
    talk_step E C dev mg P s
      (s\<lparr>st_agent := (st_agent s)\<lparr>ag_journal := mark_reported now cid (ag_journal (st_agent s))\<rparr>\<rparr>)"

text \<open>
  The whole of \<open>async for message in call\<close>: it ends when the call does, normally or with whatever gRPC
  raises, or with the exception of the message it is handling.
\<close>

definition conversation ::
  "env \<Rightarrow> config \<Rightarrow> string \<Rightarrow> manager \<Rightarrow> (stream \<Rightarrow> cloud_message \<Rightarrow> bool) \<Rightarrow> stream \<Rightarrow> py_exc + unit \<Rightarrow> agent \<Rightarrow> bool"
where
  "conversation E C dev mg P s r a' \<longleftrightarrow> (\<exists>u. (talk_step E C dev mg P)\<^sup>*\<^sup>* s u \<and>
     (a' = st_agent u \<or> (\<exists>msg. P u msg \<and> receive E C dev msg (st_agent u) = Some (r, a') \<and> isl r)))"

text \<open>A procedure that is one of the possible conversations, whatever state it starts in.\<close>

definition conversing ::
  "env \<Rightarrow> config \<Rightarrow> string \<Rightarrow> manager \<Rightarrow> (stream \<Rightarrow> cloud_message \<Rightarrow> bool) \<Rightarrow> (agent, unit) proc \<Rightarrow> bool"
where
  "conversing E C dev mg P talk \<longleftrightarrow> (\<forall>a r a'. talk a = Some (r, a') \<longrightarrow>
     conversation E C dev mg P (new_stream a) r a')"

text \<open>Any message at any time.\<close>

definition any_time :: "stream \<Rightarrow> cloud_message \<Rightarrow> bool" where
  "any_time s msg = True"

section \<open>Conversations that can be executed\<close>

text \<open>\<open>outbound_gen\<close> resumed: to its next \<open>yield\<close>, its wait for the queue, or the exception it raises.\<close>

fun resume_generator :: "env \<Rightarrow> config \<Rightarrow> manager \<Rightarrow> stream \<Rightarrow> stream" where
  "resume_generator E C mg s = (case st_gen s of
       NotStarted \<Rightarrow> s\<lparr>st_gen := HelloSent, st_wire := st_wire s @ [build_hello C mg]\<rparr>
     | HelloSent \<Rightarrow>
         (case read_journal E unreported_terminal_entries (st_agent s) of
            Some (Inr unreported, a) \<Rightarrow>
              (let b = a\<lparr>ag_pending := map je_command_id unreported\<rparr> in
               case messages_for_entries unreported of
                 Inl e \<Rightarrow> s\<lparr>st_gen := Broken, st_unreported := unreported, st_agent := b\<rparr>
               | Inr [] \<Rightarrow> s\<lparr>st_gen := Serving, st_unreported := unreported, st_agent := b\<rparr>
               | Inr (m # ms) \<Rightarrow> s\<lparr>st_gen := Resending ms, st_unreported := unreported,
                   st_wire := st_wire s @ [m], st_agent := b\<rparr>)
          | _ \<Rightarrow> s\<lparr>st_gen := Broken\<rparr>)
     | Resending [] \<Rightarrow> s\<lparr>st_gen := Serving\<rparr>
     | Resending (m # ms) \<Rightarrow> s\<lparr>st_gen := Resending ms, st_wire := st_wire s @ [m]\<rparr>
     | Serving \<Rightarrow>
         (case ag_outbound (st_agent s) of
            Some (m # q) \<Rightarrow> s\<lparr>st_agent := (st_agent s)\<lparr>ag_outbound := Some q\<rparr>, st_wire := st_wire s @ [m]\<rparr>
          | _ \<Rightarrow> s)
     | Broken \<Rightarrow> s)"

definition waiting :: "stream \<Rightarrow> bool" where
  "waiting s \<longleftrightarrow> st_gen s = Broken \<or> st_gen s = Serving \<and> ag_outbound (st_agent s) \<in> {None, Some []}"

text \<open>What happens next on a connection, and a conversation that follows such a script.\<close>

datatype happening =
    GeneratorResumed
  | Arrived cloud_message
  | HeartbeatDue
  | MessageQueued device_message
  | HttpCalled http_request
  | CallEnded "py_exc + unit"

definition on_agent :: "stream \<Rightarrow> ((py_exc + 'a) \<times> agent) option \<Rightarrow> ((py_exc + 'a) \<times> stream) option" where
  "on_agent s x = map_option (\<lambda>(r, a). (r, s\<lparr>st_agent := a\<rparr>)) x"

partial_function (option) play_script ::
  "env \<Rightarrow> config \<Rightarrow> string \<Rightarrow> manager \<Rightarrow> (nat \<Rightarrow> happening) \<Rightarrow> nat \<Rightarrow> stream \<Rightarrow> ((py_exc + unit) \<times> stream) option"
where
  "play_script E C dev mg script i s =
     (case script i of
        CallEnded r \<Rightarrow> Some (r, s)
      | GeneratorResumed \<Rightarrow> play_script E C dev mg script (Suc i) (resume_generator E C mg s)
      | Arrived msg \<Rightarrow> (case on_agent s (receive E C dev msg (st_agent s)) of
            None \<Rightarrow> None
          | Some (r, s') \<Rightarrow> (case r of Inl e \<Rightarrow> Some (Inl e, s') | Inr _ \<Rightarrow> play_script E C dev mg script (Suc i) s'))
      | HeartbeatDue \<Rightarrow> (case on_agent s (heartbeat E (st_agent s)) of
            None \<Rightarrow> None
          | Some (r, s') \<Rightarrow> play_script E C dev mg script (Suc i) s')
      | MessageQueued m \<Rightarrow> (case on_agent s (send m (st_agent s)) of
            None \<Rightarrow> None
          | Some (r, s') \<Rightarrow> play_script E C dev mg script (Suc i) s')
      | HttpCalled q \<Rightarrow> (case on_agent s (on_trace (call_http E q) (st_agent s)) of
            None \<Rightarrow> None
          | Some (r, s') \<Rightarrow> play_script E C dev mg script (Suc i) s'))"

definition scripted :: "env \<Rightarrow> config \<Rightarrow> string \<Rightarrow> manager \<Rightarrow> (trace \<Rightarrow> nat \<Rightarrow> happening) \<Rightarrow> (agent, unit) proc" where
  "scripted E C dev mg scripts = (\<lambda>a.
     map_option (\<lambda>(r, s). (r, st_agent s)) (play_script E C dev mg (scripts (ag_trace a)) 0 (new_stream a)))"

section \<open>The generator as a program and as steps\<close>

lemma generator_step_iff:
  "generator_step E C mg s s' \<longleftrightarrow> \<not> waiting s \<and> s' = resume_generator E C mg s"
proof
  assume "generator_step E C mg s s'"
  then show "\<not> waiting s \<and> s' = resume_generator E C mg s"
    by cases (auto simp: waiting_def read_journal_def Let_def split: option.splits)
next
  assume s': "\<not> waiting s \<and> s' = resume_generator E C mg s"
  show "generator_step E C mg s s'"
  proof (cases "st_gen s")
    case NotStarted
    with s' show ?thesis using yield_hello by simp
  next
    case HelloSent
    let ?rs = "unreported_terminal_entries (ag_journal (st_agent s))"
    have batch: "messages_for_entries ?rs = Inr (batch ?rs)" by (simp add: messages_batch)
    show ?thesis
    proof (cases "disk_error E (ag_trace (st_agent s))")
      case None
      with HelloSent s' batch show ?thesis
        using read_some [OF HelloSent None refl] read_nothing [OF HelloSent None refl]
        by (cases "batch ?rs") (auto simp: read_journal_def Let_def)
    next
      case (Some m)
      with HelloSent s' cannot_read [OF HelloSent] show ?thesis by (simp add: read_journal_def)
    qed
  next
    case (Resending ms)
    with s' show ?thesis using yield_resend resends_done by (cases ms) auto
  next
    case Serving
    with s' obtain m q where "ag_outbound (st_agent s) = Some (m # q)"
      by (cases "ag_outbound (st_agent s)") (auto simp: waiting_def neq_Nil_conv)
    with Serving s' yield_queued show ?thesis by simp
  qed (use s' in \<open>simp add: waiting_def\<close>)
qed

lemma resume_waiting: "waiting s \<Longrightarrow> resume_generator E C mg s = s"
  by (auto simp: waiting_def)

lemma resume_talks: "(talk_step E C dev mg P)\<^sup>*\<^sup>* s (resume_generator E C mg s)"
proof (cases "waiting s")
  case False
  then show ?thesis
    by (intro r_into_rtranclp talk_generator) (simp only: generator_step_iff simp_thms)
qed (simp only: resume_waiting rtranclp.rtrancl_refl)

text \<open>Every script plays a conversation.\<close>

lemma conversation_later:
  assumes "(talk_step E C dev mg P)\<^sup>*\<^sup>* s s'" and "conversation E C dev mg P s' r a"
  shows "conversation E C dev mg P s r a"
proof -
  obtain u where "(talk_step E C dev mg P)\<^sup>*\<^sup>* s' u"
    "a = st_agent u \<or> (\<exists>msg. P u msg \<and> receive E C dev msg (st_agent u) = Some (r, a) \<and> isl r)"
    using assms(2) by (auto simp: conversation_def)
  with rtranclp_trans [OF assms(1)] show ?thesis unfolding conversation_def by blast
qed

lemma play_script_talks:
  assumes "play_script E C dev mg script i s = Some (r, s')"
  shows "conversation E C dev mg any_time s r (st_agent s')"
proof -
  define Q where "Q = (\<lambda>(E :: env) (C :: config) dev mg (script :: nat \<Rightarrow> happening) (i :: nat) s (x :: (py_exc + unit) \<times> stream).
     conversation E C dev mg any_time s (fst x) (st_agent (snd x)))"
  have "Q E C dev mg script i s (r, s')"
  proof (rule play_script.raw_induct [where P = Q, OF _ assms])
    fix loop E C dev mg script i s x
    assume IH: "\<And>E C dev mg script i s y. loop E C dev mg script i s = Some y \<Longrightarrow> Q E C dev mg script i s y"
      and eq: "(case script i of
        CallEnded r \<Rightarrow> Some (r, s)
      | GeneratorResumed \<Rightarrow> loop E C dev mg script (Suc i) (resume_generator E C mg s)
      | Arrived msg \<Rightarrow> (case on_agent s (receive E C dev msg (st_agent s)) of
            None \<Rightarrow> None
          | Some (r, s') \<Rightarrow> (case r of Inl e \<Rightarrow> Some (Inl e, s') | Inr _ \<Rightarrow> loop E C dev mg script (Suc i) s'))
      | HeartbeatDue \<Rightarrow> (case on_agent s (heartbeat E (st_agent s)) of
            None \<Rightarrow> None | Some (r, s') \<Rightarrow> loop E C dev mg script (Suc i) s')
      | MessageQueued m \<Rightarrow> (case on_agent s (send m (st_agent s)) of
            None \<Rightarrow> None | Some (r, s') \<Rightarrow> loop E C dev mg script (Suc i) s')
      | HttpCalled q \<Rightarrow> (case on_agent s (on_trace (call_http E q) (st_agent s)) of
            None \<Rightarrow> None | Some (r, s') \<Rightarrow> loop E C dev mg script (Suc i) s')) = Some x"
    have onward: "Q E C dev mg script i s x" if "(talk_step E C dev mg any_time)\<^sup>*\<^sup>* s s1" "loop E C dev mg script (Suc i) s1 = Some x" for s1
      using IH [OF that(2)] conversation_later [OF that(1)] by (simp add: Q_def)
    show "Q E C dev mg script i s x"
    proof (cases "script i")
      case GeneratorResumed
      with eq onward [OF resume_talks] show ?thesis by (simp del: resume_generator.simps)
    next
      case (Arrived msg)
      with eq obtain r1 a1 where a1: "receive E C dev msg (st_agent s) = Some (r1, a1)"
        by (auto simp: on_agent_def split: option.splits)
      show ?thesis
      proof (cases r1)
        case (Inl e)
        with eq Arrived a1 have "x = (Inl e, s\<lparr>st_agent := a1\<rparr>)" by (simp add: on_agent_def)
        with a1 Inl show ?thesis by (auto simp: Q_def conversation_def any_time_def)
      next
        case (Inr u)
        with a1 have "talk_step E C dev mg any_time s (s\<lparr>st_agent := a1\<rparr>)"
          by (intro talk_received [of _ _ msg]) (simp_all add: any_time_def)
        with eq Arrived a1 Inr onward [OF r_into_rtranclp] show ?thesis by (simp add: on_agent_def)
      qed
    next
      case HeartbeatDue
      then obtain a1 where a1: "heartbeat E (st_agent s) = Some (Inr (), a1)"
        by (simp add: heartbeat_def andThen_def on_trace_run read_unix_ms_def send_run Let_def)
      from talk_heartbeat [OF a1] have "talk_step E C dev mg any_time s (s\<lparr>st_agent := a1\<rparr>)" .
      with eq HeartbeatDue a1 onward [OF r_into_rtranclp] show ?thesis by (simp add: on_agent_def)
    next
      case (MessageQueued m)
      then obtain a1 where a1: "send m (st_agent s) = Some (Inr (), a1)" by (simp add: send_run)
      from talk_queued [OF a1] have "talk_step E C dev mg any_time s (s\<lparr>st_agent := a1\<rparr>)" .
      with eq MessageQueued a1 onward [OF r_into_rtranclp] show ?thesis by (simp add: on_agent_def)
    next
      case (HttpCalled q)
      let ?e = "HttpCall q (http E (ag_trace (st_agent s)) q)"
      have "talk_step E C dev mg any_time s (s\<lparr>st_agent := (st_agent s)\<lparr>ag_trace := ag_trace (st_agent s) @ [?e]\<rparr>\<rparr>)"
        by (rule talk_outside) simp
      with eq HttpCalled onward [OF r_into_rtranclp] show ?thesis by (simp add: on_agent_def on_trace_run call_http_def Let_def)
    next
      case (CallEnded r1)
      with eq show ?thesis by (auto simp: Q_def conversation_def)
    qed
  qed
  then show ?thesis by (simp add: Q_def)
qed

lemma scripted_conversing: "conversing E C dev mg any_time (scripted E C dev mg scripts)"
  unfolding conversing_def scripted_def using play_script_talks by fastforce

section \<open>What a conversation does to the agent\<close>

definition calmly :: "agent \<Rightarrow> agent \<Rightarrow> bool" where
  "calmly a a' \<longleftrightarrow> (\<exists>es. ag_trace a' = ag_trace a @ es \<and> list_all no_link es) \<and> ag_stopped a' = ag_stopped a"

lemma calmly_same: "ag_trace a' = ag_trace a \<Longrightarrow> ag_stopped a' = ag_stopped a \<Longrightarrow> calmly a a'"
  by (simp add: calmly_def)

lemma calmly_trans: "calmly a b \<Longrightarrow> calmly b c \<Longrightarrow> calmly a c"
  by (auto simp: calmly_def)

lemma calm_calmly: "calm p \<Longrightarrow> p a = Some (r, a') \<Longrightarrow> calmly a a'"
  using calmD by (fastforce simp: calmly_def)

lemma generator_agent:
  assumes "generator_step E C mg s s'"
  shows "calmly (st_agent s) (st_agent s') \<and> (agent_step E C dev)\<^sup>*\<^sup>* (st_agent s) (st_agent s')"
  using assms
proof cases
  case (read_some rs m ms)
  then show ?thesis by (auto simp: calmly_same intro: r_into_rtranclp batch_read)
next
  case (read_nothing rs)
  then show ?thesis by (auto simp: calmly_same intro: r_into_rtranclp batch_read)
next
  case (yield_queued m q)
  from message_taken [OF yield_queued(3)] yield_queued(1) show ?thesis by (auto simp: calmly_same)
qed (simp_all add: calmly_same)

lemma heartbeat_agent:
  assumes "heartbeat E a = Some (Inr (), a')"
  shows "(agent_step E C dev)\<^sup>*\<^sup>* a a'"
proof -
  let ?ms = "unix_ms E (ag_trace a)"
  let ?b = "a\<lparr>ag_trace := ag_trace a @ [ReadUnixMs ?ms]\<rparr>"
  have "send (HeartbeatMsg ?ms) ?b = Some (Inr (), a')"
    using assms by (simp add: heartbeat_def andThen_def on_trace_run read_unix_ms_def Let_def)
  then have "agent_step E C dev ?b a'" by (rule message_queued)
  moreover have "agent_step E C dev a ?b" by (rule outside_calls)
  ultimately show ?thesis by simp
qed

lemma talk_step_agent:
  assumes "talk_step E C dev mg P s s'"
  shows "calmly (st_agent s) (st_agent s') \<and> (agent_step E C dev)\<^sup>*\<^sup>* (st_agent s) (st_agent s')"
  using assms
proof cases
  case talk_generator
  then show ?thesis by (rule generator_agent)
next
  case (talk_received msg a)
  with calm_calmly [OF receive_calm] inbound_message show ?thesis by fastforce
next
  case (talk_heartbeat a)
  with calm_calmly [OF heartbeat_calm] heartbeat_agent show ?thesis by simp
next
  case (talk_queued m a)
  with calm_calmly [OF calm_send] message_queued show ?thesis by fastforce
next
  case (talk_outside es)
  then show ?thesis by (auto simp: calmly_def intro: outside_calls)
next
  case (talk_working cmd j c)
  from working [OF talk_working(2,3)] talk_working(1) show ?thesis by (auto simp: calmly_same)
next
  case (talk_marked cid q res ec em gen now)
  from marked [OF talk_marked(2-5)] talk_marked(1) show ?thesis by (auto simp: calmly_same)
qed

lemma talk_steps_agent:
  "(talk_step E C dev mg P)\<^sup>*\<^sup>* s s' \<Longrightarrow>
    calmly (st_agent s) (st_agent s') \<and> (agent_step E C dev)\<^sup>*\<^sup>* (st_agent s) (st_agent s')"
proof (induction rule: rtranclp_induct)
  case base
  then show ?case by (simp add: calmly_same)
next
  case (step u v)
  with talk_step_agent [OF step.hyps(2)] calmly_trans show ?case by (meson rtranclp_trans)
qed

lemma conversation_agent:
  assumes "conversation E C dev mg P s r a'"
  shows "calmly (st_agent s) a' \<and> (agent_step E C dev)\<^sup>*\<^sup>* (st_agent s) a'"
proof -
  obtain u where u: "(talk_step E C dev mg P)\<^sup>*\<^sup>* s u"
    "a' = st_agent u \<or> (\<exists>msg. receive E C dev msg (st_agent u) = Some (r, a'))"
    using assms by (auto simp: conversation_def)
  note talked = talk_steps_agent [OF u(1)]
  from u(2) show ?thesis
  proof
    assume "\<exists>msg. receive E C dev msg (st_agent u) = Some (r, a')"
    then obtain msg where msg: "receive E C dev msg (st_agent u) = Some (r, a')" by blast
    from inbound_message [OF this] calm_calmly [OF receive_calm msg] talked calmly_trans show ?thesis
      by (meson rtranclp.rtrancl_into_rtrancl)
  qed (use talked in simp)
qed

section \<open>One connection\<close>

text \<open>
  \<open>_connect_once\<close>. The new queue is in place before the call, the conversation is the parameter \<open>talk\<close>, and the
  channel is closed however that ends. (The heartbeat is cancelled with the call: it is part of \<open>talk\<close>.)
\<close>

definition connect_once :: "env \<Rightarrow> settings \<Rightarrow> manager \<Rightarrow> (agent, unit) proc \<Rightarrow> (agent, unit) proc" where
  "connect_once E F mg talk =
     andThen (on_trace (open_channel E (fst (dial F mg)))) (\<lambda>_.
       ensuring
         (andThen (modify (\<lambda>a. a\<lparr>ag_outbound := Some []\<rparr>)) (\<lambda>_.
          andThen (on_trace (call_connect (snd (dial F mg)))) (\<lambda>_. talk)))
         (on_trace (close_channel E)))"

text \<open>The channels a trace leaves open.\<close>

fun link_change :: "event \<Rightarrow> int" where
  "link_change (LinkOpened _ None) = 1"
| "link_change (LinkClosed _) = - 1"
| "link_change _ = 0"

definition links_open :: "trace \<Rightarrow> int" where
  "links_open t = sum_list (map link_change t)"

lemma links_open_simps [simp]:
  "links_open [] = 0" "links_open (e # t) = link_change e + links_open t"
  "links_open (t @ t') = links_open t + links_open t'"
  by (simp_all add: links_open_def)

lemma links_open_none: "list_all no_link t \<Longrightarrow> links_open t = 0"
proof (induction t)
  case (Cons e t)
  then show ?case by (cases e) simp_all
qed simp

text \<open>The attempts to connect in a trace.\<close>

fun is_attempt :: "event \<Rightarrow> bool" where
  "is_attempt (LinkOpened _ _) = True"
| "is_attempt _ = False"

definition attempts :: "trace \<Rightarrow> nat" where
  "attempts t = length (filter is_attempt t)"

lemma attempts_simps [simp]:
  "attempts [] = 0" "attempts (e # t) = (if is_attempt e then Suc (attempts t) else attempts t)"
  "attempts (t @ t') = attempts t + attempts t'"
  by (simp_all add: attempts_def)

lemma attempts_none: "list_all no_link t \<Longrightarrow> attempts t = 0"
proof (induction t)
  case (Cons e t)
  then show ?case by (cases e) simp_all
qed simp

text \<open>Events that belong to the configured address and the device's credential, with at most one channel open.\<close>

fun addressed :: "settings \<Rightarrow> manager \<Rightarrow> event \<Rightarrow> bool" where
  "addressed F mg (LinkOpened ch _) = (ch = default_channel_factory F)"
| "addressed F mg (ConnectCalled md) = (md = [(''authorization'', bearer (mg_device_token mg))])"
| "addressed F mg _ = True"

definition links_ok :: "settings \<Rightarrow> manager \<Rightarrow> trace \<Rightarrow> bool" where
  "links_ok F mg es \<longleftrightarrow> links_open es = 0 \<and> (\<forall>t. prefix t es \<longrightarrow> links_open t \<in> {0, 1}) \<and> (\<forall>e \<in> set es. addressed F mg e)"

lemma no_link_addressed: "no_link e \<Longrightarrow> addressed F mg e"
  by (cases e) simp_all

lemma links_ok_none:
  assumes "list_all no_link es"
  shows "links_ok F mg es"
proof -
  have "list_all no_link t" if "prefix t es" for t using that assms by (auto simp: prefix_def)
  then show ?thesis
    using assms links_open_none by (fastforce simp: links_ok_def list_all_iff no_link_addressed)
qed

lemma links_ok_append:
  assumes "links_ok F mg es" and "links_ok F mg es'"
  shows "links_ok F mg (es @ es')"
  unfolding links_ok_def
proof (intro conjI allI impI)
  fix t
  assume "prefix t (es @ es')"
  then consider "prefix t es" | u where "t = es @ u" "prefix u es'" by (auto simp: prefix_append)
  then show "links_open t \<in> {0, 1}" using assms by cases (auto simp: links_ok_def)
qed (use assms in \<open>auto simp: links_ok_def\<close>)

lemma prefix_snoc_cases: "prefix t (es @ [e]) \<longleftrightarrow> prefix t es \<or> t = es @ [e]"
  by auto

lemma links_ok_session:
  assumes "list_all no_link ts"
  shows "links_ok F mg ([LinkOpened (fst (dial F mg)) None, ConnectCalled (snd (dial F mg))] @ ts @ [LinkClosed x])"
proof -
  have "links_open t = 0" if "prefix t ts" for t
    using that assms by (intro links_open_none) (auto simp: prefix_def)
  then have "links_open t \<in> {0, - 1}" if "prefix t (ts @ [LinkClosed x])" for t
    using that links_open_none [OF assms] unfolding prefix_snoc_cases by auto
  then have "links_open t \<in> {0, 1}" if "prefix t (LinkOpened ch None # ConnectCalled md # ts @ [LinkClosed x])" for t ch md
    using that by (fastforce simp: prefix_Cons)
  then show ?thesis
    using assms links_open_none [OF assms] by (auto simp: links_ok_def dial_def list_all_iff no_link_addressed)
qed

lemma links_ok_refused: "links_ok F mg [LinkOpened (fst (dial F mg)) (Some e)]"
  by (auto simp: links_ok_def dial_def prefix_Cons)

text \<open>One connection, whole.\<close>

lemma connect_once_run:
  assumes "conversing E C dev mg P talk" and "connect_once E F mg talk a = Some (r, a')"
  shows "(\<exists>es. ag_trace a' = ag_trace a @ es \<and> links_ok F mg es \<and> attempts es = 1) \<and> ag_stopped a' = ag_stopped a \<and>
     (agent_step E C dev)\<^sup>*\<^sup>* a a'"
proof -
  let ?ch = "fst (dial F mg)" and ?md = "snd (dial F mg)"
  let ?x = "open_link E (ag_trace a) ?ch"
  let ?b = "a\<lparr>ag_trace := ag_trace a @ [LinkOpened ?ch ?x]\<rparr>"
  have open_: "on_trace (open_channel E ?ch) a = Some (verdict ?x, ?b)"
    by (simp add: on_trace_run open_channel_def Let_def)
  have b: "agent_step E C dev a ?b" by (rule outside_calls)
  show ?thesis
  proof (cases ?x)
    case (Some e)
    with assms(2) open_ have "a' = ?b" by (simp add: connect_once_def andThen_def)
    with b Some links_ok_refused [of F mg e] show ?thesis by auto
  next
    case None
    let ?c = "?b\<lparr>ag_outbound := Some []\<rparr>"
    let ?d = "?c\<lparr>ag_trace := ag_trace ?b @ [ConnectCalled ?md]\<rparr>"
    have c: "agent_step E C dev ?b ?c" by (rule connected)
    have d: "agent_step E C dev ?c ?d" using outside_calls [of E C dev ?c] by simp
    have body: "connect_once E F mg talk a = ensuring talk (on_trace (close_channel E)) ?d"
      using open_ None by (simp add: connect_once_def andThen_def ensuring_def on_trace_run call_connect_def)
    with assms(2) obtain r1 f where f: "talk ?d = Some (r1, f)" by (auto simp: ensuring_def split: option.splits)
    then have "conversation E C dev mg P (new_stream ?d) r1 f" using assms(1) by (simp add: conversing_def)
    moreover have "st_agent (new_stream ?d) = ?d" by (cases a) (simp add: new_stream_def)
    ultimately have talked: "calmly ?d f" "(agent_step E C dev)\<^sup>*\<^sup>* ?d f" using conversation_agent by metis+
    let ?y = "close_link E (ag_trace f)"
    from body assms(2) f have a': "a' = f\<lparr>ag_trace := ag_trace f @ [LinkClosed ?y]\<rparr>"
      by (auto simp: ensuring_def on_trace_run close_channel_def Let_def split: sum.splits)
    obtain ts where ts: "ag_trace f = ag_trace ?d @ ts" "list_all no_link ts" and "ag_stopped f = ag_stopped a"
      using talked(1) by (auto simp: calmly_def)
    moreover have "agent_step E C dev f a'" unfolding a' by (rule outside_calls)
    with talked(2) b c d have "(agent_step E C dev)\<^sup>*\<^sup>* a a'"
      by (meson converse_rtranclp_into_rtranclp rtranclp.rtrancl_into_rtrancl)
    moreover have "ag_trace a' = ag_trace a @ [LinkOpened ?ch None, ConnectCalled ?md] @ ts @ [LinkClosed ?y]"
      using ts(1) None by (simp add: a')
    ultimately show ?thesis using links_ok_session [OF ts(2)] attempts_none [OF ts(2)] by (simp add: a')
  qed
qed

section \<open>The reconnect loop\<close>

text \<open>
  How far \<open>run_forever\<close> can get, from attempt \<open>n\<close> of the agent \<open>a\<close>: whole rounds, and between them, while it sleeps,
  what the local API and other tasks queue and call.
\<close>

inductive served ::
  "env \<Rightarrow> config \<Rightarrow> (agent, unit) proc \<Rightarrow> nat \<Rightarrow> agent \<Rightarrow> nat \<Rightarrow> agent \<Rightarrow> bool" for E C connect n a
where
  served_start: "served E C connect n a n a"
| served_round: "served E C connect n a m b \<Longrightarrow> \<not> ag_stopped b \<Longrightarrow>
    reconnect_round E C connect m b = Some (Inr (Some k), c) \<Longrightarrow> served E C connect n a k c"
| served_queued: "served E C connect n a m b \<Longrightarrow> send msg b = Some (r, c) \<Longrightarrow> served E C connect n a m c"
| served_outside: "served E C connect n a m b \<Longrightarrow> list_all no_link es \<Longrightarrow>
    served E C connect n a m (b\<lparr>ag_trace := ag_trace b @ es\<rparr>)"

text \<open>A round, a served run and the whole loop: the agent makes its steps, and its channels are in order.\<close>

definition serves :: "env \<Rightarrow> config \<Rightarrow> settings \<Rightarrow> string \<Rightarrow> manager \<Rightarrow> agent \<Rightarrow> agent \<Rightarrow> bool" where
  "serves E C F dev mg a a' \<longleftrightarrow> (\<exists>es. ag_trace a' = ag_trace a @ es \<and> links_ok F mg es) \<and>
     ag_stopped a' = ag_stopped a \<and> (agent_step E C dev)\<^sup>*\<^sup>* a a'"

lemma serves_refl: "serves E C F dev mg a a"
  by (auto simp: serves_def intro: links_ok_none)

lemma serves_trans: "serves E C F dev mg a b \<Longrightarrow> serves E C F dev mg b c \<Longrightarrow> serves E C F dev mg a c"
  unfolding serves_def using links_ok_append by (fastforce intro: rtranclp_trans)

lemma serves_outside:
  assumes "list_all no_link es"
  shows "serves E C F dev mg a (a\<lparr>ag_trace := ag_trace a @ es\<rparr>)"
  using links_ok_none [OF assms] outside_calls [of E C dev a es] by (auto simp: serves_def)

lemma on_trace_extends:
  assumes "on_trace p a = Some (r, b)" and "emits no_link p"
  obtains es where "b = a\<lparr>ag_trace := ag_trace a @ es\<rparr>" and "list_all no_link es"
proof -
  obtain t where t: "p (ag_trace a) = Some (r, t)" and b: "b = a\<lparr>ag_trace := t\<rparr>"
    using assms(1) by (auto simp: on_trace_run split: option.splits)
  from emitsD [OF assms(2) t] b that show thesis by blast
qed

text \<open>A round and a served run as a transitive relation of the agent that the connections and the calls outside make.\<close>

lemma round_related:
  assumes "reconnect_round E C connect n a = Some (r, a')"
    and connected: "\<And>x b. connect a = Some (x, b) \<Longrightarrow> R a b"
    and trans: "\<And>x y z. R x y \<Longrightarrow> R y z \<Longrightarrow> R x z"
    and silent: "\<And>x es. list_all no_link es \<Longrightarrow> R x (x\<lparr>ag_trace := ag_trace x @ es\<rparr>)"
  shows "R a a'"
proof -
  from assms(1) show ?thesis
    unfolding reconnect_round_def
  proof (cases rule: andThen_cases)
    case (raised e)
    with connected show ?thesis by (auto simp: session_run split: option.splits sum.splits if_splits)
  next
    case (returned m b)
    then obtain x where "connect a = Some (x, b)"
      by (auto simp: session_run split: option.splits sum.splits if_splits)
    note b = connected [OF this]
    show ?thesis
    proof (cases "ag_stopped b")
      case True
      with returned(2) b show ?thesis by simp
    next
      case False
      have waits: "R x y" if "on_trace p x = Some (v, y)" "emits no_link p" for p :: "(trace, rat) proc" and x v y
        using on_trace_extends [OF that] silent by metis
      have sleeps: "R x y" if "on_trace p x = Some (v, y)" "emits no_link p" for p :: "(trace, unit) proc" and x v y
        using on_trace_extends [OF that] silent by metis
      have emit: "emits no_link (backoff_seconds E C m)" "emits no_link (sleep E d)" for d
        by (auto simp: backoff_seconds_def Let_def intro!: emits_intros)
      from returned(2) False have "andThen (on_trace (backoff_seconds E C m)) (\<lambda>delay.
          andThen (on_trace (sleep E delay)) (\<lambda>_. ret (Some (Suc m)))) b = Some (r, a')" by simp
      then show ?thesis
      proof (cases rule: andThen_cases)
        case (raised e)
        from trans [OF b waits [OF raised(1) emit(1)]] show ?thesis .
      next
        case (returned d c)
        note c = trans [OF b waits [OF returned(1) emit(1)]]
        from returned(2) show ?thesis
        proof (cases rule: andThen_cases)
          case (raised e)
          from trans [OF c sleeps [OF raised(1) emit(2)]] show ?thesis .
        next
          case (returned u f)
          from trans [OF c sleeps [OF returned(1) emit(2)]] returned(2) show ?thesis by simp
        qed
      qed
    qed
  qed
qed

lemma round_serves:
  assumes "conversing E C dev mg P talk" and "reconnect_round E C (connect_once E F mg talk) n a = Some (r, a')"
  shows "serves E C F dev mg a a'"
proof (rule round_related [OF assms(2)])
  show "serves E C F dev mg a b" if "connect_once E F mg talk a = Some (x, b)" for x b
    using connect_once_run [OF assms(1) that] by (auto simp: serves_def)
qed (use serves_trans serves_outside in blast)+

lemma served_serves:
  assumes "served E C (connect_once E F mg talk) n a m b" and "conversing E C dev mg P talk"
  shows "serves E C F dev mg a b"
  using assms(1)
proof induction
  case served_start
  show ?case by (rule serves_refl)
next
  case (served_round m b k c)
  from serves_trans [OF served_round.IH round_serves [OF assms(2) served_round.hyps(3)]] show ?case .
next
  case (served_queued m b msg r c)
  have "serves E C F dev mg b c"
    using calmD [OF calm_send served_queued.hyps(2)] message_queued [OF served_queued.hyps(2)] links_ok_none
    by (auto simp: serves_def)
  with served_queued.IH show ?case by (rule serves_trans)
next
  case (served_outside m b es)
  from serves_trans [OF served_outside.IH serves_outside [OF served_outside.hyps(2)]] show ?case .
qed

text \<open>What \<open>run_forever\<close> returns comes from the last round it got to.\<close>

lemma run_forever_served:
  assumes "run_forever E C connect n a = Some (r, a')"
  shows "\<exists>m b. served E C connect n a m b \<and>
     (a' = b \<and> ag_stopped b \<and> r = Inr () \<or> \<not> ag_stopped b \<and> (\<exists>x. reconnect_round E C connect m b = Some (x, a')))"
proof -
  define Q where "Q = (\<lambda>E C connect n a (x :: (py_exc + unit) \<times> agent). \<forall>n0 a0. served E C connect n0 a0 n a \<longrightarrow>
     (\<exists>m b. served E C connect n0 a0 m b \<and> (snd x = b \<and> ag_stopped b \<and> fst x = Inr () \<or>
        \<not> ag_stopped b \<and> (\<exists>y. reconnect_round E C connect m b = Some (y, snd x)))))"
  have "Q E C connect n a (r, a')"
  proof (rule run_forever.raw_induct [where P = Q, OF _ assms])
    fix loop E C connect n a x
    assume IH: "\<And>E C connect n a y. loop E C connect n a = Some y \<Longrightarrow> Q E C connect n a y"
      and eq: "(if ag_stopped a then Some (Inr (), a)
      else (case reconnect_round E C connect n a of
        None \<Rightarrow> None
      | Some (r, a') \<Rightarrow> (case r of
            Inl e \<Rightarrow> Some (Inl e, a')
          | Inr next \<Rightarrow> (case next of None \<Rightarrow> Some (Inr (), a') | Some m \<Rightarrow> loop E C connect m a')))) = Some x"
    show "Q E C connect n a x"
      unfolding Q_def
    proof (intro allI impI)
      fix n0 a0
      assume here: "served E C connect n0 a0 n a"
      show "\<exists>m b. served E C connect n0 a0 m b \<and> (snd x = b \<and> ag_stopped b \<and> fst x = Inr () \<or>
        \<not> ag_stopped b \<and> (\<exists>y. reconnect_round E C connect m b = Some (y, snd x)))"
      proof (cases "ag_stopped a")
        case True
        with eq have "x = (Inr (), a)" by simp
        with here True show ?thesis by (intro exI [of _ n] exI [of _ a]) simp
      next
        case False
        with eq obtain r1 b where round: "reconnect_round E C connect n a = Some (r1, b)"
          by (auto split: option.splits)
        show ?thesis
        proof (cases "\<exists>m. r1 = Inr (Some m)")
          case True
          then obtain m where m: "r1 = Inr (Some m)" by blast
          with eq False round have "loop E C connect m b = Some x" by simp
          with IH have "Q E C connect m b x" by blast
          moreover have "served E C connect n0 a0 m b" using here False round m by (blast intro: served_round)
          ultimately show ?thesis by (simp add: Q_def)
        next
          case no: False
          with eq False round have "snd x = b" by (auto split: sum.splits option.splits)
          with here False round show ?thesis by blast
        qed
      qed
    qed
  qed
  then show ?thesis using served_start by (fastforce simp: Q_def)
qed

lemma run_forever_serves:
  assumes "run_forever E C (connect_once E F mg talk) n a = Some (r, a')" and "conversing E C dev mg P talk"
  shows "serves E C F dev mg a a'"
  using run_forever_served [OF assms(1)] served_serves [OF _ assms(2)] round_serves [OF assms(2)] serves_trans
  by metis

text \<open>A world that lets the agent go on: nothing it waits for is cancelled, and every session returns.\<close>

definition uninterrupted :: "env \<Rightarrow> (agent, unit) proc \<Rightarrow> bool" where
  "uninterrupted E talk \<longleftrightarrow> (\<forall>t. \<not> cancelled E t) \<and>
     (\<forall>t ch e. open_link E t ch = Some e \<longrightarrow> is_exception e) \<and> (\<forall>t e. close_link E t = Some e \<longrightarrow> is_exception e) \<and>
     (\<forall>a. \<exists>r a'. talk a = Some (r, a') \<and> (\<forall>e. r = Inl e \<longrightarrow> is_exception e))"

lemma connect_once_returns:
  assumes "uninterrupted E talk"
  shows "\<exists>r b. connect_once E F mg talk a = Some (r, b) \<and> (\<forall>e. r = Inl e \<longrightarrow> is_exception e)"
proof -
  let ?ch = "fst (dial F mg)"
  show ?thesis
  proof (cases "open_link E (ag_trace a) ?ch")
    case (Some e)
    with assms show ?thesis
      by (simp add: connect_once_def andThen_def on_trace_run open_channel_def Let_def uninterrupted_def)
  next
    case None
    let ?d = "a\<lparr>ag_trace := ag_trace a @ [LinkOpened ?ch None], ag_outbound := Some [],
      ag_trace := ag_trace a @ [LinkOpened ?ch None] @ [ConnectCalled (snd (dial F mg))]\<rparr>"
    obtain r f where f: "talk ?d = Some (r, f)" "\<forall>e. r = Inl e \<longrightarrow> is_exception e"
      using assms unfolding uninterrupted_def by blast
    have "connect_once E F mg talk a = ensuring talk (on_trace (close_channel E)) ?d"
      using None by (simp add: connect_once_def andThen_def ensuring_def on_trace_run call_connect_def open_channel_def Let_def)
    with f have "connect_once E F mg talk a = (case close_link E (ag_trace f) of
        None \<Rightarrow> Some (r, f\<lparr>ag_trace := ag_trace f @ [LinkClosed None]\<rparr>)
      | Some e \<Rightarrow> Some (Inl e, f\<lparr>ag_trace := ag_trace f @ [LinkClosed (Some e)]\<rparr>))"
      by (simp add: ensuring_def on_trace_run close_channel_def Let_def split: option.split)
    with f(2) assms show ?thesis by (cases "close_link E (ag_trace f)") (auto simp: uninterrupted_def)
  qed
qed

lemma round_goes_on:
  assumes "conversing E C dev mg P talk" and "uninterrupted E talk" and "reconnect_schedule C \<noteq> []" and "\<not> ag_stopped a"
  obtains k b es where "reconnect_round E C (connect_once E F mg talk) m a = Some (Inr (Some k), b)"
    and "\<not> ag_stopped b" and "ag_trace b = ag_trace a @ es" and "attempts es = 1"
proof -
  obtain r c where c: "connect_once E F mg talk a = Some (r, c)" "\<forall>e. r = Inl e \<longrightarrow> is_exception e"
    using connect_once_returns [OF assms(2)] by blast
  obtain es where es: "ag_trace c = ag_trace a @ es" "attempts es = 1" "ag_stopped c = ag_stopped a"
    using connect_once_run [OF assms(1) c(1)] by blast
  obtain k where k: "session (connect_once E F mg talk) m a = Some (Inr k, c)"
    using c by (cases r) (simp_all add: session_run)
  obtain d u where pause: "backoff_seconds E C k (ag_trace c) = Some (Inr d, ag_trace c @ [Drew u])"
    by (simp add: backoff_run [OF assms(3)] Let_def)
  have "reconnect_round E C (connect_once E F mg talk) m a =
      Some (Inr (Some (Suc k)), c\<lparr>ag_trace := ag_trace c @ [Drew u, Slept d]\<rparr>)"
    using assms(2,4) es(3) by (simp add: reconnect_round_def andThen_def k pause on_trace_run sleep_def uninterrupted_def)
  with that es assms(4) show thesis by simp
qed

lemma run_forever_goes_on:
  assumes "conversing E C dev mg P talk" and "uninterrupted E talk" and "reconnect_schedule C \<noteq> []" and "\<not> ag_stopped a"
  shows "run_forever E C (connect_once E F mg talk) n a = None"
proof (rule ccontr)
  assume "run_forever E C (connect_once E F mg talk) n a \<noteq> None"
  then obtain x where x: "run_forever E C (connect_once E F mg talk) n a = Some x" by blast
  define Q where "Q = (\<lambda>E C connect (n :: nat) (a :: agent) (x :: (py_exc + unit) \<times> agent).
     (\<forall>m b. \<not> ag_stopped b \<longrightarrow> (\<exists>k c. reconnect_round E C connect m b = Some (Inr (Some k), c) \<and> \<not> ag_stopped c)) \<longrightarrow>
     ag_stopped a)"
  have "Q E C (connect_once E F mg talk) n a x"
  proof (rule run_forever.raw_induct [where P = Q, OF _ x])
    fix loop E C connect n a x
    assume IH: "\<And>E C connect n a y. loop E C connect n a = Some y \<Longrightarrow> Q E C connect n a y"
      and eq: "(if ag_stopped a then Some (Inr (), a)
      else (case reconnect_round E C connect n a of
        None \<Rightarrow> None
      | Some (r, a') \<Rightarrow> (case r of
            Inl e \<Rightarrow> Some (Inl e, a')
          | Inr next \<Rightarrow> (case next of None \<Rightarrow> Some (Inr (), a') | Some m \<Rightarrow> loop E C connect m a')))) = Some x"
    show "Q E C connect n a x"
      unfolding Q_def
    proof (rule impI, rule ccontr)
      assume go: "\<forall>m b. \<not> ag_stopped b \<longrightarrow> (\<exists>k c. reconnect_round E C connect m b = Some (Inr (Some k), c) \<and> \<not> ag_stopped c)"
        and a: "\<not> ag_stopped a"
      then obtain k c where c: "reconnect_round E C connect n a = Some (Inr (Some k), c)" "\<not> ag_stopped c" by blast
      with eq a have "loop E C connect k c = Some x" by simp
      from IH [OF this] go c(2) show False by (simp add: Q_def)
    qed
  qed
  moreover have "\<exists>k c. reconnect_round E C (connect_once E F mg talk) m b = Some (Inr (Some k), c) \<and> \<not> ag_stopped c"
    if "\<not> ag_stopped b" for m b
    using round_goes_on [OF assms(1-3) that] by metis
  ultimately show False using assms(4) by (simp add: Q_def)
qed

lemma served_goes_on:
  assumes "conversing E C dev mg P talk" and "uninterrupted E talk" and "reconnect_schedule C \<noteq> []" and "\<not> ag_stopped a"
  shows "\<exists>m b es. served E C (connect_once E F mg talk) n a m b \<and> \<not> ag_stopped b \<and>
     ag_trace b = ag_trace a @ es \<and> attempts es = k"
proof (induction k)
  case 0
  show ?case using served_start assms(4) by (intro exI [of _ n] exI [of _ a] exI [of _ "[]"]) simp
next
  case (Suc k)
  then obtain m b es where b: "served E C (connect_once E F mg talk) n a m b" "\<not> ag_stopped b"
    "ag_trace b = ag_trace a @ es" "attempts es = k" by blast
  obtain j c ds where c: "reconnect_round E C (connect_once E F mg talk) m b = Some (Inr (Some j), c)" "\<not> ag_stopped c"
    "ag_trace c = ag_trace b @ ds" "attempts ds = 1" by (rule round_goes_on [OF assms(1-3) b(2)])
  from served_round [OF b(1,2) c(1)] c b(3,4) show ?case
    by (intro exI [of _ j] exI [of _ c] exI [of _ "es @ ds"]) simp
qed

section \<open>The reconnect loop as a run of the whole agent\<close>

text \<open>
  A conversation, a connection and a served run are runs of \<open>agent_line\<close> with the same messages, so that what
  \<open>Accounting\<close> shows of it holds of the composed loop, when \<open>HelloAccepted\<close> comes after the batch.
\<close>

lemma line_trace:
  assumes "st_agent s = a"
  shows "agent_line E C dev mg P W (s, h) (s\<lparr>st_agent := a\<lparr>ag_trace := ag_trace a @ es\<rparr>\<rparr>, h)"
  using line_outside [of E C dev mg P W s h es] assms by simp

lemma talk_step_line:
  assumes "talk_step E C dev mg P s s'"
  shows "(agent_line E C dev mg P W)\<^sup>*\<^sup>* (s, h) (s', h)"
  using assms
proof cases
  case talk_generator
  then show ?thesis by (intro r_into_rtranclp line_generator)
next
  case (talk_received msg a)
  from line_received [where P = P and s = s, OF talk_received(2,3)] talk_received(1) show ?thesis by auto
next
  case (talk_heartbeat a)
  let ?ms = "unix_ms E (ag_trace (st_agent s))"
  let ?u = "s\<lparr>st_agent := (st_agent s)\<lparr>ag_trace := ag_trace (st_agent s) @ [ReadUnixMs ?ms]\<rparr>\<rparr>"
  have "send (HeartbeatMsg ?ms) (st_agent ?u) = Some (Inr (), a)"
    using talk_heartbeat(2) by (simp add: heartbeat_def andThen_def on_trace_run read_unix_ms_def Let_def)
  from line_queued [OF this] have "agent_line E C dev mg P W (?u, h) (s', h)" using talk_heartbeat(1) by simp
  with line_outside [of E C dev mg P W s h "[ReadUnixMs ?ms]"] show ?thesis
    by (meson converse_rtranclp_into_rtranclp r_into_rtranclp)
next
  case (talk_queued m a)
  from line_queued [OF talk_queued(2)] talk_queued(1) show ?thesis by auto
next
  case (talk_outside es)
  then show ?thesis using line_outside by auto
next
  case (talk_working cmd j c)
  from line_working [OF talk_working(2,3)] talk_working(1) show ?thesis by auto
next
  case (talk_marked cid q res ec em gen now)
  from line_marked [OF talk_marked(2-5)] talk_marked(1) show ?thesis by auto
qed

lemma talk_steps_line:
  "(talk_step E C dev mg P)\<^sup>*\<^sup>* s s' \<Longrightarrow> (agent_line E C dev mg P W)\<^sup>*\<^sup>* (s, h) (s', h)"
proof (induction rule: rtranclp_induct)
  case (step u v)
  from rtranclp_trans [OF step.IH talk_step_line [OF step.hyps(2)]] show ?case .
qed simp

lemma conversation_line:
  assumes "conversation E C dev mg P s r a"
  shows "\<exists>s'. (agent_line E C dev mg P W)\<^sup>*\<^sup>* (s, h) (s', h) \<and> st_agent s' = a"
proof -
  obtain u where u: "(talk_step E C dev mg P)\<^sup>*\<^sup>* s u"
    "a = st_agent u \<or> (\<exists>msg. P u msg \<and> receive E C dev msg (st_agent u) = Some (r, a))"
    using assms by (auto simp: conversation_def)
  note run = talk_steps_line [where W = W and h = h, OF u(1)]
  from u(2) show ?thesis
  proof
    assume "\<exists>msg. P u msg \<and> receive E C dev msg (st_agent u) = Some (r, a)"
    then obtain msg where msg: "P u msg" "receive E C dev msg (st_agent u) = Some (r, a)" by blast
    from line_received [where P = P, OF msg] have "agent_line E C dev mg P W (u, h) (u\<lparr>st_agent := a\<rparr>, h)" .
    with run show ?thesis by (intro exI [of _ "u\<lparr>st_agent := a\<rparr>"]) simp
  qed (use run in blast)
qed

definition on_line ::
  "env \<Rightarrow> config \<Rightarrow> string \<Rightarrow> manager \<Rightarrow> (stream \<Rightarrow> cloud_message \<Rightarrow> bool) \<Rightarrow> (stream \<Rightarrow> string \<Rightarrow> bool) \<Rightarrow> agent \<Rightarrow> agent \<Rightarrow> bool" where
  "on_line E C dev mg P W a b \<longleftrightarrow> (\<forall>s h. st_agent s = a \<longrightarrow>
     (\<exists>s' h'. (agent_line E C dev mg P W)\<^sup>*\<^sup>* (s, h) (s', h') \<and> st_agent s' = b))"

lemma on_lineD:
  assumes "on_line E C dev mg P W (st_agent s) b"
  obtains s' h' where "(agent_line E C dev mg P W)\<^sup>*\<^sup>* (s, h) (s', h')" and "st_agent s' = b"
  using assms unfolding on_line_def by blast

lemma on_line_trans:
  assumes "on_line E C dev mg P W a b" and "on_line E C dev mg P W b c"
  shows "on_line E C dev mg P W a c"
  unfolding on_line_def
proof (intro allI impI)
  fix s :: stream and h :: "device_message list"
  assume "st_agent s = a"
  with assms(1) obtain u k where u: "(agent_line E C dev mg P W)\<^sup>*\<^sup>* (s, h) (u, k)" "st_agent u = b"
    using on_lineD [of E C dev mg P W s b h] by blast
  with assms(2) obtain v l where "(agent_line E C dev mg P W)\<^sup>*\<^sup>* (u, k) (v, l)" "st_agent v = c"
    using on_lineD [of E C dev mg P W u c k] by blast
  with rtranclp_trans [OF u(1)] show "\<exists>s' h'. (agent_line E C dev mg P W)\<^sup>*\<^sup>* (s, h) (s', h') \<and> st_agent s' = c" by blast
qed

lemma on_line_refl: "on_line E C dev mg P W a a"
  unfolding on_line_def by blast

lemma on_line_step:
  assumes "\<And>s h. st_agent s = a \<Longrightarrow> agent_line E C dev mg P W (s, h) (f s, g s h) \<and> st_agent (f s) = b"
  shows "on_line E C dev mg P W a b"
  unfolding on_line_def
proof (intro allI impI)
  fix s :: stream and h :: "device_message list"
  assume "st_agent s = a"
  from assms [OF this] show "\<exists>s' h'. (agent_line E C dev mg P W)\<^sup>*\<^sup>* (s, h) (s', h') \<and> st_agent s' = b" by blast
qed

lemma on_line_trace: "on_line E C dev mg P W a (a\<lparr>ag_trace := ag_trace a @ es\<rparr>)"
  by (rule on_line_step [where f = "\<lambda>s. s\<lparr>st_agent := a\<lparr>ag_trace := ag_trace a @ es\<rparr>\<rparr>" and g = "\<lambda>s h. h"])
    (simp add: line_trace)

lemma on_line_queued:
  assumes "send m a = Some (r, b)"
  shows "on_line E C dev mg P W a b"
  by (rule on_line_step [where f = "\<lambda>s. s\<lparr>st_agent := b\<rparr>" and g = "\<lambda>s h. h"])
    (use assms in \<open>auto intro: line_queued\<close>)

lemma on_line_conversation:
  assumes "conversation E C dev mg P (new_stream a) r b"
  shows "on_line E C dev mg P W a b"
  unfolding on_line_def
proof (intro allI impI)
  fix s :: stream and h :: "device_message list"
  assume "st_agent s = a"
  then have "agent_line E C dev mg P W (s, h) (new_stream a, h @ st_wire s)" using line_reconnected [of E C dev mg P W s h] by simp
  with conversation_line [where W = W and h = "h @ st_wire s", OF assms]
  show "\<exists>s' h'. (agent_line E C dev mg P W)\<^sup>*\<^sup>* (s, h) (s', h') \<and> st_agent s' = b"
    using converse_rtranclp_into_rtranclp [of "agent_line E C dev mg P W" "(s, h)" "(new_stream a, h @ st_wire s)"] by blast
qed

lemma connect_once_on_line:
  assumes "conversing E C dev mg P talk" and "connect_once E F mg talk a = Some (r, a')"
  shows "on_line E C dev mg P W a a'"
proof -
  let ?ch = "fst (dial F mg)" and ?md = "snd (dial F mg)"
  let ?x = "open_link E (ag_trace a) ?ch"
  let ?b = "a\<lparr>ag_trace := ag_trace a @ [LinkOpened ?ch ?x]\<rparr>"
  have open_: "on_trace (open_channel E ?ch) a = Some (verdict ?x, ?b)"
    by (simp add: on_trace_run open_channel_def Let_def)
  show ?thesis
  proof (cases ?x)
    case (Some e)
    with assms(2) open_ have "a' = ?b" by (simp add: connect_once_def andThen_def)
    with on_line_trace show ?thesis by simp
  next
    case None
    let ?c = "?b\<lparr>ag_trace := ag_trace ?b @ [ConnectCalled ?md]\<rparr>"
    let ?d = "?b\<lparr>ag_outbound := Some [], ag_trace := ag_trace ?b @ [ConnectCalled ?md]\<rparr>"
    have body: "connect_once E F mg talk a = ensuring talk (on_trace (close_channel E)) ?d"
      using open_ None by (simp add: connect_once_def andThen_def ensuring_def on_trace_run call_connect_def)
    with assms(2) obtain r1 f where f: "talk ?d = Some (r1, f)" by (auto simp: ensuring_def split: option.splits)
    then have "conversation E C dev mg P (new_stream ?d) r1 f" using assms(1) by (simp add: conversing_def)
    moreover have "new_stream ?d = new_stream ?c" by (cases a) (simp add: new_stream_def)
    ultimately have "on_line E C dev mg P W ?c f" using on_line_conversation by metis
    moreover have "a' = f\<lparr>ag_trace := ag_trace f @ [LinkClosed (close_link E (ag_trace f))]\<rparr>"
      using body assms(2) f by (auto simp: ensuring_def on_trace_run close_channel_def Let_def split: sum.splits)
    ultimately show ?thesis using on_line_trans on_line_trace by metis
  qed
qed

lemma round_on_line:
  assumes "conversing E C dev mg P talk" and "reconnect_round E C (connect_once E F mg talk) n a = Some (r, a')"
  shows "on_line E C dev mg P W a a'"
proof (rule round_related [OF assms(2)])
  show "on_line E C dev mg P W a b" if "connect_once E F mg talk a = Some (x, b)" for x b
    by (rule connect_once_on_line [OF assms(1) that])
qed (use on_line_trans on_line_trace in blast)+

lemma served_on_line:
  assumes "served E C (connect_once E F mg talk) n a m b" and "conversing E C dev mg P talk"
  shows "on_line E C dev mg P W a b"
  using assms(1)
proof induction
  case served_start
  show ?case by (rule on_line_refl)
next
  case (served_round m b k c)
  from on_line_trans [OF served_round.IH round_on_line [OF assms(2) served_round.hyps(3)]] show ?case .
next
  case (served_queued m b msg r c)
  from on_line_trans [OF served_queued.IH on_line_queued [OF served_queued.hyps(2)]] show ?case .
next
  case (served_outside m b es)
  from on_line_trans [OF served_outside.IH on_line_trace] show ?case .
qed

lemma run_forever_on_line:
  assumes "run_forever E C (connect_once E F mg talk) n a = Some (r, a')" and "conversing E C dev mg P talk"
  shows "on_line E C dev mg P W a a'"
  using run_forever_served [OF assms(1)] served_on_line [OF _ assms(2)] round_on_line [OF assms(2)] on_line_trans
  by metis

end
