(* ===== verification/Base64.thy ===== *)
theory Base64
  imports Json "HOL-Library.Word"
begin

text \<open>
  \<open>base64.b64decode\<close> of the standard library, as \<open>k8s_secrets.py\<close> uses it: the lenient decoder of
  \<open>binascii\<close> over 8-bit words, which skips characters outside the alphabet and stops at a complete padding.
  The reference is the encoding of RFC 4648, in which the Kubernetes API returns the data of a Secret.
\<close>

unbundle bit_operations_syntax

section \<open>The alphabet\<close>

definition b64_index :: "char \<Rightarrow> 8 word option" where
  "b64_index c =
     (let n = (of_char c :: nat) in
      if 65 \<le> n \<and> n \<le> 90 then Some (of_nat (n - 65))
      else if 97 \<le> n \<and> n \<le> 122 then Some (of_nat (n - 71))
      else if 48 \<le> n \<and> n \<le> 57 then Some (of_nat (n + 4))
      else if n = 43 then Some 62
      else if n = 47 then Some 63
      else None)"

definition b64_char :: "8 word \<Rightarrow> char" where
  "b64_char k =
     (let n = unat k in
      if n < 26 then char_of (n + 65)
      else if n < 52 then char_of (n + 71)
      else if n < 62 then char_of (n - 4)
      else if n = 62 then CHR ''+''
      else CHR ''/'')"

lemma b64_char_index:
  assumes "k < 64"
  shows "b64_index (b64_char k) = Some k" and "b64_char k \<noteq> CHR ''=''" and "(of_char (b64_char k) :: nat) < 128"
proof -
  have n: "unat k < 64" using assms by (simp add: word_less_nat_alt)
  have k: "of_nat (unat k) = k" by simp
  consider "unat k < 26" | "26 \<le> unat k" "unat k < 52" | "52 \<le> unat k" "unat k < 62" | "unat k = 62" | "unat k = 63"
    using n by linarith
  then have "b64_index (b64_char k) = Some k \<and> (of_char (b64_char k) :: nat) \<noteq> 61 \<and> (of_char (b64_char k) :: nat) < 128"
  proof cases
    case 1
    with k show ?thesis by (simp add: b64_char_def b64_index_def)
  next
    case 2
    with k show ?thesis by (simp add: b64_char_def b64_index_def)
  next
    case 3
    then have "unat k - 4 + 4 = unat k" by simp
    with 3 k show ?thesis by (auto simp: b64_char_def b64_index_def Let_def)
  next
    case 4
    with k have "k = 62" by simp
    then show ?thesis by (simp add: b64_char_def b64_index_def)
  next
    case 5
    with k have "k = 63" by simp
    then show ?thesis by (simp add: b64_char_def b64_index_def)
  qed
  then show "b64_index (b64_char k) = Some k" "b64_char k \<noteq> CHR ''=''" "(of_char (b64_char k) :: nat) < 128"
    by auto
qed

section \<open>Decoding\<close>

text \<open>
  The loop of \<open>a2b_base64\<close>: the position in the current group of four, the padding characters seen in it, the
  bits left over from the last character, and the bytes so far.
\<close>

fun a2b :: "string \<Rightarrow> nat \<Rightarrow> nat \<Rightarrow> 8 word \<Rightarrow> 8 word list \<Rightarrow> py_exc + 8 word list" where
  "a2b [] quad pads left out =
     (if quad = 0 then Inr out
      else if quad = 1 then Inl (ValueError (''Invalid base64-encoded string: number of data characters ('' @
        show_nat (length out div 3 * 4 + 1) @ '') cannot be 1 more than a multiple of 4''))
      else Inl (ValueError ''Incorrect padding''))"
| "a2b (c # cs) quad pads left out =
     (if c = CHR ''='' then
        (if 2 \<le> quad \<and> 4 \<le> quad + Suc pads then Inr out
         else a2b cs quad (if 2 \<le> quad then Suc pads else pads) left out)
      else (case b64_index c of
          None \<Rightarrow> a2b cs quad pads left out
        | Some k \<Rightarrow>
            if quad = 0 then a2b cs 1 0 k out
            else if quad = 1 then a2b cs 2 0 (k AND 15) (out @ [push_bit 2 left OR drop_bit 4 k])
            else if quad = 2 then a2b cs 3 0 (k AND 3) (out @ [push_bit 4 left OR drop_bit 2 k])
            else a2b cs 0 0 0 (out @ [push_bit 6 left OR k])))"

definition b64decode :: "string \<Rightarrow> py_exc + 8 word list" where
  "b64decode s =
     (if list_ex (\<lambda>c. 128 \<le> (of_char c :: nat)) s
      then Inl (ValueError ''string argument should contain only ASCII characters'')
      else a2b s 0 0 0 [])"

section \<open>The reference encoding\<close>

text \<open>The four sextets of three bytes; a missing byte counts as 0.\<close>

definition sextet1 :: "8 word \<Rightarrow> 8 word" where
  "sextet1 a = drop_bit 2 a"

definition sextet2 :: "8 word \<Rightarrow> 8 word \<Rightarrow> 8 word" where
  "sextet2 a b = push_bit 4 (a AND 3) OR drop_bit 4 b"

definition sextet3 :: "8 word \<Rightarrow> 8 word \<Rightarrow> 8 word" where
  "sextet3 b c = push_bit 2 (b AND 15) OR drop_bit 6 c"

definition sextet4 :: "8 word \<Rightarrow> 8 word" where
  "sextet4 c = c AND 63"

fun b64encode :: "8 word list \<Rightarrow> string" where
  "b64encode [] = []"
| "b64encode [a] = [b64_char (sextet1 a), b64_char (sextet2 a 0), CHR ''='', CHR ''='']"
| "b64encode [a, b] = [b64_char (sextet1 a), b64_char (sextet2 a b), b64_char (sextet3 b 0), CHR ''='']"
| "b64encode (a # b # c # r) =
     [b64_char (sextet1 a), b64_char (sextet2 a b), b64_char (sextet3 b c), b64_char (sextet4 c)] @ b64encode r"

lemmas sextet_defs = sextet1_def sextet2_def sextet3_def sextet4_def

lemma low_masks: "(3 :: 8 word) = mask 2" "(15 :: 8 word) = mask 4" "(63 :: 8 word) = mask 6"
  by (simp_all add: mask_eq_exp_minus_1)

text \<open>The sextets are below 64, and two of them give a byte back.\<close>

lemma less_64_bits: "(\<And>n. bit (k :: 8 word) n \<Longrightarrow> n < 6) \<Longrightarrow> k < 64"
proof -
  assume "\<And>n. bit k n \<Longrightarrow> n < 6"
  then have "take_bit 6 k = k" by (intro bit_word_eqI) (auto simp: bit_simps)
  then have "unat k < 2 ^ 6" by (metis take_bit_nat_less_exp unsigned_take_bit_eq)
  then show "k < 64" by (simp add: word_less_nat_alt)
qed

lemma sextets: "sextet1 a < 64" "sextet2 a b < 64" "sextet3 b c < 64" "sextet4 c < 64"
  unfolding sextet_defs low_masks
  by (rule less_64_bits; auto simp: bit_simps dest: bit_imp_le_length)+

lemma byte_eqI:
  fixes a b :: "8 word"
  assumes "bit a 0 = bit b 0" and "bit a 1 = bit b 1" and "bit a 2 = bit b 2" and "bit a 3 = bit b 3"
    and "bit a 4 = bit b 4" and "bit a 5 = bit b 5" and "bit a 6 = bit b 6" and "bit a 7 = bit b 7"
  shows "a = b"
proof (rule bit_word_eqI)
  fix n
  assume "n < LENGTH(8)"
  then consider "n = 0" | "n = 1" | "n = 2" | "n = 3" | "n = 4" | "n = 5" | "n = 6" | "n = 7" by fastforce
  then show "bit a n = bit b n" by cases (use assms in simp_all)
qed

lemma bytes_back:
  "push_bit 2 (sextet1 a) OR drop_bit 4 (sextet2 a b) = a"
  "push_bit 4 (sextet2 a b AND 15) OR drop_bit 2 (sextet3 b c) = b"
  "push_bit 6 (sextet3 b c AND 3) OR sextet4 c = c"
  unfolding sextet_defs low_masks
  by (rule byte_eqI; simp add: bit_simps)+

text \<open>A group of four characters gives its three bytes.\<close>

lemmas a2b_simps = b64_char_index sextets bytes_back bytes_back [simplified]

lemma a2b_group:
  "a2b (b64encode (a # b # c # r)) 0 p left out = a2b (b64encode r) 0 0 0 (out @ [a, b, c])"
  by (simp add: a2b_simps)

lemma a2b_encode: "a2b (b64encode bs) 0 p left out = Inr (out @ bs)"
proof (induction bs arbitrary: p left out rule: b64encode.induct)
  case (2 a)
  then show ?case by (simp add: a2b_simps)
next
  case (3 a b)
  then show ?case by (simp add: a2b_simps)
next
  case (4 a b c r)
  then show ?case unfolding a2b_group by simp
qed simp

lemma b64encode_ascii: "c \<in> set (b64encode bs) \<Longrightarrow> (of_char c :: nat) < 128"
  by (induction bs rule: b64encode.induct) (auto simp: b64_char_index sextets)

lemma b64_roundtrip: "b64decode (b64encode bs) = Inr bs"
  using b64encode_ascii by (fastforce simp: b64decode_def list_ex_iff a2b_encode)

end
