(* ===== verification/K8s_Secrets.thy ===== *)
theory K8s_Secrets
  imports Base64
begin

text \<open>
  \<open>device_agent/clients/k8s_secrets.py\<close>: \<open>K8sSecretsReader\<close>, the process-wide reader of Kubernetes Secrets
  with its cache, and the three reads by which \<open>main.py\<close> gets the certificates for Container Maker. The
  \<open>kubernetes\<close> client is a parameter: loading a configuration, and reading a Secret, may fail.
\<close>

section \<open>The Kubernetes client\<close>

text \<open>The \<open>data\<close> of a Secret: base64 texts by key; \<open>None\<close> for a Secret without data.\<close>

type_synonym secret_data = "(string \<rightharpoonup> string) option"

datatype load_answer = Loaded | ConfigException string | LoadError py_exc

datatype k8s_event =
    LoadedIncluster load_answer
  | LoadedKubeConfig load_answer
  | ReadSecret string string "py_exc + secret_data"

record k8s_env =
  incluster_config :: load_answer
  kube_config :: load_answer
  api_read :: "k8s_event list \<Rightarrow> string \<Rightarrow> string \<Rightarrow> py_exc + secret_data"

section \<open>The reader\<close>

text \<open>
  The class attribute \<open>_instance\<close> (whether the instance exists), its \<open>_initialized\<close> and its \<open>_cache\<close>, which
  does not exist before \<open>__init__\<close> has set it; and the calls to the API so far.
\<close>

record k8s_state =
  ks_created :: bool
  ks_initialized :: bool
  ks_cache :: "(string \<rightharpoonup> secret_data) option"
  ks_trace :: "k8s_event list"

definition no_reader :: k8s_state where
  "no_reader = \<lparr>ks_created = False, ks_initialized = False, ks_cache = None, ks_trace = []\<rparr>"

definition reader_new :: "(k8s_state, unit) proc" where
  "reader_new = modify (\<lambda>s. if ks_created s then s else s\<lparr>ks_created := True, ks_initialized := False\<rparr>)"

text \<open>One load of a configuration, recorded; a load that failed raises.\<close>

definition k8s_log :: "k8s_event \<Rightarrow> (k8s_state, unit) proc" where
  "k8s_log e = modify (\<lambda>s. s\<lparr>ks_trace := ks_trace s @ [e]\<rparr>)"

fun load_raises :: "load_answer \<Rightarrow> (k8s_state, unit) proc" where
  "load_raises Loaded = ret ()"
| "load_raises (ConfigException m) = raise (OtherException m)"
| "load_raises (LoadError e) = raise e"

definition load_config :: "k8s_env \<Rightarrow> (k8s_state, unit) proc" where
  "load_config K = andThen (k8s_log (LoadedIncluster (incluster_config K))) (\<lambda>_.
     case incluster_config K of
       ConfigException m \<Rightarrow> andThen (k8s_log (LoadedKubeConfig (kube_config K))) (\<lambda>_. load_raises (kube_config K))
     | answer \<Rightarrow> load_raises answer)"

definition reader_init :: "k8s_env \<Rightarrow> (k8s_state, unit) proc" where
  "reader_init K = (\<lambda>s.
     if ks_initialized s then Some (Inr (), s)
     else andThen (load_config K) (\<lambda>_. modify (\<lambda>s'. s'\<lparr>ks_cache := Some Map.empty\<rparr>)) (s\<lparr>ks_initialized := True\<rparr>))"

text \<open>\<open>K8sSecretsReader()\<close>.\<close>

definition K8sSecretsReader :: "k8s_env \<Rightarrow> (k8s_state, unit) proc" where
  "K8sSecretsReader K = andThen reader_new (\<lambda>_. reader_init K)"

definition cache_key :: "string \<Rightarrow> string \<Rightarrow> string" where
  "cache_key namespace secret_name = namespace @ ''/'' @ secret_name"

text \<open>\<open>self._cache\<close>, and the data of a Secret from there or from the API.\<close>

definition own_cache :: "(k8s_state, string \<rightharpoonup> secret_data) proc" where
  "own_cache = (\<lambda>s. Some (case ks_cache s of
       None \<Rightarrow> Inl (AttributeError (quoted ''K8sSecretsReader'' @ '' object has no attribute '' @ quoted ''_cache''))
     | Some c \<Rightarrow> Inr c, s))"

definition api_call :: "k8s_env \<Rightarrow> string \<Rightarrow> string \<Rightarrow> (k8s_state, secret_data) proc" where
  "api_call K secret_name namespace = (\<lambda>s.
     let r = api_read K (ks_trace s) secret_name namespace
     in Some (r, s\<lparr>ks_trace := ks_trace s @ [ReadSecret secret_name namespace r]\<rparr>))"

definition secret_data_of :: "k8s_env \<Rightarrow> string \<Rightarrow> string \<Rightarrow> (k8s_state, secret_data) proc" where
  "secret_data_of K secret_name namespace = andThen own_cache (\<lambda>c.
     case c (cache_key namespace secret_name) of
       Some d \<Rightarrow> ret d
     | None \<Rightarrow> andThen (api_call K secret_name namespace) (\<lambda>d.
         andThen (modify (\<lambda>s. s\<lparr>ks_cache := Some (c(cache_key namespace secret_name \<mapsto> d))\<rparr>)) (\<lambda>_. ret d)))"

definition secret_value :: "string \<Rightarrow> string \<Rightarrow> secret_data \<Rightarrow> py_exc + 8 word list" where
  "secret_value secret_name key d = (case d of
       None \<Rightarrow> Inl (TypeError (''argument of type '' @ quoted ''NoneType'' @ '' is not iterable''))
     | Some kvs \<Rightarrow> (case kvs key of
          None \<Rightarrow> Inl (KeyError (''Key '' @ quoted key @ '' not found in secret '' @ quoted secret_name))
        | Some text \<Rightarrow> b64decode text))"

definition get_secret :: "k8s_env \<Rightarrow> string \<Rightarrow> string \<Rightarrow> string \<Rightarrow> (k8s_state, 8 word list) proc" where
  "get_secret K secret_name namespace key =
     andThen (secret_data_of K secret_name namespace) (\<lambda>d. lift_sum (secret_value secret_name key d))"

definition clear_cache :: "(k8s_state, unit) proc" where
  "clear_cache = modify (\<lambda>s. s\<lparr>ks_cache := Some Map.empty\<rparr>)"

definition read_cert_from_k8s_secret :: "k8s_env \<Rightarrow> string \<Rightarrow> string \<Rightarrow> string \<Rightarrow> (k8s_state, 8 word list) proc" where
  "read_cert_from_k8s_secret K secret_name namespace key = get_secret K secret_name namespace key"

section \<open>Reading through the cache\<close>

lemma get_secret_run:
  assumes "ks_cache s = Some c"
  shows "get_secret K n ns key s = (case c (cache_key ns n) of
       Some d \<Rightarrow> Some (secret_value n key d, s)
     | None \<Rightarrow> (let a = api_read K (ks_trace s) n ns; t = ks_trace s @ [ReadSecret n ns a] in
         case a of
           Inl e \<Rightarrow> Some (Inl e, s\<lparr>ks_trace := t\<rparr>)
         | Inr d \<Rightarrow> Some (secret_value n key d, s\<lparr>ks_trace := t, ks_cache := Some (c(cache_key ns n \<mapsto> d))\<rparr>)))"
  using assms
  by (auto simp: get_secret_def secret_data_of_def own_cache_def api_call_def andThen_def Let_def
      split: option.splits sum.splits)

lemma append_sep_inject:
  "x \<notin> set us \<Longrightarrow> x \<notin> set vs \<Longrightarrow> us @ x # ss = vs @ x # ts \<longleftrightarrow> us = vs \<and> ss = ts"
proof (induction us arbitrary: vs)
  case Nil
  then show ?case by (cases vs) auto
next
  case (Cons u us)
  then show ?case by (cases vs) auto
qed

lemma cache_key_inject:
  "CHR ''/'' \<notin> set ns \<Longrightarrow> CHR ''/'' \<notin> set ns' \<Longrightarrow> cache_key ns n = cache_key ns' n' \<longleftrightarrow> ns = ns' \<and> n = n'"
  by (simp add: cache_key_def append_sep_inject)

text \<open>Reads of namespaces without a slash, as Kubernetes names are, whatever each of them returns.\<close>

inductive secret_reads :: "k8s_env \<Rightarrow> k8s_state \<Rightarrow> k8s_state \<Rightarrow> bool" for K s where
  no_reads: "secret_reads K s s"
| one_more: "secret_reads K s s1 \<Longrightarrow> CHR ''/'' \<notin> set ns \<Longrightarrow> get_secret K n ns key s1 = Some (r, s2) \<Longrightarrow>
    secret_reads K s s2"

fun answered_read :: "string \<Rightarrow> string \<Rightarrow> k8s_event \<Rightarrow> bool" where
  "answered_read n ns (ReadSecret n' ns' (Inr d)) = (n' = n \<and> ns' = ns)"
| "answered_read n ns _ = False"

fun_cases answered_readE: "answered_read n ns e"

text \<open>The cache holds exactly the answered reads, each Secret once.\<close>

definition cache_exact :: "k8s_state \<Rightarrow> bool" where
  "cache_exact s \<longleftrightarrow> (\<exists>c. ks_cache s = Some c \<and> (\<forall>n ns. CHR ''/'' \<notin> set ns \<longrightarrow>
     filter (answered_read n ns) (ks_trace s) =
       (case c (cache_key ns n) of None \<Rightarrow> [] | Some d \<Rightarrow> [ReadSecret n ns (Inr d)])))"

lemma cache_exactD:
  assumes "cache_exact s" and "ks_cache s = Some c" and "CHR ''/'' \<notin> set ns"
  shows "filter (answered_read n ns) (ks_trace s) =
     (case c (cache_key ns n) of None \<Rightarrow> [] | Some d \<Rightarrow> [ReadSecret n ns (Inr d)])"
  using assms by (auto simp: cache_exact_def)

lemma cache_exact_step:
  assumes "get_secret K n ns key s = Some (r, s')" and "cache_exact s" and ns: "CHR ''/'' \<notin> set ns"
  shows "cache_exact s'"
proof -
  obtain c where c: "ks_cache s = Some c" using assms(2) by (auto simp: cache_exact_def)
  show ?thesis
  proof (cases "c (cache_key ns n)")
    case (Some d)
    with assms(1,2) show ?thesis by (simp add: get_secret_run [OF c])
  next
    case None
    let ?a = "api_read K (ks_trace s) n ns"
    show ?thesis
    proof (cases ?a)
      case (Inl e)
      with assms(1,2) None c show ?thesis by (auto simp: get_secret_run [OF c] Let_def cache_exact_def)
    next
      case (Inr d)
      with assms(1) None have s': "s' = s\<lparr>ks_trace := ks_trace s @ [ReadSecret n ns (Inr d)],
          ks_cache := Some (c(cache_key ns n \<mapsto> d))\<rparr>"
        by (simp add: get_secret_run [OF c] Let_def)
      have "filter (answered_read n' ns') (ks_trace s') = (case (c(cache_key ns n \<mapsto> d)) (cache_key ns' n') of
          None \<Rightarrow> [] | Some d' \<Rightarrow> [ReadSecret n' ns' (Inr d')])" if "CHR ''/'' \<notin> set ns'" for n' ns'
        using cache_exactD [OF assms(2) c that, of n'] None cache_key_inject [OF ns that, of n n'] that
        by (auto simp: s')
      then show ?thesis by (simp add: cache_exact_def s')
    qed
  qed
qed

lemma cache_exact_reads: "secret_reads K s s' \<Longrightarrow> cache_exact s \<Longrightarrow> cache_exact s'"
  by (induction rule: secret_reads.induct) (auto intro: cache_exact_step)

text \<open>Every answer in the trace is one the API gave.\<close>

definition from_api :: "k8s_env \<Rightarrow> k8s_state \<Rightarrow> bool" where
  "from_api K s \<longleftrightarrow> (\<forall>n ns a. ReadSecret n ns a \<in> set (ks_trace s) \<longrightarrow> (\<exists>t. a = api_read K t n ns))"

lemma from_api_step:
  assumes "get_secret K n ns key s = Some (r, s')" and "ks_cache s = Some c" and "from_api K s"
  shows "from_api K s'"
proof -
  have "set (ks_trace s') \<subseteq> insert (ReadSecret n ns (api_read K (ks_trace s) n ns)) (set (ks_trace s))"
    using assms(1) by (auto simp: get_secret_run [OF assms(2)] Let_def split: option.splits sum.splits)
  with assms(3) show ?thesis unfolding from_api_def by blast
qed

lemma from_api_reads: "secret_reads K s s' \<Longrightarrow> cache_exact s \<Longrightarrow> from_api K s \<Longrightarrow> from_api K s'"
proof (induction rule: secret_reads.induct)
  case (one_more s1 ns n key r s2)
  then have "cache_exact s1" by (blast intro: cache_exact_reads)
  with one_more show ?case by (auto simp: cache_exact_def intro: from_api_step)
qed

text \<open>A construction that returned: a fresh cache, and nothing read.\<close>

lemma reader_constructed:
  assumes "K8sSecretsReader K no_reader = Some (Inr (), s)"
  shows "ks_cache s = Some Map.empty" and "cache_exact s" and "from_api K s"
proof -
  have load: "ks_trace s1 = [] \<Longrightarrow> load_config K s1 = Some (Inr (), s2) \<Longrightarrow>
      \<forall>n ns a. ReadSecret n ns a \<notin> set (ks_trace s2)" for s1 s2
    by (auto simp: load_config_def k8s_log_def andThen_def split: load_answer.splits option.splits sum.splits)
      (cases "kube_config K"; auto)+
  from assms obtain s2 where s2: "load_config K (no_reader\<lparr>ks_created := True, ks_initialized := True\<rparr>) = Some (Inr (), s2)"
    and s: "s = s2\<lparr>ks_cache := Some Map.empty\<rparr>"
    by (auto simp: K8sSecretsReader_def reader_new_def reader_init_def no_reader_def andThen_def
        split: option.splits sum.splits)
  have none: "ReadSecret n ns a \<notin> set (ks_trace s)" for n ns a
    using load [OF _ s2] by (simp add: s no_reader_def)
  show "ks_cache s = Some Map.empty" by (simp add: s)
  have "\<not> answered_read n ns e" if "e \<in> set (ks_trace s)" for n ns e
    using that none by (auto elim: answered_readE)
  then show "cache_exact s" by (auto simp: cache_exact_def s filter_empty_conv)
  show "from_api K s" using none by (simp add: from_api_def)
qed

text \<open>Reading a value that was stored encoded.\<close>

lemma certificate_read:
  assumes "K8sSecretsReader K no_reader = Some (Inr (), s)" and "secret_reads K s s1"
    and "CHR ''/'' \<notin> set ns" and "\<And>t. api_read K t n ns = Inr (Some (map_option b64encode \<circ> files))"
    and "files key = Some bs"
  shows "\<exists>s2. read_cert_from_k8s_secret K n ns key s1 = Some (Inr bs, s2)"
proof -
  note fresh = reader_constructed [OF assms(1)]
  have s1: "cache_exact s1" "from_api K s1"
    using cache_exact_reads [OF assms(2) fresh(2)] from_api_reads [OF assms(2) fresh(2,3)] by simp_all
  then obtain c where c: "ks_cache s1 = Some c" by (auto simp: cache_exact_def)
  have read: "secret_value n key (Some (map_option b64encode \<circ> files)) = Inr bs"
    using assms(5) by (simp add: secret_value_def b64_roundtrip)
  show ?thesis
  proof (cases "c (cache_key ns n)")
    case None
    with read show ?thesis
      by (simp add: read_cert_from_k8s_secret_def get_secret_run [OF c] assms(4) Let_def)
  next
    case (Some d)
    with cache_exactD [OF s1(1) c assms(3), of n]
    have "ReadSecret n ns (Inr d) \<in> set (filter (answered_read n ns) (ks_trace s1))" by simp
    then have "ReadSecret n ns (Inr d) \<in> set (ks_trace s1)" by simp
    with s1(2) obtain t where "Inr d = api_read K t n ns" unfolding from_api_def by blast
    with assms(4) have "d = Some (map_option b64encode \<circ> files)" by simp
    with Some read show ?thesis by (simp add: read_cert_from_k8s_secret_def get_secret_run [OF c])
  qed
qed

section \<open>The properties of the reader\<close>

text \<open>
  C35: A Secret is fetched once and then served from that answer. After any reads of any Secrets and keys,
  failed ones included, by a reader that was constructed: the API has answered for a Secret at most once,
  and reading any key of it returns, or raises, what its one answer holds for that key.
\<close>

theorem secret_fetched_once:
  assumes "K8sSecretsReader K no_reader = Some (Inr (), s)" and "secret_reads K s s1"
    and "CHR ''/'' \<notin> set ns" and "get_secret K n ns key s1 = Some (r, s2)"
  shows "length (filter (answered_read n ns) (ks_trace s2)) \<le> 1 \<and>
     (\<forall>d. ReadSecret n ns (Inr d) \<in> set (ks_trace s2) \<longrightarrow> r = secret_value n key d)"
proof -
  note fresh = reader_constructed [OF assms(1)]
  have exact: "cache_exact s1" "cache_exact s2"
    using cache_exact_reads [OF one_more [OF assms(2-4)] fresh(2)] cache_exact_reads [OF assms(2) fresh(2)]
    by simp_all
  obtain c1 c2 where c: "ks_cache s1 = Some c1" "ks_cache s2 = Some c2"
    using exact by (auto simp: cache_exact_def)
  note trace = cache_exactD [OF exact(2) c(2) assms(3), of n]
  have "r = secret_value n key d" if "ReadSecret n ns (Inr d) \<in> set (ks_trace s2)" for d
  proof -
    have "ReadSecret n ns (Inr d) \<in> set (filter (answered_read n ns) (ks_trace s2))" using that by simp
    with trace have "c2 (cache_key ns n) = Some d" by (auto split: option.splits)
    with assms(4) c show ?thesis
      by (auto simp: get_secret_run [OF c(1)] Let_def split: option.splits sum.splits)
  qed
  with trace show ?thesis by (auto split: option.splits)
qed

text \<open>
  C34: A certificate is read back byte for byte. When the API serves a Secret whose values are the base64
  encodings of some files, reading a file from it returns exactly its bytes, whatever was read before.
\<close>

theorem certificate_roundtrip:
  assumes "K8sSecretsReader K no_reader = Some (Inr (), s)" and "secret_reads K s s1"
    and "CHR ''/'' \<notin> set ns" and "\<And>t. api_read K t n ns = Inr (Some (map_option b64encode \<circ> files))"
    and "files key = Some bs"
  shows "\<exists>s2. read_cert_from_k8s_secret K n ns key s1 = Some (Inr bs, s2)"
  using certificate_read [OF assms(1-3)] assms(4,5) by blast

text \<open>
  A reader whose construction failed stays broken: \<open>__init__\<close> has marked the instance as initialised before
  loading the configuration, so constructing it again succeeds without doing anything, and reading a
  Secret from it is an \<open>AttributeError\<close>.
\<close>

lemma failed_reader_stays_broken:
  assumes "K8sSecretsReader K no_reader = Some (Inl e, s)"
  shows "K8sSecretsReader K s = Some (Inr (), s) \<and> (\<exists>m. get_secret K n ns key s = Some (Inl (AttributeError m), s))"
proof -
  have load: "load_config K s1 = Some (Inl e, s2) \<Longrightarrow> ks_cache s2 = ks_cache s1 \<and> ks_initialized s2 = ks_initialized s1 \<and>
      ks_created s2 = ks_created s1" for s1 s2
    by (auto simp: load_config_def k8s_log_def andThen_def split: load_answer.splits option.splits sum.splits)
      (cases "kube_config K"; auto)+
  from assms have "load_config K (no_reader\<lparr>ks_created := True, ks_initialized := True\<rparr>) = Some (Inl e, s)"
    by (auto simp: K8sSecretsReader_def reader_new_def reader_init_def no_reader_def andThen_def
        split: option.splits sum.splits)
  from load [OF this] have "ks_cache s = None" "ks_initialized s" "ks_created s" by (simp_all add: no_reader_def)
  then show ?thesis
    by (simp add: K8sSecretsReader_def reader_new_def reader_init_def andThen_def get_secret_def secret_data_of_def
        own_cache_def)
qed

section \<open>Witnesses\<close>

definition demo_files :: "string \<rightharpoonup> 8 word list" where
  "demo_files = [''client.key'' \<mapsto> [222, 173, 190, 239], ''client.crt'' \<mapsto> [1, 2, 3], ''ca.crt'' \<mapsto> [0, 255]]"

definition demo_k8s :: k8s_env where
  "demo_k8s = \<lparr>incluster_config = ConfigException ''not in a cluster'', kube_config = Loaded,
     api_read = (\<lambda>_ _ _. Inr (Some (map_option b64encode \<circ> demo_files)))\<rparr>"

definition demo_reader :: k8s_state where
  "demo_reader = \<lparr>ks_created = True, ks_initialized = True, ks_cache = Some Map.empty,
     ks_trace = [LoadedIncluster (ConfigException ''not in a cluster''), LoadedKubeConfig Loaded]\<rparr>"

lemma demo_reader_constructed: "K8sSecretsReader demo_k8s no_reader = Some (Inr (), demo_reader)"
  by (simp add: K8sSecretsReader_def reader_new_def reader_init_def no_reader_def load_config_def k8s_log_def
      andThen_def demo_k8s_def demo_reader_def)

lemma demo_read:
  "\<exists>r s'. get_secret demo_k8s ''certs'' ''ns'' ''client.key'' demo_reader = Some (r, s') \<and>
     ReadSecret ''certs'' ''ns'' (Inr (Some (map_option b64encode \<circ> demo_files))) \<in> set (ks_trace s')"
proof -
  have "ks_cache demo_reader = Some Map.empty" by (simp add: demo_reader_def)
  from get_secret_run [OF this] show ?thesis by (simp add: demo_k8s_def Let_def)
qed

theorem secret_fetched_once_witness:
  "\<exists>r s'. get_secret demo_k8s ''certs'' ''ns'' ''client.key'' demo_reader = Some (r, s') \<and>
     length (filter (answered_read ''certs'' ''ns'') (ks_trace s')) \<le> 1 \<and>
     r = secret_value ''certs'' ''client.key'' (Some (map_option b64encode \<circ> demo_files))"
proof -
  obtain r s' where run: "get_secret demo_k8s ''certs'' ''ns'' ''client.key'' demo_reader = Some (r, s')"
    "ReadSecret ''certs'' ''ns'' (Inr (Some (map_option b64encode \<circ> demo_files))) \<in> set (ks_trace s')"
    using demo_read by blast
  have "CHR ''/'' \<notin> set ''ns''" by simp
  from secret_fetched_once [OF demo_reader_constructed no_reads this run(1)] run show ?thesis by auto
qed

theorem certificate_roundtrip_witness:
  "\<exists>s'. read_cert_from_k8s_secret demo_k8s ''certs'' ''ns'' ''client.key'' demo_reader =
     Some (Inr [222, 173, 190, 239], s')"
  by (rule certificate_roundtrip [OF demo_reader_constructed no_reads, where files = demo_files])
    (simp_all add: demo_k8s_def demo_files_def)

end
