(* ===== verification/Startup.thy ===== *)
theory Startup
  imports Control_Stream K8s_Secrets Configuration
begin

text \<open>
  \<open>device_agent/main.py\<close>: \<open>run\<close> from the first file it reads to the last thing it closes. What it opens and
  closes are actions whose outcome the environment decides; the files are texts by path; the secrets are
  read by \<open>K8s_Secrets\<close>; and \<open>run_forever\<close> of the connection manager is a parameter, to be filled with the
  one of \<open>Control_Stream\<close>.
\<close>

section \<open>The process\<close>

datatype file_answer = FileText string | NoSuchFile | ReadError py_exc

datatype action =
    OpenJournal string
  | OpenMaker string "8 word list" "8 word list" "8 word list"
  | OpenCloud string string string
  | BindApi string
  | StartApi
  | StopApi
  | CloseMaker
  | CloseCloud

datatype startup_event =
    ReadFile string file_answer
  | Did action "py_exc option"
  | RanForever manager "py_exc + unit"

record process =
  pr_events :: "startup_event list"
  pr_reader :: k8s_state

record startup_env =
  su_files :: "string \<Rightarrow> file_answer"
  su_k8s :: k8s_env
  su_outcome :: "startup_event list \<Rightarrow> action \<Rightarrow> py_exc option"
  su_forever :: "manager \<Rightarrow> (py_exc + unit) option"
  su_platform_unspecified :: int
  su_architecture_unspecified :: int

definition happens :: "startup_event \<Rightarrow> process \<Rightarrow> process" where
  "happens e p = p\<lparr>pr_events := pr_events p @ [e]\<rparr>"

definition perform :: "startup_env \<Rightarrow> action \<Rightarrow> (process, unit) proc" where
  "perform S a = (\<lambda>p. let x = su_outcome S (pr_events p) a in Some (verdict x, happens (Did a x) p))"

section \<open>Starting and stopping\<close>

definition read_required_file :: "startup_env \<Rightarrow> string \<Rightarrow> (process, string) proc" where
  "read_required_file S file = (\<lambda>p. Some (case su_files S file of
       FileText t \<Rightarrow> Inr (py_strip t)
     | NoSuchFile \<Rightarrow> Inl (SystemExit ''1'')
     | ReadError e \<Rightarrow> Inl e, happens (ReadFile file (su_files S file)) p))"

definition read_startup_id :: "startup_env \<Rightarrow> string \<Rightarrow> (process, string) proc" where
  "read_startup_id S file = tryExcept (read_required_file S file)
     (\<lambda>e. case e of SystemExit _ \<Rightarrow> Some (ret []) | _ \<Rightarrow> None)"

definition on_reader :: "(k8s_state, 'a) proc \<Rightarrow> (process, 'a) proc" where
  "on_reader q = on_part pr_reader (\<lambda>k p. p\<lparr>pr_reader := k\<rparr>) q"

definition read_cert :: "startup_env \<Rightarrow> settings \<Rightarrow> string \<Rightarrow> (process, 8 word list) proc" where
  "read_cert S F key = on_reader (read_cert_from_k8s_secret (su_k8s S) (certs_secret_name F) (k8s_namespace F) key)"

text \<open>\<open>ContainerMakerClient.__init__\<close>: the address and the key, certificate and root of its channel.\<close>

definition open_maker :: "settings \<Rightarrow> 8 word list \<Rightarrow> 8 word list \<Rightarrow> 8 word list \<Rightarrow> action" where
  "open_maker F client_key client_cert ca_cert =
     OpenMaker (host_port (container_maker_host F) (container_maker_port F)) client_key client_cert ca_cert"

text \<open>\<open>CloudClient.__init__\<close>: the device id that its requests name, the base address and their credential.\<close>

definition open_cloud :: "string \<Rightarrow> string \<Rightarrow> action" where
  "open_cloud dev token = OpenCloud dev ''https://app.browseterm.puhtaeto.com'' (bearer token)"

definition build_container_maker_client :: "startup_env \<Rightarrow> settings \<Rightarrow> (process, unit) proc" where
  "build_container_maker_client S F =
     andThen (read_cert S F ''client.key'') (\<lambda>client_key.
     andThen (read_cert S F ''client.crt'') (\<lambda>client_cert.
     andThen (read_cert S F ''ca.crt'') (\<lambda>ca_cert.
       perform S (open_maker F client_key client_cert ca_cert))))"

text \<open>\<open>await connection_manager.run_forever()\<close>; a process that runs forever never gets to the rest.\<close>

definition serve :: "startup_env \<Rightarrow> manager \<Rightarrow> (process, unit) proc" where
  "serve S mg = (\<lambda>p. case su_forever S mg of
       None \<Rightarrow> None
     | Some x \<Rightarrow> Some (x, happens (RanForever mg x) p))"

definition shut_down :: "startup_env \<Rightarrow> (process, unit) proc" where
  "shut_down S = andThen (perform S StopApi) (\<lambda>_. andThen (perform S CloseMaker) (\<lambda>_. perform S CloseCloud))"

definition connection_manager :: "startup_env \<Rightarrow> string \<Rightarrow> string \<Rightarrow> string \<Rightarrow> manager" where
  "connection_manager S dev token startup_id = \<lparr>mg_device_id = dev, mg_device_token = token,
     mg_platform = su_platform_unspecified S, mg_architecture = su_architecture_unspecified S,
     mg_runtime_version = [], mg_startup_id = startup_id\<rparr>"

definition run :: "startup_env \<Rightarrow> settings \<Rightarrow> (process, unit) proc" where
  "run S F =
     andThen (read_required_file S (device_id_file F)) (\<lambda>dev.
     andThen (read_required_file S (device_token_file F)) (\<lambda>token.
     andThen (read_startup_id S (startup_id_file F)) (\<lambda>startup_id.
     andThen (perform S (OpenJournal (command_journal_path F))) (\<lambda>_.
     andThen (build_container_maker_client S F) (\<lambda>_.
     andThen (perform S (open_cloud dev token)) (\<lambda>_.
     andThen (perform S (BindApi (host_port ''[::]'' (local_api_port F)))) (\<lambda>_.
     andThen (perform S StartApi) (\<lambda>_.
       ensuring (serve S (connection_manager S dev token startup_id)) (shut_down S)))))))))"

text \<open>The module \<open>main\<close> as a program: importing it reads the settings, then \<open>asyncio.run(run())\<close>.\<close>

definition main_module :: "startup_env \<Rightarrow> environ \<Rightarrow> (process, unit) proc" where
  "main_module S V = andThen (lift_sum (config_module V)) (run S)"

lemma main_module_default: "main_module S (\<lambda>_. None) = run S default_settings"
  by (simp add: main_module_def default_environment fun_eq_iff andThen_def)

lemma main_module_refused:
  assumes "config_module V = Inl e"
  shows "main_module S V p = Some (Inl e, p)"
  using assms by (simp add: main_module_def andThen_def)

section \<open>Events of a run\<close>

lemma perform_run:
  "perform S a p = Some (verdict (su_outcome S (pr_events p) a), happens (Did a (su_outcome S (pr_events p) a)) p)"
  by (simp add: perform_def Let_def)

lemma events_happens [simp]: "pr_events (happens e p) = pr_events p @ [e]" "pr_reader (happens e p) = pr_reader p"
  by (simp_all add: happens_def)

lemma verdict_Inr [simp]: "verdict x = Inr u \<longleftrightarrow> x = None"
  by (cases x) simp_all

text \<open>The part of a run before the server is started never mentions the server's start.\<close>

definition before_start :: "startup_event \<Rightarrow> bool" where
  "before_start e \<longleftrightarrow> (case e of
       ReadFile _ _ \<Rightarrow> True
     | Did a _ \<Rightarrow> a \<noteq> StartApi \<and> a \<noteq> StopApi \<and> a \<noteq> CloseMaker \<and> a \<noteq> CloseCloud
     | RanForever _ _ \<Rightarrow> False)"

abbreviation adds :: "(startup_event \<Rightarrow> bool) \<Rightarrow> (process, 'a) proc \<Rightarrow> bool" where
  "adds A q \<equiv> appends pr_events A q"

lemmas addsD = appendsD [where sel = pr_events]

lemma adds_perform: "(\<And>x. A (Did a x)) \<Longrightarrow> adds A (perform S a)"
  by (simp add: appends_def perform_run)

lemma adds_read: "(\<And>x. A (ReadFile file x)) \<Longrightarrow> adds A (read_required_file S file)"
  by (simp add: appends_def read_required_file_def)

lemma adds_reader: "adds A (on_reader q)"
  by (rule appends_none) (auto simp: on_reader_def on_part_def split: option.splits)

lemmas adds_intros = adds_perform adds_read adds_reader appends_ret appends_andThen appends_tryExcept

text \<open>\<open>run\<close> up to the start of the server, and what follows it.\<close>

definition start_up :: "startup_env \<Rightarrow> settings \<Rightarrow> (process, manager) proc" where
  "start_up S F =
     andThen (read_required_file S (device_id_file F)) (\<lambda>dev.
     andThen (read_required_file S (device_token_file F)) (\<lambda>token.
     andThen (read_startup_id S (startup_id_file F)) (\<lambda>startup_id.
     andThen (perform S (OpenJournal (command_journal_path F))) (\<lambda>_.
     andThen (build_container_maker_client S F) (\<lambda>_.
     andThen (perform S (open_cloud dev token)) (\<lambda>_.
     andThen (perform S (BindApi (host_port ''[::]'' (local_api_port F)))) (\<lambda>_.
       ret (connection_manager S dev token startup_id))))))))"

lemma run_start_up:
  "run S F = andThen (start_up S F) (\<lambda>mg. andThen (perform S StartApi) (\<lambda>_. ensuring (serve S mg) (shut_down S)))"
  unfolding run_def start_up_def by (simp add: andThen_assoc)

lemma adds_start_up: "adds before_start (start_up S F)"
  unfolding start_up_def build_container_maker_client_def read_startup_id_def read_cert_def
  by (intro adds_intros) (auto simp: before_start_def open_maker_def open_cloud_def intro!: adds_intros split: py_exc.splits)

text \<open>The events of shutting down: each step only when the one before did not raise.\<close>

definition shutdown_events :: "py_exc option \<Rightarrow> py_exc option \<Rightarrow> py_exc option \<Rightarrow> startup_event list" where
  "shutdown_events a b c = Did StopApi a # (if a \<noteq> None then [] else Did CloseMaker b # (if b \<noteq> None then [] else [Did CloseCloud c]))"

lemma shut_down_run:
  "\<exists>a b c p'. shut_down S p = Some (if a \<noteq> None then verdict a else if b \<noteq> None then verdict b else verdict c, p') \<and>
     pr_events p' = pr_events p @ shutdown_events a b c"
proof -
  let ?a = "su_outcome S (pr_events p) StopApi"
  let ?p1 = "happens (Did StopApi ?a) p"
  let ?b = "su_outcome S (pr_events ?p1) CloseMaker"
  let ?p2 = "happens (Did CloseMaker ?b) ?p1"
  let ?c = "su_outcome S (pr_events ?p2) CloseCloud"
  show ?thesis
    by (rule exI [of _ ?a], rule exI [of _ ?b], rule exI [of _ ?c])
      (cases ?a; cases ?b; cases ?c; simp add: shut_down_def perform_run andThen_def shutdown_events_def)
qed

text \<open>Every run that started the API: what starting left, \<open>run_forever\<close>, and the shutdown.\<close>

lemma started_run:
  assumes "run S F p = Some (r, p')" and "pr_events p = []" and "Did StartApi None \<in> set (pr_events p')"
  obtains mg p1 x a b c where "start_up S F p = Some (Inr mg, p1)" "list_all before_start (pr_events p1)"
    "su_forever S mg = Some x"
    "pr_events p' = pr_events p1 @ [Did StartApi None, RanForever mg x] @ shutdown_events a b c"
    "a = None \<and> b = None \<and> c = None \<longrightarrow> r = x"
  using assms(1) unfolding run_start_up
proof (cases rule: andThen_cases)
  case (raised e)
  with addsD [OF adds_start_up] assms(2,3) show ?thesis by (fastforce simp: before_start_def list_all_iff)
next
  case (returned mg p1)
  have es: "list_all before_start (pr_events p1)"
    using addsD [OF adds_start_up returned(1)] assms(2) by auto
  from returned(2) show ?thesis
  proof (cases rule: andThen_cases)
    case (raised e)
    then have "pr_events p' = pr_events p1 @ [Did StartApi (Some e)]"
      by (cases "su_outcome S (pr_events p1) StartApi") (auto simp: perform_run)
    with assms(3) es show ?thesis by (auto simp: before_start_def list_all_iff)
  next
    case (returned u p2)
    then have p2: "pr_events p2 = pr_events p1 @ [Did StartApi None]" by (auto simp: perform_run)
    from returned(2) obtain x where x: "su_forever S mg = Some x"
      by (auto simp: ensuring_def serve_def split: option.splits)
    let ?p3 = "happens (RanForever mg x) p2"
    obtain a b c p4 where down: "shut_down S ?p3 =
        Some (if a \<noteq> None then verdict a else if b \<noteq> None then verdict b else verdict c, p4)"
      "pr_events p4 = pr_events ?p3 @ shutdown_events a b c"
      using shut_down_run by blast
    have "p' = p4" "a = None \<and> b = None \<and> c = None \<longrightarrow> r = x"
      using returned(2) x down(1) by (auto simp: ensuring_def serve_def split: sum.splits if_splits)
    with down(2) p2 show ?thesis using that [OF \<open>start_up S F p = Some (Inr mg, p1)\<close> es x] by simp
  qed
qed

text \<open>What starting has read when it returns, and what it hands to the connection manager.\<close>

lemma andThen_Inr:
  "andThen q f p = Some (Inr y, p') \<longleftrightarrow> (\<exists>x p1. q p = Some (Inr x, p1) \<and> f x p1 = Some (Inr y, p'))"
  by (auto simp: andThen_def split: option.splits sum.splits)

lemma read_required_file_Inr:
  "read_required_file S file p = Some (Inr x, p') \<longleftrightarrow>
    (\<exists>t. su_files S file = FileText t \<and> x = py_strip t \<and> p' = happens (ReadFile file (FileText t)) p)"
  by (auto simp: read_required_file_def split: file_answer.splits)

lemma perform_Inr:
  "perform S a p = Some (Inr u, p') \<longleftrightarrow> su_outcome S (pr_events p) a = None \<and> p' = happens (Did a None) p"
  by (auto simp: perform_run)

definition is_open_cloud :: "startup_event \<Rightarrow> bool" where
  "is_open_cloud e \<longleftrightarrow> (\<exists>dev url auth y. e = Did (OpenCloud dev url auth) y)"

lemma adds_no_cloud:
  "adds (\<lambda>e. \<not> is_open_cloud e) (read_startup_id S file)"
  "adds (\<lambda>e. \<not> is_open_cloud e) (build_container_maker_client S F)"
  unfolding read_startup_id_def build_container_maker_client_def read_cert_def
  by (intro adds_intros; auto simp: is_open_cloud_def open_maker_def intro!: adds_intros split: py_exc.splits)+

lemma start_up_identity:
  assumes "start_up S F p = Some (Inr mg, p')" and "pr_events p = []"
  shows "\<exists>d t. {ReadFile (device_id_file F) (FileText d), ReadFile (device_token_file F) (FileText t)} \<subseteq> set (pr_events p') \<and>
     filter is_open_cloud (pr_events p') = [Did (open_cloud (py_strip d) (py_strip t)) None] \<and>
     mg_device_id mg = py_strip d \<and> mg_device_token mg = py_strip t"
proof -
  from assms(1) obtain d t sid p3 p5 where run:
    "read_startup_id S (startup_id_file F) (happens (ReadFile (device_token_file F) (FileText t))
       (happens (ReadFile (device_id_file F) (FileText d)) p)) = Some (Inr sid, p3)"
    "build_container_maker_client S F (happens (Did (OpenJournal (command_journal_path F)) None) p3) = Some (Inr (), p5)"
    "p' = happens (Did (BindApi (host_port ''[::]'' (local_api_port F))) None) (happens (Did (open_cloud (py_strip d) (py_strip t)) None) p5)"
    "mg = connection_manager S (py_strip d) (py_strip t) sid"
    by (auto simp: start_up_def andThen_Inr read_required_file_Inr perform_Inr)
  obtain es1 es2 where es: "pr_events p3 = pr_events p @ [ReadFile (device_id_file F) (FileText d),
      ReadFile (device_token_file F) (FileText t)] @ es1" "list_all (\<lambda>e. \<not> is_open_cloud e) es1"
    "pr_events p5 = pr_events p3 @ [Did (OpenJournal (command_journal_path F)) None] @ es2"
    "list_all (\<lambda>e. \<not> is_open_cloud e) es2"
    using addsD [OF adds_no_cloud(1) run(1)] addsD [OF adds_no_cloud(2) run(2)] by auto
  then have "filter is_open_cloud es1 = []" "filter is_open_cloud es2 = []"
    by (simp_all add: list_all_iff)
  with es assms(2) run(3,4) show ?thesis
    by (intro exI [of _ d] exI [of _ t]) (simp add: is_open_cloud_def open_cloud_def connection_manager_def)
qed

section \<open>The properties of starting and stopping\<close>

text \<open>
  Once the local API has been started the agent cleans up, however serving ends. Every run that started it
  consists of the events of starting, then \<open>run_forever\<close>, and then, also when that raised or was
  cancelled, stopping the server, closing the Container Maker channel and closing the Cloud client, in
  this order; a step is skipped only when an earlier one raised. When none raises, the run ends as
  \<open>run_forever\<close> ended.
\<close>

lemma started_agent_cleans_up:
  assumes "run S F p = Some (r, p')" and "pr_events p = []" and "Did StartApi None \<in> set (pr_events p')"
  shows "\<exists>es mg x a b c. pr_events p' = es @ [Did StartApi None, RanForever mg x] @ shutdown_events a b c \<and>
     list_all before_start es \<and> su_forever S mg = Some x \<and>
     (a = None \<and> b = None \<and> c = None \<longrightarrow> r = x)"
  using started_run [OF assms] by metis

text \<open>The manager's \<open>run_forever\<close> of \<open>Control_Stream\<close>, from the agent as \<open>run\<close> has built it.\<close>

definition serving :: "env \<Rightarrow> config \<Rightarrow> (manager \<Rightarrow> (agent, unit) proc) \<Rightarrow> agent \<Rightarrow> manager \<Rightarrow> (py_exc + unit) option" where
  "serving E C connect a mg = map_option fst (run_forever E C (connect mg) 0 a)"

text \<open>With sessions that do not set the stop flag, serving is ended by an interruption and by nothing else.\<close>

lemma interrupted_serving:
  assumes "su_forever S = serving E C connect a" and "reconnect_schedule C \<noteq> []" and "\<not> ag_stopped a"
    and "\<And>mg. never_stops (connect mg)"
    and "run S F p = Some (r, p')" and "pr_events p = []" and "Did StartApi None \<in> set (pr_events p')"
  shows "\<exists>es mg e u v w b. pr_events p' = es @ [Did StartApi None, RanForever mg (Inl e)] @ shutdown_events u v w \<and>
     list_all before_start es \<and> \<not> is_exception e \<and> (u = None \<and> v = None \<and> w = None \<longrightarrow> r = Inl e) \<and>
     run_forever E C (connect mg) 0 a = Some (Inl e, b)"
proof -
  obtain es mg x u v w where es: "pr_events p' = es @ [Did StartApi None, RanForever mg x] @ shutdown_events u v w"
    "list_all before_start es" "serving E C connect a mg = Some x" "u = None \<and> v = None \<and> w = None \<longrightarrow> r = x"
    using started_agent_cleans_up [OF assms(5-7)] assms(1) by metis
  then obtain b where b: "run_forever E C (connect mg) 0 a = Some (x, b)" by (auto simp: serving_def)
  with run_forever_ends(2) assms(2-4) have "interrupted x" by metis
  then obtain e where "x = Inl e" "\<not> is_exception e" by (auto simp: interrupted_def)
  with es b show ?thesis by metis
qed

text \<open>
  C33: One identity on both channels. In every run that started the local API, the id and the token the
  control stream presents are the stripped contents of the two mounted files, and the client of Cloud's HTTP
  calls was opened exactly once, with the same id and the same token. Its address is the production address
  whatever the settings are: \<open>CLOUD_CONTROL_HOST\<close> moves the control stream, not the reports.
\<close>

theorem one_identity:
  assumes "run S F p = Some (r, p')" and "pr_events p = []" and "Did StartApi None \<in> set (pr_events p')"
  shows "\<exists>d t mg x. {ReadFile (device_id_file F) (FileText d), ReadFile (device_token_file F) (FileText t),
       RanForever mg x} \<subseteq> set (pr_events p') \<and>
     mg_device_id mg = py_strip d \<and>
     dial F mg = (default_channel_factory F, [(''authorization'', ''Bearer '' @ py_strip t)]) \<and>
     filter is_open_cloud (pr_events p') =
       [Did (OpenCloud (py_strip d) ''https://app.browseterm.puhtaeto.com'' (''Bearer '' @ py_strip t)) None]"
proof -
  obtain mg p1 x a b c where run: "start_up S F p = Some (Inr mg, p1)"
    "pr_events p' = pr_events p1 @ [Did StartApi None, RanForever mg x] @ shutdown_events a b c"
    using started_run [OF assms] by metis
  have "filter is_open_cloud (shutdown_events a b c) = []" by (simp add: shutdown_events_def is_open_cloud_def)
  with start_up_identity [OF run(1) assms(2)] run(2) show ?thesis
    by (auto simp: is_open_cloud_def dial_def bearer_def open_cloud_def)
qed

text \<open>
  Without its identity the agent does nothing: when the device id file or the token file is missing, the run is
  \<open>SystemExit\<close> with code 1 after reading at most these two files; a missing startup id file only makes the
  startup id empty.
\<close>

lemma identity_required:
  assumes "su_files S (device_id_file F) = NoSuchFile \<or>
      (\<exists>t. su_files S (device_id_file F) = FileText t) \<and> su_files S (device_token_file F) = NoSuchFile"
  shows "\<exists>p' es. run S F p = Some (Inl (SystemExit ''1''), p') \<and> pr_events p' = pr_events p @ es \<and>
     (es = [ReadFile (device_id_file F) NoSuchFile] \<or>
      (\<exists>t. es = [ReadFile (device_id_file F) (FileText t), ReadFile (device_token_file F) NoSuchFile])) \<and>
     (su_files S (startup_id_file F) = NoSuchFile \<longrightarrow>
       read_startup_id S (startup_id_file F) p = Some (Inr [], happens (ReadFile (startup_id_file F) NoSuchFile) p))"
  using assms
  by (auto simp: run_def read_required_file_def read_startup_id_def andThen_def tryExcept_def)

section \<open>The certificates\<close>

text \<open>The client of Container Maker is opened with the bytes of the three files in the Secret.\<close>

lemma read_cert_run:
  assumes "K8sSecretsReader (su_k8s S) no_reader = Some (Inr (), s)" and "secret_reads (su_k8s S) s (pr_reader p)"
    and "CHR ''/'' \<notin> set (k8s_namespace F)"
    and "\<And>t. api_read (su_k8s S) t (certs_secret_name F) (k8s_namespace F) = Inr (Some (map_option b64encode \<circ> files))"
    and "files key = Some bs"
  shows "\<exists>p'. read_cert S F key p = Some (Inr bs, p') \<and> pr_events p' = pr_events p \<and>
     secret_reads (su_k8s S) s (pr_reader p')"
proof -
  obtain s2 where s2: "read_cert_from_k8s_secret (su_k8s S) (certs_secret_name F) (k8s_namespace F) key (pr_reader p) =
      Some (Inr bs, s2)"
    using certificate_read [where files = files and bs = bs, OF assms(1-3)] assms(4,5) by blast
  with one_more [OF assms(2,3)] have "secret_reads (su_k8s S) s s2"
    unfolding read_cert_from_k8s_secret_def by blast
  with s2 show ?thesis by (auto simp: read_cert_def on_reader_def on_part_def)
qed

lemma maker_client_built:
  assumes "K8sSecretsReader (su_k8s S) no_reader = Some (Inr (), s)" and "secret_reads (su_k8s S) s (pr_reader p)"
    and "CHR ''/'' \<notin> set (k8s_namespace F)"
    and "\<And>t. api_read (su_k8s S) t (certs_secret_name F) (k8s_namespace F) = Inr (Some (map_option b64encode \<circ> files))"
    and "files ''client.key'' = Some k" and "files ''client.crt'' = Some crt" and "files ''ca.crt'' = Some ca"
  shows "\<exists>p'. build_container_maker_client S F p = Some (verdict (su_outcome S (pr_events p) (open_maker F k crt ca)), p') \<and>
     pr_events p' = pr_events p @ [Did (open_maker F k crt ca) (su_outcome S (pr_events p) (open_maker F k crt ca))]"
proof -
  note step = read_cert_run [where files = files, OF assms(1) _ assms(3,4)]
  obtain p1 where p1: "read_cert S F ''client.key'' p = Some (Inr k, p1)" "pr_events p1 = pr_events p"
    "secret_reads (su_k8s S) s (pr_reader p1)" using step [OF assms(2,5)] by blast
  obtain p2 where p2: "read_cert S F ''client.crt'' p1 = Some (Inr crt, p2)" "pr_events p2 = pr_events p1"
    "secret_reads (su_k8s S) s (pr_reader p2)" using step [OF p1(3) assms(6)] by blast
  obtain p3 where p3: "read_cert S F ''ca.crt'' p2 = Some (Inr ca, p3)" "pr_events p3 = pr_events p2"
    using step [OF p2(3) assms(7)] by blast
  have "build_container_maker_client S F p = perform S (open_maker F k crt ca) p3"
    using p1(1) p2(1) p3(1) by (simp add: build_container_maker_client_def andThen_def)
  with p1(2) p2(2) p3(2) show ?thesis by (simp add: perform_run)
qed

section \<open>Witnesses\<close>

text \<open>A process whose serving is cancelled; the startup id file is missing.\<close>

definition demo_startup :: startup_env where
  "demo_startup = \<lparr>su_files = (\<lambda>file. if file = startup_id_file default_settings then NoSuchFile else FileText ''dev-1''),
     su_k8s = demo_k8s, su_outcome = (\<lambda>_ _. None), su_forever = (\<lambda>_. Some (Inl CancelledError)),
     su_platform_unspecified = 0, su_architecture_unspecified = 0\<rparr>"

text \<open>The default settings with another control host.\<close>

definition demo_settings :: "string \<Rightarrow> settings" where
  "demo_settings h = default_settings\<lparr>cloud_control_host := h\<rparr>"

definition demo_process :: process where
  "demo_process = \<lparr>pr_events = [], pr_reader = demo_reader\<rparr>"

lemma demo_startup_sel [simp]:
  "su_k8s demo_startup = demo_k8s" "su_outcome demo_startup es a = None"
  "su_forever demo_startup mg = Some (Inl CancelledError)"
  by (simp_all add: demo_startup_def)

lemma demo_maker:
  assumes "pr_reader p = demo_reader"
  shows "\<exists>p' e. build_container_maker_client demo_startup (demo_settings h) p = Some (Inr (), p') \<and>
     pr_events p' = pr_events p @ [e]"
proof -
  let ?F = "demo_settings h"
  have built: "K8sSecretsReader (su_k8s demo_startup) no_reader = Some (Inr (), demo_reader)"
    using demo_reader_constructed by simp
  have none: "secret_reads (su_k8s demo_startup) demo_reader (pr_reader p)" using assms no_reads by simp
  have slash: "CHR ''/'' \<notin> set (k8s_namespace ?F)" by (simp add: demo_settings_def default_settings_def)
  have api: "api_read (su_k8s demo_startup) t n ns = Inr (Some (map_option b64encode \<circ> demo_files))" for t n ns
    by (simp add: demo_k8s_def)
  have files: "demo_files ''client.key'' = Some [222, 173, 190, 239]" "demo_files ''client.crt'' = Some [1, 2, 3]"
    "demo_files ''ca.crt'' = Some [0, 255]" by (simp_all add: demo_files_def)
  from maker_client_built [where files = demo_files, OF built none slash api files] show ?thesis by auto
qed

lemma demo_run:
  "\<exists>p'. run demo_startup (demo_settings h) demo_process = Some (Inl CancelledError, p') \<and>
     Did StartApi None \<in> set (pr_events p')"
proof -
  let ?F = "demo_settings h" and ?S = demo_startup
  have files: "su_files ?S (device_id_file ?F) = FileText ''dev-1''" "su_files ?S (device_token_file ?F) = FileText ''dev-1''"
    "su_files ?S (startup_id_file ?F) = NoSuchFile"
    by (simp_all add: demo_startup_def demo_settings_def default_settings_def)
  let ?p1 = "happens (Did (OpenJournal (command_journal_path ?F)) None)
    (happens (ReadFile (startup_id_file ?F) NoSuchFile)
    (happens (ReadFile (device_token_file ?F) (FileText ''dev-1''))
    (happens (ReadFile (device_id_file ?F) (FileText ''dev-1'')) demo_process)))"
  have "pr_reader ?p1 = demo_reader" by (simp add: demo_process_def)
  then obtain p2 e where maker: "build_container_maker_client ?S ?F ?p1 = Some (Inr (), p2)"
    "pr_events p2 = pr_events ?p1 @ [e]"
    using demo_maker by blast
  show ?thesis
    by (simp add: run_def read_required_file_def read_startup_id_def files andThen_def tryExcept_def perform_run
        maker ensuring_def serve_def shut_down_def)
qed

lemma demo_process_new: "pr_events demo_process = []"
  by (simp add: demo_process_def)

theorem one_identity_witness:
  "\<exists>p' mg. run demo_startup (demo_settings ''cloud.example'') demo_process = Some (Inl CancelledError, p') \<and>
     fst (dial (demo_settings ''cloud.example'') mg) = SecureChannel ''cloud.example:443'' \<and>
     (\<exists>dev auth. Did (OpenCloud dev ''https://app.browseterm.puhtaeto.com'' auth) None \<in> set (pr_events p'))"
proof -
  let ?F = "demo_settings ''cloud.example''"
  obtain p' where run: "run demo_startup ?F demo_process = Some (Inl CancelledError, p')"
    "Did StartApi None \<in> set (pr_events p')" using demo_run by blast
  from one_identity [OF run(1) demo_process_new run(2)] obtain d t mg where
    t: "dial ?F mg = (default_channel_factory ?F, [(''authorization'', ''Bearer '' @ py_strip t)])"
    "filter is_open_cloud (pr_events p') =
       [Did (OpenCloud (py_strip d) ''https://app.browseterm.puhtaeto.com'' (''Bearer '' @ py_strip t)) None]" by blast
  have "Did (OpenCloud (py_strip d) ''https://app.browseterm.puhtaeto.com'' (''Bearer '' @ py_strip t)) None \<in> set (pr_events p')"
    using t(2) filter_is_subset [of is_open_cloud "pr_events p'"] by auto
  moreover have "default_channel_factory ?F = SecureChannel ''cloud.example:443''"
    by (simp add: default_channel_factory_def demo_settings_def default_settings_def host_port_def show_int_def
        show_nat.simps digit_char_def char_of_eq_iff)
  then have "fst (dial ?F mg) = SecureChannel ''cloud.example:443''" by (simp only: t(1) fst_conv)
  ultimately show ?thesis using run(1) by blast
qed

end
