(* ===== verification/Program.thy ===== *)
theory Program
  imports Sessions Startup
begin

text \<open>
  The program put together: the module \<open>main\<close> reads its settings and runs, \<open>run_forever\<close> reconnects, every session is
  \<open>_connect_once\<close> with a conversation of \<open>Sessions\<close>, whose messages go through \<open>_handle_inbound\<close> to the executor, the
  handlers and the clients. What is left as a parameter is what the outside does and in which order.
\<close>

lemma config_schedule:
  assumes "config_module V = Inr F" and "agent_config F = Some C"
  shows "reconnect_schedule C = [1, 2, 4, 8, 15, 30]"
proof -
  have "backoff_schedule F = [1, 2, 4, 8, 15, 30]"
    using assms(1) by (auto simp: config_module_def sum_bind_Inr_iff)
  with assms(2) show ?thesis by (auto simp: agent_config_def split: py_float.splits)
qed

lemma conversing_never_stops: "conversing E C dev mg P talk \<Longrightarrow> never_stops (connect_once E F mg talk)"
  using connect_once_run by (fastforce simp: never_stops_def)

section \<open>The properties of the program\<close>

text \<open>
  C5: The reconnect loop implements the abstract command machine. From a well-formed agent, with sessions that are any
  conversations, however many connections fail, end or are interrupted and whatever the disk refuses: where
  \<open>run_forever\<close> has got to after any number of rounds, and where it ends if it ends, the agent is well-formed and
  what its journal says of the commands has changed only by steps of the machine.
\<close>

theorem run_forever_refines_lifecycle:
  assumes "conversing E C dev mg P talk" and "well_formed a"
    and "served E C (connect_once E F mg talk) n a m b \<or> run_forever E C (connect_once E F mg talk) n a = Some (r, b)"
  shows "life_step\<^sup>*\<^sup>* (abs_agent a) (abs_agent b) \<and> well_formed b"
proof -
  have "serves E C F dev mg a b" using assms(1,3) served_serves run_forever_serves by metis
  then have "(agent_step E C dev)\<^sup>*\<^sup>* a b" by (simp add: serves_def)
  with assms(2) agent_life.run_inv agent_life.run_sim show ?thesis by blast
qed

text \<open>
  C19: At most one channel, and none left behind. In every run of the reconnect loop, at every moment at most one
  channel to Cloud is open; none is open between two rounds or when the loop ends, however the sessions ended;
  every channel goes to the configured address and every call on it presents the token of the device.
\<close>

theorem one_channel_at_a_time:
  assumes "conversing E C dev mg P talk"
    and "served E C (connect_once E F mg talk) n a m b \<or> run_forever E C (connect_once E F mg talk) n a = Some (r, b)"
  shows "\<exists>es. ag_trace b = ag_trace a @ es \<and> links_open es = 0 \<and>
     (\<forall>t. prefix t es \<longrightarrow> links_open t \<in> {0, 1}) \<and>
     (\<forall>ch x. LinkOpened ch x \<in> set es \<longrightarrow> ch = default_channel_factory F) \<and>
     (\<forall>md. ConnectCalled md \<in> set es \<longrightarrow> md = [(''authorization'', ''Bearer '' @ mg_device_token mg)])"
proof -
  have "serves E C F dev mg a b" using assms served_serves run_forever_serves by metis
  then obtain es where "ag_trace b = ag_trace a @ es" "links_ok F mg es" by (auto simp: serves_def)
  then show ?thesis by (fastforce simp: links_ok_def bearer_def)
qed

text \<open>
  C9: The agent serves until it is interrupted, and then cleans up. Whatever its connections do, every run of the
  program that started the local API and ended was ended by a cancellation or the exit of the process, never
  by a connection that failed or returned; by then every channel to Cloud is closed; then it stopped the server,
  closed the Container Maker channel and the Cloud client, in this order, each skipped only when an earlier
  one raised; and when none raises, the run ends with that interruption.
\<close>

theorem interrupted_agent_cleans_up:
  assumes "config_module V = Inr F" and "agent_config F = Some C" and "\<not> ag_stopped a"
    and "su_forever S = serving E C (\<lambda>mg. connect_once E F mg (talk mg)) a"
    and "\<And>mg. conversing E C (mg_device_id mg) mg P (talk mg)"
    and "main_module S V p = Some (r, p')" and "pr_events p = []" and "Did StartApi None \<in> set (pr_events p')"
  shows "\<exists>es mg e u v w b. pr_events p' = es @ [Did StartApi None, RanForever mg (Inl e)] @ shutdown_events u v w \<and>
     list_all before_start es \<and> \<not> is_exception e \<and> (u = None \<and> v = None \<and> w = None \<longrightarrow> r = Inl e) \<and>
     run_forever E C (connect_once E F mg (talk mg)) 0 a = Some (Inl e, b) \<and>
     links_open (ag_trace b) = links_open (ag_trace a)"
proof -
  have run: "run S F p = Some (r, p')" using assms(1,6) by (simp add: main_module_def andThen_def)
  have schedule: "reconnect_schedule C \<noteq> []" using config_schedule [OF assms(1,2)] by simp
  obtain es mg e u v w b where ended: "pr_events p' = es @ [Did StartApi None, RanForever mg (Inl e)] @ shutdown_events u v w"
    "list_all before_start es" "\<not> is_exception e" "u = None \<and> v = None \<and> w = None \<longrightarrow> r = Inl e"
    and b: "run_forever E C (connect_once E F mg (talk mg)) 0 a = Some (Inl e, b)"
    using interrupted_serving [OF assms(4) schedule assms(3) conversing_never_stops [OF assms(5)] run assms(7,8)] by metis
  have "serves E C F (mg_device_id mg) mg a b" by (rule run_forever_serves [OF b assms(5)])
  then have "links_open (ag_trace b) = links_open (ag_trace a)" by (auto simp: serves_def links_ok_def)
  with ended b show ?thesis by metis
qed

text \<open>
  C10: The agent keeps trying. As long as nobody cancels it or stops it, whatever happens to its connections: every
  session that fails, ends or breaks off is followed by another attempt, so that for every number \<open>k\<close> there is a
  moment at which the agent has made \<open>k\<close> attempts to connect; and \<open>run_forever\<close> does not return.
\<close>

theorem keeps_reconnecting:
  assumes "conversing E C dev mg P talk" and "uninterrupted E talk" and "reconnect_schedule C \<noteq> []" and "\<not> ag_stopped a"
  shows "(\<forall>k. \<exists>m b es. served E C (connect_once E F mg talk) n a m b \<and> ag_trace b = ag_trace a @ es \<and> attempts es = k) \<and>
     run_forever E C (connect_once E F mg talk) n a = None"
  using served_goes_on [OF assms] run_forever_goes_on [OF assms] by blast

section \<open>Witnesses\<close>

text \<open>A connection that says Hello, answers a ping and is cancelled.\<close>

definition demo_script :: "trace \<Rightarrow> nat \<Rightarrow> happening" where
  "demo_script t i = (if i = 0 then GeneratorResumed else if i = 1 then Arrived (Ping 7) else CallEnded (Inl CancelledError))"

definition demo_talk :: "manager \<Rightarrow> (agent, unit) proc" where
  "demo_talk mg = scripted (demo_env JNull) default_config (mg_device_id mg) mg demo_script"

lemma demo_conversing: "conversing (demo_env JNull) default_config (mg_device_id mg) mg any_time (demo_talk mg)"
  unfolding demo_talk_def by (rule scripted_conversing)

lemma demo_talk_run: "\<exists>a'. demo_talk mg a = Some (Inl CancelledError, a') \<and> ag_trace a' = ag_trace a"
proof -
  let ?s = "(new_stream a)\<lparr>st_gen := HelloSent, st_wire := [build_hello default_config mg]\<rparr>"
  have gen: "resume_generator (demo_env JNull) default_config mg (new_stream a) = ?s" by (simp add: new_stream_def)
  obtain b where ping: "receive (demo_env JNull) default_config dev (Ping 7) (st_agent (new_stream a)) = Some (Inr (), b)"
    "ag_trace b = ag_trace a" for dev
    by (simp add: receive_def send_run new_stream_def)
  note play = play_script.simps [of "demo_env JNull" default_config "mg_device_id mg" mg "demo_script (ag_trace a)"]
  have "play_script (demo_env JNull) default_config (mg_device_id mg) mg (demo_script (ag_trace a)) (Suc (Suc 0)) s =
      Some (Inl CancelledError, s)" for s
    by (subst play) (simp add: demo_script_def)
  then have "play_script (demo_env JNull) default_config (mg_device_id mg) mg (demo_script (ag_trace a)) (Suc 0) ?s =
      Some (Inl CancelledError, ?s\<lparr>st_agent := b\<rparr>)"
    by (subst play) (simp add: demo_script_def on_agent_def ping(1))
  then have "play_script (demo_env JNull) default_config (mg_device_id mg) mg (demo_script (ag_trace a)) 0 (new_stream a) =
      Some (Inl CancelledError, ?s\<lparr>st_agent := b\<rparr>)"
    by (subst play) (simp add: demo_script_def gen del: resume_generator.simps)
  with ping(2) show ?thesis by (simp add: demo_talk_def scripted_def)
qed

abbreviation demo_session :: "manager \<Rightarrow> (agent, unit) proc" where
  "demo_session mg \<equiv> connect_once (demo_env JNull) default_settings mg (demo_talk mg)"

lemma demo_session_run: "\<exists>b. demo_session mg a = Some (Inl CancelledError, b)"
proof -
  obtain b where "demo_talk mg (a\<lparr>ag_outbound := Some [], ag_trace := ag_trace a @
      [LinkOpened (fst (dial default_settings mg)) None, ConnectCalled (snd (dial default_settings mg))]\<rparr>) =
      Some (Inl CancelledError, b)" using demo_talk_run by blast
  then show ?thesis
    by (cases a) (simp add: connect_once_def andThen_def on_trace_run open_channel_def call_connect_def close_channel_def
        ensuring_def Let_def)
qed

lemma demo_forever: "\<exists>b. run_forever (demo_env JNull) default_config (demo_session mg) 0 idle_agent = Some (Inl CancelledError, b)"
proof -
  obtain b where "demo_session mg idle_agent = Some (Inl CancelledError, b)" using demo_session_run by blast
  then show ?thesis
    by (subst run_forever.simps) (simp add: idle_agent_def reconnect_round_def session_run andThen_def)
qed

theorem run_forever_refines_lifecycle_witness:
  "\<exists>b. run_forever (demo_env JNull) default_config (demo_session demo_manager) 0 idle_agent = Some (Inl CancelledError, b) \<and>
     life_step\<^sup>*\<^sup>* (abs_agent idle_agent) (abs_agent b)"
proof -
  obtain b where b: "run_forever (demo_env JNull) default_config (demo_session demo_manager) 0 idle_agent =
      Some (Inl CancelledError, b)" using demo_forever by blast
  have "well_formed idle_agent" by (simp add: idle_agent_def well_formed_def rows_ok_def get_entry_def)
  from run_forever_refines_lifecycle [OF demo_conversing this disjI2 [OF b]] b show ?thesis by blast
qed

theorem one_channel_at_a_time_witness:
  "\<exists>b. run_forever (demo_env JNull) default_config (demo_session demo_manager) 0 idle_agent = Some (Inl CancelledError, b) \<and>
     links_open (ag_trace b) = 0"
proof -
  obtain b where b: "run_forever (demo_env JNull) default_config (demo_session demo_manager) 0 idle_agent =
      Some (Inl CancelledError, b)" using demo_forever by blast
  from one_channel_at_a_time [OF demo_conversing disjI2 [OF b]] b show ?thesis by (auto simp: idle_agent_def)
qed

lemma demo_program_serves:
  "su_forever demo_startup = serving (demo_env JNull) default_config demo_session idle_agent"
proof
  fix mg
  obtain b where "run_forever (demo_env JNull) default_config (demo_session mg) 0 idle_agent = Some (Inl CancelledError, b)"
    using demo_forever by blast
  then show "su_forever demo_startup mg = serving (demo_env JNull) default_config demo_session idle_agent mg"
    by (simp add: serving_def)
qed

theorem interrupted_agent_cleans_up_witness:
  "\<exists>p' es mg a b c. main_module demo_startup (\<lambda>_. None) demo_process = Some (Inl CancelledError, p') \<and>
     pr_events p' = es @ [Did StartApi None, RanForever mg (Inl CancelledError)] @ shutdown_events a b c"
proof -
  have "demo_settings (cloud_control_host default_settings) = default_settings" by (simp add: demo_settings_def)
  then obtain p' where run: "main_module demo_startup (\<lambda>_. None) demo_process = Some (Inl CancelledError, p')"
    "Did StartApi None \<in> set (pr_events p')" using demo_run [of "cloud_control_host default_settings"]
    by (auto simp: main_module_default)
  have idle: "\<not> ag_stopped idle_agent" by (simp add: idle_agent_def)
  from interrupted_agent_cleans_up [OF default_environment idle demo_program_serves demo_conversing run(1) demo_process_new run(2)]
  obtain es mg e u v w b where es: "pr_events p' = es @ [Did StartApi None, RanForever mg (Inl e)] @ shutdown_events u v w"
    "run_forever (demo_env JNull) default_config (demo_session mg) 0 idle_agent = Some (Inl e, b)" by blast
  moreover from es(2) demo_forever [of mg] have "e = CancelledError" by auto
  ultimately show ?thesis using run(1) by blast
qed

text \<open>Sessions that break off at once, for ever.\<close>

definition broken_script :: "trace \<Rightarrow> nat \<Rightarrow> happening" where
  "broken_script t i = CallEnded (Inl (GrpcRpcError (Some UNAVAILABLE) ''connection refused''))"

theorem keeps_reconnecting_witness:
  "\<exists>m b. served (demo_env JNull) default_config (connect_once (demo_env JNull) default_settings demo_manager
       (scripted (demo_env JNull) default_config ''dev-1'' demo_manager broken_script)) 0 idle_agent m b \<and>
     attempts (ag_trace b) = 1000"
proof -
  let ?talk = "scripted (demo_env JNull) default_config ''dev-1'' demo_manager broken_script"
  have "?talk a = Some (Inl (GrpcRpcError (Some UNAVAILABLE) ''connection refused''), st_agent (new_stream a))" for a
    by (simp add: scripted_def play_script.simps broken_script_def)
  then have "uninterrupted (demo_env JNull) ?talk" by (simp add: uninterrupted_def)
  moreover have "\<not> ag_stopped idle_agent" "ag_trace idle_agent = []" by (simp_all add: idle_agent_def)
  ultimately show ?thesis
    using keeps_reconnecting [OF scripted_conversing, of "demo_env JNull" default_config "''dev-1''" demo_manager broken_script
      idle_agent default_settings 0] by (metis append_Nil list.distinct(1) schedule_default)
qed

end
