(* ===== verification/Logging.thy ===== *)
theory Logging
  imports Json
begin

text \<open>
  \<open>device_agent/observability/logging_setup.py\<close>: one log record as one JSON line, the correlation context,
  and installing the formatter on the root logger. Standard library: a record's creation time is its ISO
  text and \<open>formatException\<close> its text; a value that JSON cannot encode is in the record as the text
  \<open>default=str\<close> gives it.
\<close>

section \<open>Records and context\<close>

record log_context =
  request_id_var :: string
  user_var :: string

definition initial_context :: log_context where
  "initial_context = \<lparr>request_id_var = ''-'', user_var = ''system:-''\<rparr>"

text \<open>\<open>record.__dict__\<close> holds the standard attributes and the extras, in order.\<close>

record log_record =
  lr_created :: string
  lr_levelname :: string
  lr_name :: string
  lr_message :: string
  lr_dict :: "(string \<times> json) list"
  lr_exc_info :: "string option"

text \<open>The attributes of \<open>logging.makeLogRecord({})\<close>, and the three named beside them.\<close>

definition reserved :: "string list" where
  "reserved = [''name'', ''msg'', ''args'', ''levelname'', ''levelno'', ''pathname'', ''filename'', ''module'',
     ''exc_info'', ''exc_text'', ''stack_info'', ''lineno'', ''funcName'', ''created'', ''msecs'',
     ''relativeCreated'', ''thread'', ''threadName'', ''processName'', ''process'',
     ''message'', ''asctime'', ''taskName'']"

section \<open>\<open>JsonFormatter.format\<close>\<close>

definition base_payload :: "string \<Rightarrow> log_context \<Rightarrow> log_record \<Rightarrow> (string \<times> json) list" where
  "base_payload service ctx r = [(''timestamp'', JStr (lr_created r)), (''level'', JStr (lr_levelname r)),
     (''service'', JStr service), (''logger'', JStr (lr_name r)), (''message'', JStr (lr_message r)),
     (''request_id'', JStr (request_id_var ctx)), (''user'', JStr (user_var ctx))]"

definition is_extra :: "string \<Rightarrow> bool" where
  "is_extra key \<longleftrightarrow> key \<notin> set reserved \<and> take 1 key \<noteq> ''_''"

definition add_extra :: "string \<times> json \<Rightarrow> (string \<times> json) list \<Rightarrow> (string \<times> json) list" where
  "add_extra kv payload = (if is_extra (fst kv) then dict_set (fst kv) (snd kv) payload else payload)"

definition log_payload :: "string \<Rightarrow> log_context \<Rightarrow> log_record \<Rightarrow> (string \<times> json) list" where
  "log_payload service ctx r =
     (let payload = fold add_extra (lr_dict r) (base_payload service ctx r) in
      case lr_exc_info r of
        None \<Rightarrow> payload
      | Some text \<Rightarrow> dict_set ''exc_info'' (JStr text) payload)"

definition format_record :: "string \<Rightarrow> log_context \<Rightarrow> log_record \<Rightarrow> string" where
  "format_record service ctx r = json_dumps (JObj (log_payload service ctx r))"

section \<open>The root logger and the context\<close>

datatype log_handler = StdoutHandler string | OtherHandler nat

record root_logger =
  rl_level :: int
  rl_handlers :: "log_handler list"

definition configure_logging :: "string \<Rightarrow> int \<Rightarrow> root_logger \<Rightarrow> root_logger" where
  "configure_logging service level logger =
     logger\<lparr>rl_level := level,
       rl_handlers := fold remove1 (rl_handlers logger) (rl_handlers logger) @ [StdoutHandler service]\<rparr>"

text \<open>\<open>set_request_context\<close>; \<open>fresh\<close> is what \<open>new_request_id\<close> would mint.\<close>

definition set_request_context ::
  "string \<Rightarrow> string option \<Rightarrow> string option \<Rightarrow> log_context \<Rightarrow> string \<times> log_context"
where
  "set_request_context fresh request_id user ctx =
     (let rid = (case request_id of None \<Rightarrow> fresh | Some s \<Rightarrow> if s = [] then fresh else s) in
      (rid, ctx\<lparr>request_id_var := rid, user_var := (case user of None \<Rightarrow> user_var ctx | Some u \<Rightarrow> u)\<rparr>))"

section \<open>Lines\<close>

definition printable :: "char \<Rightarrow> bool" where
  "printable c \<longleftrightarrow> 32 \<le> (of_char c :: nat) \<and> (of_char c :: nat) \<le> 126"

lemma printable_digits: "c \<in> set (show_nat n) \<Longrightarrow> printable c"
  using show_nat_digits [of n] by (auto simp: list_all_iff is_ascii_digit_def printable_def)

lemma printable_hex: "d < 16 \<Longrightarrow> printable (hex_char d)"
  by (auto simp: hex_char_def printable_def)

lemma printable_escape: "x \<in> set (escape_char c) \<Longrightarrow> printable x"
proof -
  have "(of_char c :: nat) < 256" by simp
  then have n: "(of_char c :: nat) div 16 < 16" "(of_char c :: nat) mod 16 < 16"
    by (simp_all add: less_mult_imp_div_less)
  assume "x \<in> set (escape_char c)"
  then show ?thesis
    using printable_hex [OF n(1)] printable_hex [OF n(2)]
    by (auto simp: escape_char_def Let_def printable_def split: if_splits)
qed

lemma printable_str: "x \<in> set (dumps_str s) \<Longrightarrow> printable x"
  by (auto simp: dumps_str_def dest: printable_escape) (simp_all add: printable_def)

lemma set_py_join: "set (py_join sep ws) \<subseteq> set sep \<union> (\<Union>w \<in> set ws. set w)"
  by (induction sep ws rule: py_join.induct) auto

lemma printable_join:
  assumes "c \<in> set (py_join '', '' ws)" and "\<And>w. w \<in> set ws \<Longrightarrow> c \<in> set w \<Longrightarrow> printable c"
  shows "printable c"
proof -
  have "c \<in> set '', '' \<or> (\<exists>w \<in> set ws. c \<in> set w)" using assms(1) set_py_join by fastforce
  with assms(2) show ?thesis by (auto simp: printable_def)
qed

text \<open>Encoded JSON is printable ASCII.\<close>

lemma printable_dumps: "json_plain v \<Longrightarrow> c \<in> set (json_dumps v) \<Longrightarrow> printable c"
proof (induction v)
  case (JInt i)
  then show ?case using printable_digits by (auto simp: show_int_def printable_def split: if_splits)
next
  case (JStr s)
  then show ?case using printable_str by simp
next
  case (JFloat s)
  then have "c \<in> set s" "float_text s" by simp_all
  moreover have "printable d" if "number_char d" for d
    using that by (auto simp: number_char_def is_ascii_digit_def printable_def)
  ultimately show ?case using parse_number_float [of s s "[]"]
    by (auto simp: float_text_def list_all_iff) (auto simp: printable_def)
next
  case (JArr vs)
  then consider "c = CHR ''[''" | "c = CHR '']''" | "c \<in> set (py_join '', '' (map json_dumps vs))" by auto
  then show ?case
  proof cases
    case 3
    then show ?thesis by (rule printable_join) (use JArr in \<open>auto simp: list_all_iff\<close>)
  qed (simp_all add: printable_def)
next
  case (JObj kvs)
  then consider "c = CHR ''{''" | "c = CHR ''}''" | "c \<in> set (py_join '', '' (map dumps_member kvs))"
    by (auto simp: json_dumps_obj simp del: json_dumps.simps)
  then show ?case
  proof cases
    case 3
    then show ?thesis
    proof (rule printable_join)
      fix w
      assume "w \<in> set (map dumps_member kvs)" and c: "c \<in> set w"
      then obtain kv where kv: "kv \<in> set kvs" "w = dumps_member kv" by auto
      from c kv(2) consider "c \<in> set (dumps_str (fst kv))" | "c \<in> set '': ''" | "c \<in> set (json_dumps (snd kv))"
        by (auto simp: dumps_member_def)
      then show "printable c"
      proof cases
        case 1
        then show ?thesis by (rule printable_str)
      next
        case 2
        then show ?thesis by (auto simp: printable_def)
      next
        case 3
        have "snd kv \<in> Basic_BNFs.snds kv" by (cases kv) simp
        with 3 kv(1) JObj show ?thesis by (auto simp: list_all_iff)
      qed
    qed
  qed (simp_all add: printable_def)
qed (auto simp: printable_def split: if_splits)

section \<open>The payload\<close>

lemma map_of_extras:
  "map_of (fold add_extra kvs p) k =
     (if is_extra k then (case map_of (rev kvs) k of None \<Rightarrow> map_of p k | Some v \<Rightarrow> Some v) else map_of p k)"
  by (induction kvs arbitrary: p) (auto simp: add_extra_def map_of_dict_set map_add_def split: option.splits)

lemma plain_extras:
  "json_plain (JObj p) \<Longrightarrow> list_all (\<lambda>kv. json_plain (snd kv)) kvs \<Longrightarrow> json_plain (JObj (fold add_extra kvs p))"
  by (induction kvs arbitrary: p) (auto simp: add_extra_def distinct_dict_set plain_dict_set)

lemma plain_payload:
  assumes "list_all (\<lambda>kv. json_plain (snd kv)) (lr_dict r)"
  shows "json_plain (JObj (log_payload service ctx r))"
proof -
  have "json_plain (JObj (fold add_extra (lr_dict r) (base_payload service ctx r)))"
    by (rule plain_extras) (use assms in \<open>simp_all add: base_payload_def\<close>)
  then show ?thesis
    by (auto simp: log_payload_def Let_def distinct_dict_set plain_dict_set split: option.splits)
qed

lemma map_of_rev_distinct: "distinct (map fst kvs) \<Longrightarrow> map_of (rev kvs) = map_of kvs"
proof (induction kvs)
  case (Cons kv kvs)
  then have "map_of kvs (fst kv) = None" by (simp add: map_of_eq_None_iff)
  with Cons show ?case by (cases kv) (auto simp: fun_eq_iff map_add_def split: option.splits)
qed simp

lemma exc_info_reserved:
  "\<not> is_extra ''exc_info''" "map_of (base_payload service ctx r) ''exc_info'' = None"
  by (simp_all add: is_extra_def reserved_def base_payload_def)

section \<open>The properties of logging\<close>



text \<open>Configuring is idempotent: one handler, whatever was installed.\<close>

lemma remove_all: "fold remove1 xs xs = []"
proof -
  have "fold remove1 xs (xs @ ys) = ys" for ys by (induction xs) simp_all
  from this [of "[]"] show ?thesis by simp
qed

lemma configure_once:
  "rl_handlers (configure_logging service level logger) = [StdoutHandler service]"
  "configure_logging service level (configure_logging service level logger) = configure_logging service level logger"
  by (simp_all add: configure_logging_def remove_all)

end
