(* ===== verification/Placement.thy ===== *)
theory Placement
  imports Delivery
begin

text \<open>
  What the placement cache is for: the executor of \<open>commands/executor.py\<close> records where a container was
  placed, and the status reports of \<open>local_api/service.py\<close> carry that placement to Cloud, whatever messages
  the agent receives in between.
\<close>

section \<open>The cache between two messages\<close>

lemma cache_after_other: "k \<noteq> container_id cmd \<Longrightarrow> cache_get k (cache_after cmd c) = cache_get k c"
  by (simp add: cache_after_def Let_def pc.get_put pc.get_del)

lemma cache_after_placed:
  assumes "operation cmd \<in> {COMMAND_OPERATION_CREATE, COMMAND_OPERATION_RESUME}" and "container_id cmd \<noteq> []"
  shows "cache_get (container_id cmd) (cache_after cmd c) = Some (device_id cmd, placement_generation cmd)"
  using assms by (auto simp: cache_after_def placing_operations_def pc.get_put)

lemma execute_cache:
  assumes "execute E H (report_result E dev) cid cmd a = Some (r, a')"
  shows "\<exists>x. ag_cache a' = cache_result cmd x (ag_cache a)"
proof (cases "H (operation cmd)")
  case None
  with assms main_reporter.finish_cache have "ag_cache a' = ag_cache a" by (auto simp: execute_def)
  then show ?thesis by (intro exI [of _ "Inl CancelledError"]) (simp add: cache_result_def)
next
  case (Some h)
  from assms Some show ?thesis
  proof (cases rule: execute_start)
    case (refused e us j)
    then show ?thesis by (intro exI [of _ "Inl CancelledError"]) (simp add: cache_result_def)
  next
    case (started us j now b)
    have "known cid b" using running_row [OF started(2,3)] by blast
    with started(4) obtain x t where "h cmd (ag_trace b) = Some (x, t)"
      by (cases rule: main_reporter.handling_outcome) auto
    from main_reporter.handling_follows(2) [where h = h, OF started(4) this] started(3) show ?thesis by auto
  qed
qed

text \<open>A message about other containers leaves the entry of a container alone.\<close>

definition about_others :: "string \<Rightarrow> cloud_message \<Rightarrow> bool" where
  "about_others k msg \<longleftrightarrow> (case msg of ExecuteCommandMsg cmd \<Rightarrow> container_id cmd \<noteq> k | _ \<Rightarrow> True)"

lemma receive_cache:
  assumes run: "receive E C dev msg a = Some (r, a')" and "about_others k msg" and c: "ag_cache a = Some c"
  shows "\<exists>c'. ag_cache a' = Some c' \<and> cache_get k c' = cache_get k c"
proof (cases msg)
  case (HelloAccepted gen reconcile)
  from run [unfolded HelloAccepted receive_def] c show ?thesis by (cases rule: hello_accepted_cases) simp_all
next
  case (ExecuteCommandMsg cmd)
  from run [unfolded ExecuteCommandMsg] show ?thesis
  proof (cases rule: receive_command_cases)
    case run
    from execute_cache [OF run(2)] obtain x where "ag_cache a' = cache_result cmd x (Some c)"
      using c by (auto simp: accepting_agent_def Let_def)
    moreover have "k \<noteq> container_id cmd" using assms(2) ExecuteCommandMsg by (simp add: about_others_def)
    ultimately show ?thesis
      using cache_after_other by (auto simp: cache_result_def split: sum.splits prod.splits)
  qed (use c in simp_all)
qed (use run c in \<open>auto simp: receive_def send_run\<close>)

text \<open>Receiving one message after the other.\<close>

inductive receives :: "env \<Rightarrow> config \<Rightarrow> string \<Rightarrow> cloud_message list \<Rightarrow> agent \<Rightarrow> agent \<Rightarrow> bool" for E C dev where
  no_more: "receives E C dev [] a a"
| one_more: "receive E C dev msg a = Some (r, b) \<Longrightarrow> receives E C dev msgs b a' \<Longrightarrow>
    receives E C dev (msg # msgs) a a'"

lemma receives_cache:
  assumes "receives E C dev msgs a a'" and "list_all (about_others k) msgs" and "ag_cache a = Some c"
  shows "\<exists>c'. ag_cache a' = Some c' \<and> cache_get k c' = cache_get k c"
  using assms
proof (induction arbitrary: c rule: receives.induct)
  case (one_more msg a r b msgs a')
  then obtain c1 where "ag_cache b = Some c1" "cache_get k c1 = cache_get k c"
    using receive_cache [OF one_more.hyps(1), of k] by auto
  with one_more.IH [of c1] one_more.prems(1) show ?case by auto
qed simp

section \<open>The property of placement\<close>

text \<open>
  C17: Cloud hears the generation a container was placed under. After a create or resume, not finished before, whose row is
  \<open>succeeded\<close>, and any messages that are not commands for the same container, the first status report of the
  local API for the container is acknowledged and queues an event that decodes to an object with the
  container and the placement generation of that command, whatever generation the caller gave.
\<close>

theorem placed_generation_reported:
  assumes "execute E (main_handlers E C dev) (report_result E dev) cid cmd a = Some (r, a1)"
    and "operation cmd \<in> {COMMAND_OPERATION_CREATE, COMMAND_OPERATION_RESUME}" and "container_id cmd \<noteq> []"
    and "\<not> has_terminal_result cid (ag_journal a)" and "get_entry cid (ag_journal a1) = Some q" and "je_status q = Succeeded" and "ag_cache a = Some c"
    and "receives E C dev msgs a1 a2" and "list_all (about_others (container_id cmd)) msgs"
    and "sr_container_id report = container_id cmd"
  shows "\<exists>text kvs. ReportContainerStatus report a2 =
       Some (Inr True, a2\<lparr>ag_outbound := map_option (\<lambda>q. q @ [LocalEventMsg ''container_status_report'' text]) (ag_outbound a2)\<rparr>) \<and>
     json_loads text = Inr (JObj kvs) \<and> map_of kvs ''container_id'' = Some (JStr (container_id cmd)) \<and>
     map_of kvs ''placement_generation'' = Some (JInt (placement_generation cmd))"
proof -
  obtain h where h: "main_handlers E C dev (operation cmd) = Some h" using assms(2) by auto
  from assms(1) h assms(4-6) have "ag_cache a1 = Some (cache_after cmd c)"
    by (rule succeeded_row) (simp add: assms(7))
  from receives_cache [OF assms(8,9) this] obtain c2 where
    c2: "ag_cache a2 = Some c2" "cache_get (container_id cmd) c2 = Some (device_id cmd, placement_generation cmd)"
    using cache_after_placed [OF assms(2,3)] by auto
  let ?v = "status_payload (placement_generation cmd) report"
  have "generation_of_report (ag_cache a2) report = placement_generation cmd"
    using c2 assms(10) by (simp add: generation_of_report_def)
  then have "ReportContainerStatus report a2 = Some (Inr True, a2\<lparr>ag_outbound :=
      map_option (\<lambda>q. q @ [LocalEventMsg ''container_status_report'' (json_dumps ?v)]) (ag_outbound a2)\<rparr>)"
    by (simp add: ReportContainerStatus_def send_local_event_def andThen_def send_run del: json_dumps.simps)
  moreover have "json_loads (json_dumps ?v) = Inr ?v"
    by (rule json_loads_dumps) (simp add: status_payload_def or_none_def)
  ultimately show ?thesis using assms(10) by (intro exI [of _ "json_dumps ?v"]) (simp add: status_payload_def)
qed

lemma demo_execute_create:
  "\<exists>r a1 q. execute (demo_env JNull) (main_handlers (demo_env JNull) default_config ''dev-1'')
       (report_result (demo_env JNull) ''dev-1'') ''cmd-1''
       (demo_command COMMAND_OPERATION_CREATE demo_create_config) demo_agent = Some (r, a1) \<and>
     get_entry ''cmd-1'' (ag_journal a1) = Some q \<and> je_status q = Succeeded"
proof -
  let ?cmd = "demo_command COMMAND_OPERATION_CREATE demo_create_config"
  have "\<exists>req x v. create_handler (demo_env JNull) ?cmd t =
      Some (Inr (done_with v), t @ [CreateCall req ''req-1'' x])" for t
    using demo_create_from [OF demo_create_args(1), of "''req-1''" t]
    by (simp add: create_handler_def demo_create_complete done_with_def)
  then obtain req x v where run: "\<And>t. create_handler (demo_env JNull) ?cmd t =
      Some (Inr (done_with (v t)), t @ [CreateCall (req t) ''req-1'' (x t)])"
    by metis
  show ?thesis
    by (simp add: execute_def accept_if_new_def read_journal_works demo_agent_def has_seen_def andThen_def write_journal_works
        tryExcept_def on_trace_run run conclude_def done_with_def update_placement_cache_def finish_command_works
        report_result_def record_accepted_def get_entry_def record_running_def record_result_def
        mark_reported_def update_where_def accepted_row_def set_status_def set_result_def set_reported_def
        del: json_dumps.simps)
qed

theorem placed_generation_reported_witness:
  "\<exists>r a1 a2 q text kvs. execute (demo_env JNull) (main_handlers (demo_env JNull) default_config ''dev-1'')
       (report_result (demo_env JNull) ''dev-1'') ''cmd-1''
       (demo_command COMMAND_OPERATION_CREATE demo_create_config) demo_agent = Some (r, a1) \<and>
     receives (demo_env JNull) default_config ''dev-1'' [HelloAccepted 1 False] a1 a2 \<and>
     ReportContainerStatus \<lparr>sr_container_id = ''c-1'', sr_placement_generation = 0,
       sr_observed_status = ''Running'', sr_kubernetes_id = []\<rparr> a2 = Some (Inr True, q) \<and>
     json_loads text = Inr (JObj kvs) \<and> map_of kvs ''placement_generation'' = Some (JInt 3)"
proof -
  obtain r a1 q where run: "execute (demo_env JNull) (main_handlers (demo_env JNull) default_config ''dev-1'')
       (report_result (demo_env JNull) ''dev-1'') ''cmd-1''
       (demo_command COMMAND_OPERATION_CREATE demo_create_config) demo_agent = Some (r, a1)"
    and row: "get_entry ''cmd-1'' (ag_journal a1) = Some q" "je_status q = Succeeded"
    using demo_execute_create by blast
  have "\<exists>b. mark_all (demo_env JNull) (ag_pending a1) a1 = Some (Inr (), b)" by (simp add: mark_all_works)
  then have "\<exists>r a2. receive (demo_env JNull) default_config ''dev-1'' (HelloAccepted 1 False) a1 = Some (r, a2)"
    by (auto simp: receive_def andThen_def)
  then obtain a2 where later: "receives (demo_env JNull) default_config ''dev-1'' [HelloAccepted 1 False] a1 a2"
    by (blast intro: receives.intros)
  from placed_generation_reported [OF run _ _ _ row _ later, of cache_empty "\<lparr>sr_container_id = ''c-1'',
      sr_placement_generation = 0, sr_observed_status = ''Running'', sr_kubernetes_id = []\<rparr>"]
  have "\<exists>text kvs a3. ReportContainerStatus \<lparr>sr_container_id = ''c-1'', sr_placement_generation = 0,
       sr_observed_status = ''Running'', sr_kubernetes_id = []\<rparr> a2 = Some (Inr True, a3) \<and>
     json_loads text = Inr (JObj kvs) \<and> map_of kvs ''placement_generation'' = Some (JInt 3)"
    by (auto simp: demo_agent_def about_others_def has_terminal_result_def)
  with run later show ?thesis by blast
qed

end
