(* ===== verification/Stream_Progress.thy ===== *)
theory Stream_Progress
  imports Stream_Steps
begin

text \<open>
  What a connection that stays up delivers. A run is an infinite sequence of the steps of \<open>Stream_Steps\<close> in
  which the generator never raises, and it is fair when the event loop resumes the generator \<open>outbound_gen\<close> whenever that can go on: then the results it
  read from the journal, and every message put on \<open>self._outbound\<close>, get onto the wire.
\<close>

section \<open>Progress along an infinite run\<close>

text \<open>A goal is reached when an action that keeps happening before it decreases a measure nothing increases.\<close>

lemma fair_reaches:
  fixes m :: "nat \<Rightarrow> nat"
  assumes act: "\<And>i. k \<le> i \<Longrightarrow> \<not> goal i \<Longrightarrow> \<exists>j \<ge> i. act j"
    and stays: "\<And>i. k \<le> i \<Longrightarrow> \<not> goal i \<Longrightarrow> m (Suc i) \<le> m i"
    and less: "\<And>i. k \<le> i \<Longrightarrow> \<not> goal i \<Longrightarrow> act i \<Longrightarrow> m (Suc i) < m i"
  shows "\<exists>n \<ge> k. goal n"
proof (rule ccontr)
  assume never: "\<not> (\<exists>n \<ge> k. goal n)"
  have mono: "m j \<le> m i" if "k \<le> i" "i \<le> j" for i j
    using that(2)
  proof (induction rule: dec_induct)
    case (step n)
    then have "k \<le> n" using that(1) by simp
    with never stays have "m (Suc n) \<le> m n" by blast
    with step.IH show ?case by simp
  qed simp
  have "False" if "k \<le> i" for i
    using that
  proof (induction "m i" arbitrary: i rule: less_induct)
    case less
    with act never obtain j where j: "i \<le> j" "act j" by blast
    then have "k \<le> j" using less.prems by simp
    with never assms(3) j(2) have "m (Suc j) < m j" by blast
    with mono [OF less.prems j(1)] have "m (Suc j) < m i" by simp
    moreover have "k \<le> Suc j" using less.prems j(1) by simp
    ultimately show ?case by (rule less.hyps)
  qed
  then show False by blast
qed

text \<open>A connection of the agent \<open>a\<close> that stays up, and its fairness to the generator.\<close>

definition infinite_run :: "env \<Rightarrow> config \<Rightarrow> manager \<Rightarrow> agent \<Rightarrow> (nat \<Rightarrow> stream) \<Rightarrow> bool" where
  "infinite_run E C mg a f \<longleftrightarrow> f 0 = new_stream a \<and>
     (\<forall>i. stream_step E C mg (f i) (f (Suc i)) \<and> st_gen (f i) \<noteq> Broken)"

definition fair_run :: "env \<Rightarrow> config \<Rightarrow> manager \<Rightarrow> (nat \<Rightarrow> stream) \<Rightarrow> bool" where
  "fair_run E C mg f \<longleftrightarrow> (\<forall>i. (\<exists>s'. generator_step E C mg (f i) s') \<longrightarrow> (\<exists>j \<ge> i. generator_step E C mg (f j) (f (Suc j))))"

section \<open>The steps around the generator\<close>

text \<open>Everything else leaves the generator and the wire alone, and only appends to the queue.\<close>

lemma queue_same: "\<exists>ms. x = map_option (\<lambda>q. q @ ms) x"
  by (rule exI [of _ "[]"]) (cases x, simp_all)

lemma inbound_queue:
  assumes "handle_inbound E callback msg a = Some (Inr (), a')" and "\<not> is_execute msg"
  shows "\<exists>ms. ag_outbound a' = map_option (\<lambda>q. q @ ms) (ag_outbound a)"
proof (cases msg)
  case (HelloAccepted gen reconcile)
  from assms(1) show ?thesis unfolding HelloAccepted by (cases rule: hello_accepted_cases) (auto intro: queue_same)
qed (use assms in \<open>auto simp: send_run intro: queue_same\<close>)

lemma heartbeat_queue:
  "heartbeat E a = Some (Inr (), a') \<Longrightarrow> \<exists>ms. ag_outbound a' = map_option (\<lambda>q. q @ ms) (ag_outbound a)"
  by (auto simp: heartbeat_def andThen_def on_trace_run read_unix_ms_def send_run Let_def)

lemma others_step:
  assumes "stream_step E C mg s s'" and "\<not> generator_step E C mg s s'" and "ag_outbound (st_agent s) = Some q"
  shows "st_gen s' = st_gen s" and "st_wire s' = st_wire s" and "\<exists>ms. ag_outbound (st_agent s') = Some (q @ ms)"
proof -
  have *: "st_gen s' = st_gen s \<and> st_wire s' = st_wire s \<and>
      (\<exists>ms. ag_outbound (st_agent s') = map_option (\<lambda>q. q @ ms) (ag_outbound (st_agent s)))"
    using assms(1)
  proof (cases rule: stream_step.cases)
    case outbound
    with assms(2) show ?thesis by simp
  next
    case (inbound msg callback a)
    with inbound_queue [OF inbound(3,2)] show ?thesis by simp
  next
    case (heartbeats a)
    with heartbeat_queue [OF heartbeats(2)] show ?thesis by simp
  next
    case (other_send m a)
    then show ?thesis by (auto simp: send_run)
  next
    case (other_write w)
    with assms(3) show ?thesis by simp
  qed
  then show "st_gen s' = st_gen s" "st_wire s' = st_wire s"
    "\<exists>ms. ag_outbound (st_agent s') = Some (q @ ms)" using assms(3) by auto
qed

text \<open>What is still to be sent once the batch has been read: the rest of it, then the queue.\<close>

fun unsent :: "gen_state \<Rightarrow> device_message list" where
  "unsent (Resending ms) = ms"
| "unsent _ = []"

fun sending :: "gen_state \<Rightarrow> bool" where
  "sending (Resending _) = True"
| "sending Serving = True"
| "sending _ = False"

text \<open>The steps left for a list of messages to get out, of which the wire has the first.\<close>

definition steps_left :: "device_message list \<Rightarrow> stream \<Rightarrow> nat" where
  "steps_left ms s = (length ms - length (st_wire s)) + (case st_gen s of Serving \<Rightarrow> 0 | _ \<Rightarrow> 1)"

lemma generator_sending:
  assumes "generator_step E C mg s s'" and "sending (st_gen s)" and "ag_outbound (st_agent s) = Some q"
  shows "sending (st_gen s')"
    and "\<exists>q'. ag_outbound (st_agent s') = Some q' \<and> st_wire s' @ unsent (st_gen s') @ q' = st_wire s @ unsent (st_gen s) @ q"
    and "length (st_wire s) < length ms \<Longrightarrow> steps_left ms s' < steps_left ms s"
  using assms by (auto elim!: generator_step.cases simp: steps_left_def split: gen_state.splits)

lemma generator_enabled:
  assumes "st_gen s \<noteq> Serving \<or> (\<exists>m q. ag_outbound (st_agent s) = Some (m # q))" and "st_gen s \<noteq> Broken"
  shows "\<exists>s'. generator_step E C mg s s'"
proof (cases "st_gen s")
  case HelloSent
  let ?rs = "unreported_terminal_entries (ag_journal (st_agent s))"
  have "messages_for_entries ?rs = Inr (batch ?rs)" by (simp add: messages_batch)
  with HelloSent show ?thesis
    using cannot_read [OF HelloSent] read_some [OF HelloSent _ refl] read_nothing [OF HelloSent _ refl]
    by (cases "disk_error E (ag_trace (st_agent s))"; cases "batch ?rs") fastforce+
next
  case (Resending ms)
  then show ?thesis using yield_resend resends_done by (cases ms) blast+
qed (use assms yield_hello yield_queued in blast)+

section \<open>Progress of a connection\<close>

lemma run_queue: "infinite_run E C mg a f \<Longrightarrow> \<exists>q. ag_outbound (st_agent (f i)) = Some q"
proof (induction i)
  case 0
  then show ?case by (simp add: infinite_run_def new_stream_def)
next
  case (Suc i)
  then obtain q where q: "ag_outbound (st_agent (f i)) = Some q" and st: "stream_step E C mg (f i) (f (Suc i))"
    by (auto simp: infinite_run_def)
  show ?case
  proof (cases "generator_step E C mg (f i) (f (Suc i))")
    case True
    then show ?thesis using q by cases auto
  next
    case False
    from others_step(3) [OF st False q] show ?thesis by blast
  qed
qed

text \<open>The next step of the generator, with nothing but longer queues before it.\<close>

lemma next_generator_step:
  assumes run: "infinite_run E C mg a f" and fair: "fair_run E C mg f"
    and q: "ag_outbound (st_agent (f i)) = Some q" and "st_gen (f i) \<noteq> Serving"
  obtains j ms where "i \<le> j" and "generator_step E C mg (f j) (f (Suc j))" and "st_gen (f j) = st_gen (f i)"
    and "st_wire (f j) = st_wire (f i)" and "ag_outbound (st_agent (f j)) = Some (q @ ms)"
proof -
  let ?act = "\<lambda>j. i \<le> j \<and> generator_step E C mg (f j) (f (Suc j))"
  have "\<exists>s'. generator_step E C mg (f i) s'" using assms(4) run generator_enabled by (auto simp: infinite_run_def)
  with fair obtain j where "?act j" by (auto simp: fair_run_def)
  then have first: "?act (Least ?act)" by (rule LeastI)
  have same: "st_gen (f n) = st_gen (f i) \<and> st_wire (f n) = st_wire (f i) \<and>
      (\<exists>ms. ag_outbound (st_agent (f n)) = Some (q @ ms))" if "i \<le> n" "n \<le> Least ?act" for n
    using that
  proof (induction n rule: dec_induct)
    case (step n)
    then obtain ms where n: "ag_outbound (st_agent (f n)) = Some (q @ ms)" "st_gen (f n) = st_gen (f i)"
      "st_wire (f n) = st_wire (f i)" by auto
    have "n < Least ?act" using step.prems by simp
    then have "\<not> ?act n" by (rule not_less_Least)
    with step.hyps(1) have "\<not> generator_step E C mg (f n) (f (Suc n))" by blast
    from others_step [OF _ this n(1)] run n(2,3) show ?case by (fastforce simp: infinite_run_def)
  qed (simp add: q)
  from same [OF _ order_refl] first that show thesis by blast
qed

text \<open>Once the batch is read, all that is to be sent then gets out.\<close>

lemma sending_gets_out:
  assumes run: "infinite_run E C mg a f" and fair: "fair_run E C mg f"
    and q: "ag_outbound (st_agent (f i)) = Some q" and "sending (st_gen (f i))"
  shows "\<exists>n. prefix (st_wire (f i) @ unsent (st_gen (f i)) @ q) (st_wire (f n))"
proof -
  let ?T = "st_wire (f i) @ unsent (st_gen (f i)) @ q"
  let ?goal = "\<lambda>n. length ?T \<le> length (st_wire (f n))"
  have st: "stream_step E C mg (f n) (f (Suc n))" and up: "st_gen (f n) \<noteq> Broken" for n
    using run by (simp_all add: infinite_run_def)
  have line: "sending (st_gen (f n)) \<and> (\<exists>q'. ag_outbound (st_agent (f n)) = Some q' \<and>
      prefix ?T (st_wire (f n) @ unsent (st_gen (f n)) @ q'))" if "i \<le> n" for n
    using that
  proof (induction n rule: dec_induct)
    case (step n)
    then obtain q' where q': "ag_outbound (st_agent (f n)) = Some q'" and s: "sending (st_gen (f n))"
      and p: "prefix ?T (st_wire (f n) @ unsent (st_gen (f n)) @ q')" by blast
    show ?case
    proof (cases "generator_step E C mg (f n) (f (Suc n))")
      case True
      from generator_sending(1,2) [OF True s q'] p show ?thesis by force
    next
      case False
      from others_step [OF st False q'] s p show ?thesis
        using prefix_prefix [of ?T "st_wire (f n) @ unsent (st_gen (f n)) @ q'"] by fastforce
    qed
  qed (simp add: q assms(4))
  have "\<exists>n \<ge> i. ?goal n"
  proof (rule fair_reaches [where m = "\<lambda>n. steps_left ?T (f n)" and act = "\<lambda>n. generator_step E C mg (f n) (f (Suc n))"])
    fix n
    assume n: "i \<le> n" and open_: "\<not> ?goal n"
    obtain q' where q': "ag_outbound (st_agent (f n)) = Some q'" and s: "sending (st_gen (f n))"
      and p: "prefix ?T (st_wire (f n) @ unsent (st_gen (f n)) @ q')" using line [OF n] by blast
    have "st_gen (f n) \<noteq> Serving \<or> (\<exists>m q. ag_outbound (st_agent (f n)) = Some (m # q))"
      using prefix_length_le [OF p] open_ q' by (cases q') auto
    with fair show "\<exists>j \<ge> n. generator_step E C mg (f j) (f (Suc j))"
      using generator_enabled [OF _ up] by (auto simp: fair_run_def)
    show less: "steps_left ?T (f (Suc n)) < steps_left ?T (f n)" if "generator_step E C mg (f n) (f (Suc n))"
      using generator_sending(3) [OF that s q'] open_ by simp
    show "steps_left ?T (f (Suc n)) \<le> steps_left ?T (f n)"
      using less others_step(1,2) [OF st _ q'] by (cases "generator_step E C mg (f n) (f (Suc n))") (simp_all add: steps_left_def)
  qed
  then obtain n where n: "i \<le> n" "?goal n" by blast
  from line [OF n(1)] obtain q' where "prefix ?T (st_wire (f n) @ unsent (st_gen (f n)) @ q')" by blast
  then have "prefix ?T (st_wire (f n))" using n(2) prefix_length_prefix by (metis prefixI)
  then show ?thesis by blast
qed

text \<open>The moment the generator reads the journal; queues only grow until then.\<close>

lemma reads_journal:
  assumes run: "infinite_run E C mg a f" and fair: "fair_run E C mg f"
    and q: "ag_outbound (st_agent (f i)) = Some q" and "\<not> sending (st_gen (f i))"
  obtains j ms where "i \<le> j" and "generator_step E C mg (f j) (f (Suc j))"
    and "st_gen (f j) = HelloSent" and "sending (st_gen (f (Suc j)))"
    and "ag_outbound (st_agent (f (Suc j))) = Some (q @ ms)"
    and "st_wire (f (Suc j)) @ unsent (st_gen (f (Suc j))) =
      st_wire (f j) @ map entry_message (unreported_terminal_entries (ag_journal (st_agent (f j))))"
proof -
  have "\<exists>k \<ge> i. st_gen (f k) = HelloSent \<and> (\<exists>ms. ag_outbound (st_agent (f k)) = Some (q @ ms))"
  proof (cases "st_gen (f i)")
    case NotStarted
    then have "st_gen (f i) \<noteq> Serving" by simp
    from next_generator_step [OF run fair q this] obtain j ms where j: "i \<le> j"
      "generator_step E C mg (f j) (f (Suc j))" "st_gen (f j) = NotStarted"
      "ag_outbound (st_agent (f j)) = Some (q @ ms)" using NotStarted by metis
    from j(2) have "st_gen (f (Suc j)) = HelloSent \<and> ag_outbound (st_agent (f (Suc j))) = Some (q @ ms)"
      by cases (use j in auto)
    with j(1) show ?thesis by (intro exI [of _ "Suc j"]) auto
  qed (use assms(3,4) run in \<open>auto simp: infinite_run_def intro: exI [of _ "[]"]\<close>)
  then obtain k ms where k: "i \<le> k" "st_gen (f k) = HelloSent" "ag_outbound (st_agent (f k)) = Some (q @ ms)" by blast
  then have "st_gen (f k) \<noteq> Serving" by simp
  from next_generator_step [OF run fair k(3) this] obtain j ms' where j: "k \<le> j"
    "generator_step E C mg (f j) (f (Suc j))" "st_gen (f j) = HelloSent"
    "ag_outbound (st_agent (f j)) = Some (q @ ms @ ms')" using k(2) by (metis append_assoc)
  from j(2) have "sending (st_gen (f (Suc j))) \<and> ag_outbound (st_agent (f (Suc j))) = Some (q @ ms @ ms') \<and>
      st_wire (f (Suc j)) @ unsent (st_gen (f (Suc j))) =
        st_wire (f j) @ map entry_message (unreported_terminal_entries (ag_journal (st_agent (f j))))"
  proof cases
    case (read_some rs m ms)
    then have "m # ms = batch rs" by (simp add: messages_batch)
    with read_some j show ?thesis by (simp add: batch_def)
  next
    case (read_nothing rs)
    then have "batch rs = []" using messages_batch by metis
    with read_nothing j show ?thesis by (simp add: batch_def)
  next
    case cannot_read
    with run show ?thesis by (metis infinite_run_def stream.select_convs(2) stream.surjective stream.update_convs(2))
  qed (use j in auto)
  with that [of j "ms @ ms'"] k(1) j show thesis by simp
qed

lemma run_connection: "infinite_run E C mg a f \<Longrightarrow> connection_run E C mg a (f i)"
proof (induction i)
  case 0
  then show ?case by (simp add: infinite_run_def opened)
next
  case (Suc i)
  then show ?case using connection_run.step by (fastforce simp: infinite_run_def)
qed

text \<open>
  C16: Every owed result is resent and every queued message goes out. On a connection that stays up, with any
  interleaving that keeps resuming the generator, there is a moment when the generator reads the journal, and all
  results then unreported get onto the wire, right after the Hello and in journal order; and whatever
  stands in \<open>self._outbound\<close> at any moment, also before that, gets onto the wire in its order.
\<close>

theorem everything_goes_out:
  assumes "infinite_run E C mg a f" and "fair_run E C mg f"
  shows "(\<exists>i n. generator_step E C mg (f i) (f (Suc i)) \<and> st_gen (f i) = HelloSent \<and>
       prefix (build_hello C mg # map entry_message (unreported_terminal_entries (ag_journal (st_agent (f i)))))
         (st_wire (f n))) \<and>
     (\<forall>i q. ag_outbound (st_agent (f i)) = Some q \<longrightarrow> (\<exists>n. sublist q (st_wire (f n))))"
proof (intro conjI allI impI)
  have "ag_outbound (st_agent (f 0)) = Some []" "\<not> sending (st_gen (f 0))"
    using assms(1) by (simp_all add: infinite_run_def new_stream_def)
  from reads_journal [OF assms this] obtain i q where i: "generator_step E C mg (f i) (f (Suc i))" "st_gen (f i) = HelloSent"
    "sending (st_gen (f (Suc i)))" "ag_outbound (st_agent (f (Suc i))) = Some q"
    "st_wire (f (Suc i)) @ unsent (st_gen (f (Suc i))) =
      st_wire (f i) @ map entry_message (unreported_terminal_entries (ag_journal (st_agent (f i))))" by metis
  have "st_wire (f i) = [build_hello C mg]"
    using stream_ok_run [OF run_connection [OF assms(1), of i]] i(2) by (simp add: stream_ok_def)
  with sending_gets_out [OF assms i(4,3)] i(5) have "\<exists>n. prefix (build_hello C mg #
      map entry_message (unreported_terminal_entries (ag_journal (st_agent (f i)))) @ q) (st_wire (f n))"
    by (metis append.assoc append_Cons append_Nil)
  then show "\<exists>i n. generator_step E C mg (f i) (f (Suc i)) \<and> st_gen (f i) = HelloSent \<and>
     prefix (build_hello C mg # map entry_message (unreported_terminal_entries (ag_journal (st_agent (f i))))) (st_wire (f n))"
    using i(1,2) append_prefixD by (metis append_Cons)
next
  fix i q
  assume q: "ag_outbound (st_agent (f i)) = Some q"
  obtain k ms where "sending (st_gen (f k))" "ag_outbound (st_agent (f k)) = Some (q @ ms)"
  proof (cases "sending (st_gen (f i))")
    case True
    with q that [of i "[]"] show thesis by simp
  next
    case False
    with reads_journal [OF assms q] that show thesis by metis
  qed
  with sending_gets_out [OF assms] obtain n where "prefix ((st_wire (f k) @ unsent (st_gen (f k))) @ q @ ms) (st_wire (f n))"
    by (metis append.assoc)
  then show "\<exists>n. sublist q (st_wire (f n))" unfolding prefix_def by (metis append.assoc sublist_appendI)
qed

text \<open>A run: two results are resent, then a ping is answered, then nothing happens.\<close>

definition demo_streams :: "journal_row \<Rightarrow> journal_row \<Rightarrow> nat \<Rightarrow> stream" where
  "demo_streams q r i = (let a = demo_finished_agent; s = after_read default_config demo_manager a q [r];
       t = s\<lparr>st_gen := Resending [], st_wire := st_wire s @ [entry_message r]\<rparr>;
       u = t\<lparr>st_gen := Serving, st_agent := (st_agent s)\<lparr>ag_outbound := Some [PongMsg 7]\<rparr>\<rparr> in
     if i = 0 then new_stream a
     else if i = 1 then after_hello default_config demo_manager a
     else if i = 2 then s
     else if i = 3 then t
     else if i = 4 then t\<lparr>st_gen := Serving\<rparr>
     else if i = 5 then u
     else u\<lparr>st_agent := (st_agent u)\<lparr>ag_outbound := Some []\<rparr>, st_wire := st_wire u @ [PongMsg 7]\<rparr>)"

lemma after_read_sel:
  "st_gen (after_read C mg a q rest) = Resending (map entry_message rest)"
  "ag_outbound (st_agent (after_read C mg a q rest)) = Some []"
  by (simp_all add: after_read_def)

text \<open>A message the agent has no case for is a step that changes nothing.\<close>

lemma idle_step: "stream_step E C mg s s"
  using inbound [of "UnhandledPayload []" E "\<lambda>_ _. ret ()" s "st_agent s"] by simp

lemma demo_streams_run:
  assumes "unreported_terminal_entries (ag_journal demo_finished_agent) = [q, r]" and "disk_works E"
  shows "infinite_run E default_config demo_manager demo_finished_agent (demo_streams q r)"
proof -
  note defs = demo_streams_def Let_def
  have step: "stream_step E default_config demo_manager (demo_streams q r i) (demo_streams q r (Suc i))" for i
  proof (cases "i < 6")
    case True
    then consider "i = 0" | "i = 1" | "i = 2" | "i = 3" | "i = 4" | "i = 5" by linarith
    then show ?thesis
    proof cases
      case 1
      then show ?thesis using after_hello_step by (simp add: defs)
    next
      case 2
      then show ?thesis using after_read_step [OF assms] by (simp add: defs)
    next
      case 3
      have "stream_step E default_config demo_manager (demo_streams q r 2) (demo_streams q r 3)"
        by (intro outbound) (simp add: defs after_read_sel generator_step.yield_resend)
      with 3 show ?thesis by (simp add: eval_nat_numeral)
    next
      case 4
      have "generator_step E default_config demo_manager (demo_streams q r 3) (demo_streams q r 4)"
        using resends_done [of "demo_streams q r 3"] by (simp add: defs)
      with 4 show ?thesis using outbound by (simp add: eval_nat_numeral)
    next
      case 5
      have "handle_inbound E (\<lambda>_ _. ret ()) (Ping 7) (st_agent (demo_streams q r 4)) =
          Some (Inr (), st_agent (demo_streams q r 5))"
        by (simp add: defs send_run after_read_sel)
      from inbound [OF _ this, of default_config demo_manager] 5 show ?thesis by (simp add: defs)
    next
      case 6
      have "generator_step E default_config demo_manager (demo_streams q r 5) (demo_streams q r 6)"
        using yield_queued [of "demo_streams q r 5" "PongMsg 7" "[]"] by (simp add: defs after_read_sel)
      with 6 show ?thesis using outbound by (simp add: eval_nat_numeral)
    qed
  next
    case False
    have same: "demo_streams q r n = demo_streams q r 6" if "6 \<le> n" for n using that by (simp add: defs)
    from False same [of i] same [of "Suc i"] idle_step show ?thesis by simp
  qed
  have "st_gen (demo_streams q r i) \<noteq> Broken" for i by (simp add: defs after_read_def after_hello_def new_stream_def)
  with step show ?thesis by (simp add: infinite_run_def) (simp add: defs)
qed

lemma demo_streams_fair: "fair_run E default_config demo_manager (demo_streams q r)"
proof -
  have "\<exists>j \<ge> i. generator_step E default_config demo_manager (demo_streams q r j) (demo_streams q r (Suc j))"
    if "generator_step E default_config demo_manager (demo_streams q r i) s'" for i s'
  proof -
    have "i \<le> 5" using that by cases (auto simp: demo_streams_def Let_def after_read_sel split: if_splits)
    moreover have "generator_step E default_config demo_manager (demo_streams q r 5) (demo_streams q r (Suc 5))"
      using yield_queued [of "demo_streams q r 5" "PongMsg 7" "[]"] by (simp add: demo_streams_def Let_def after_read_sel)
    ultimately show ?thesis by blast
  qed
  then show ?thesis by (auto simp: fair_run_def)
qed

theorem everything_goes_out_witness:
  "\<exists>f n. infinite_run (demo_env JNull) default_config demo_manager demo_finished_agent f \<and>
     ag_outbound (st_agent (f 5)) = Some [PongMsg 7] \<and> sublist [PongMsg 7] (st_wire (f n))"
proof -
  obtain q r where "unreported_terminal_entries (ag_journal demo_finished_agent) = [q, r]"
    using demo_finished(2) by blast
  note run = demo_streams_run [OF this demo_disk]
  have "ag_outbound (st_agent (demo_streams q r 5)) = Some [PongMsg 7]" by (simp add: demo_streams_def Let_def)
  with everything_goes_out [OF run demo_streams_fair] run show ?thesis by blast
qed

end
