(* ===== verification/Disk_Faults.thy ===== *)
theory Disk_Faults
  imports Wiring
begin

text \<open>
  What one refused write of the journal does to the report of a command: \<open>mark_reported\<close> of \<open>report_result\<close> in
  \<open>main.py\<close> runs inside the \<open>try\<close> block of \<open>execute\<close> in \<open>commands/executor.py\<close>.
\<close>

section \<open>A disk that refuses one write\<close>

text \<open>It refuses what comes right after an answer to the request \<open>q\<close> and the reading of the clock, and nothing else.\<close>

definition refuses_after :: "http_request \<Rightarrow> env \<Rightarrow> bool" where
  "refuses_after q E \<longleftrightarrow> (\<forall>t. disk_error E t \<noteq> None \<longleftrightarrow> (\<exists>t0 x now. t = t0 @ [HttpCall q x, ReadUtc now]))"

definition ends_with_call :: "http_request \<Rightarrow> trace \<Rightarrow> bool" where
  "ends_with_call q t \<longleftrightarrow> (\<exists>t0 x. t = t0 @ [HttpCall q x])"

lemma ends_with_call_simps [simp]:
  "\<not> ends_with_call q []" "ends_with_call q (t @ [e]) \<longleftrightarrow> (\<exists>x. e = HttpCall q x)"
  by (auto simp: ends_with_call_def)

lemma refuses_later: "\<not> ends_with_call q (t @ [e, e', ReadUtc now])"
  using ends_with_call_simps(2) [of q "t @ [e, e']" "ReadUtc now"] by simp

lemma ends_with_call_reads [simp]: "ends_with_call q (t @ map ReadUtc us) \<longleftrightarrow> us = [] \<and> ends_with_call q t"
  by (cases us rule: rev_cases) (simp_all flip: append_assoc)

lemma refuses_only:
  assumes "refuses_after q E"
  shows "disk_error E (t @ [ReadUtc now]) \<noteq> None \<longleftrightarrow> ends_with_call q t"
proof -
  have "t @ [ReadUtc now] = t0 @ [HttpCall q x, ReadUtc now'] \<longleftrightarrow> t = t0 @ [HttpCall q x] \<and> now = now'" for t0 x now'
    using append1_eq_conv [of t "ReadUtc now" "t0 @ [HttpCall q x]" "ReadUtc now'"] by simp
  with assms show ?thesis by (simp add: refuses_after_def ends_with_call_def)
qed

lemma write_refusing:
  assumes "refuses_after q E"
  shows "\<not> ends_with_call q (ag_trace a) \<Longrightarrow> write_journal E f a =
      Some (Inr (), a\<lparr>ag_trace := ag_trace a @ [ReadUtc (utc_now E (ag_trace a))],
        ag_journal := f (utc_now E (ag_trace a)) (ag_journal a)\<rparr>)"
    and "ends_with_call q (ag_trace a) \<Longrightarrow> \<exists>m. write_journal E f a =
      Some (Inl (OtherException m), a\<lparr>ag_trace := ag_trace a @ [ReadUtc (utc_now E (ag_trace a))]\<rparr>)"
  using refuses_only [OF assms, of "ag_trace a" "utc_now E (ag_trace a)"]
  by (auto simp: write_journal_run Let_def)

text \<open>A Cloud that answers 200 to everything.\<close>

definition always_ok :: "env \<Rightarrow> bool" where
  "always_ok E \<longleftrightarrow> (\<forall>t q. \<exists>resp. http E t q = Inr resp \<and> status_code resp = 200)"

lemma report_ok:
  assumes "always_ok E"
  shows "\<exists>resp. report_command_result E dev cid st res ec em gen t = Some (Inr True,
      t @ [HttpCall (command_result_req dev cid st res ec em gen) (Inr resp)]) \<and> status_code resp = 200"
proof -
  obtain resp where "http E t (command_result_req dev cid st res ec em gen) = Inr resp" "status_code resp = 200"
    using assms unfolding always_ok_def by blast
  then show ?thesis
    by (simp add: report_command_result_def andThen_def catching_run call_with_retry_def call_http_def
        tryExcept_def Let_def eval_nat_numeral)
qed

lemma command_result_req_status:
  "command_result_req dev cid st res ec em gen = command_result_req dev cid st' res' ec' em' gen' \<Longrightarrow> st = st'"
  by (simp add: command_result_req_def post_def command_result_body_def)

lemma report_refusing:
  assumes "always_ok E" and "refuses_after q E"
  obtains (refused) resp m where "command_result_req dev cid (status_text s) res ec em gen = q" and "status_code resp = 200"
      and "report_result E dev cid s gen res ec em a = Some (Inl (OtherException m), a\<lparr>ag_trace := ag_trace a @
        [HttpCall q (Inr resp), ReadUtc (utc_now E (ag_trace a @ [HttpCall q (Inr resp)]))]\<rparr>)"
  | (marked) resp now where "command_result_req dev cid (status_text s) res ec em gen \<noteq> q" and "status_code resp = 200"
      and "report_result E dev cid s gen res ec em a = Some (Inr (), a\<lparr>ag_trace := ag_trace a @
        [HttpCall (command_result_req dev cid (status_text s) res ec em gen) (Inr resp), ReadUtc now],
        ag_journal := mark_reported now cid (ag_journal a)\<rparr>)"
proof -
  let ?q = "command_result_req dev cid (status_text s) res ec em gen"
  obtain resp where run: "report_command_result E dev cid (status_text s) res ec em gen (ag_trace a) =
      Some (Inr True, ag_trace a @ [HttpCall ?q (Inr resp)])" "status_code resp = 200"
    using report_ok [OF assms(1)] by blast
  let ?b = "a\<lparr>ag_trace := ag_trace a @ [HttpCall ?q (Inr resp)]\<rparr>"
  have report: "report_result E dev cid s gen res ec em a = write_journal E (\<lambda>now. mark_reported now cid) ?b"
    using run(1) by (simp add: report_result_def andThen_def on_trace_run)
  show thesis
  proof (cases "?q = q")
    case True
    then have "ends_with_call q (ag_trace ?b)" by simp
    from write_refusing(2) [OF assms(2) this, of "\<lambda>now. mark_reported now cid"] obtain m where
      "write_journal E (\<lambda>now. mark_reported now cid) ?b =
        Some (Inl (OtherException m), ?b\<lparr>ag_trace := ag_trace ?b @ [ReadUtc (utc_now E (ag_trace ?b))]\<rparr>)" by blast
    with True run(2) report show thesis by (intro refused [of resp m]) simp_all
  next
    case False
    then have "\<not> ends_with_call q (ag_trace ?b)" by simp
    from write_refusing(1) [OF assms(2) this, of "\<lambda>now. mark_reported now cid"] False run(2) report show thesis
      by (intro marked [of resp "utc_now E (ag_trace ?b)"]) simp_all
  qed
qed

section \<open>The property of a refused mark\<close>

text \<open>
  C37: One refused write turns a success that Cloud has acknowledged into a failure. A handler returns a result, Cloud
  answers 200 to everything, and all the disk refuses is the write that marks the reported success:
  the exception is taken for the handler's, and in the same run Cloud is told, and acknowledges, first that the
  command succeeded and then that it failed with \<open>HANDLER_EXCEPTION\<close>, while \<open>execute\<close> ends normally, the
  row says \<open>failed\<close> without a result, and nothing is left to resend.
\<close>

theorem acknowledged_success_revoked:
  assumes "execute E H (report_result E dev) cid cmd a = Some (r, a')" and "H (operation cmd) = Some h"
    and "q = command_result_req dev cid (status_text Succeeded) result None None (placement_generation cmd)"
    and "refuses_after q E" and "always_ok E" and "\<not> ends_with_call q (ag_trace a)" and "disk_error E (ag_trace a) = None"
    and "\<And>t. \<exists>t'. h cmd t = Some (Inr (result, None, None), t') \<and> \<not> ends_with_call q t'"
  shows "r = Inr () \<and> acknowledged dev cid Succeeded result None None (placement_generation cmd) (ag_trace a') \<and>
     (\<exists>em row. acknowledged dev cid Failed None (Some ''HANDLER_EXCEPTION'') em (placement_generation cmd) (ag_trace a') \<and>
        get_entry cid (ag_journal a') = Some row \<and> holds Failed None (Some ''HANDLER_EXCEPTION'') em row \<and>
        je_reported_to_cloud row)"
  using assms(1,2)
proof (cases rule: execute_start)
  case (refused e us j)
  with assms(7) have "us \<noteq> []" by auto
  then obtain us' u where us: "us = us' @ [u]" by (metis rev_exhaust)
  with refused(4,5) have "disk_error E ((ag_trace a @ map ReadUtc us') @ [ReadUtc u]) \<noteq> None" by simp
  then have "ends_with_call q (ag_trace a @ map ReadUtc us')" using refuses_only [OF assms(4)] by blast
  with assms(6) show ?thesis by simp
next
  case (started us j now b)
  let ?gen = "placement_generation cmd"
  obtain t where t: "h cmd (ag_trace b) = Some (Inr (result, None, None), t)" "\<not> ends_with_call q t"
    using assms(8) by blast
  let ?c = "b\<lparr>ag_trace := t, ag_cache := map_option (cache_after cmd) (ag_cache b)\<rparr>"
  obtain now1 where fin: "finish_command E (report_result E dev) cid Succeeded ?gen result None None ?c =
      report_result E dev cid Succeeded ?gen result None None (?c\<lparr>ag_trace := t @ [ReadUtc now1],
        ag_journal := record_result now1 cid Succeeded result None None (ag_journal b)\<rparr>)"
    using write_refusing(1) [OF assms(4), of ?c] t(2) by (simp add: finish_command_def andThen_def)
  let ?c1 = "?c\<lparr>ag_trace := t @ [ReadUtc now1],
    ag_journal := record_result now1 cid Succeeded result None None (ag_journal b)\<rparr>"
  obtain resp m c where c: "report_result E dev cid Succeeded ?gen result None None ?c1 = Some (Inl (OtherException m), c)"
    "status_code resp = 200" "ag_journal c = record_result now1 cid Succeeded result None None (ag_journal b)"
    "\<exists>u. ag_trace c = t @ [ReadUtc now1, HttpCall q (Inr resp), ReadUtc u]"
    by (rule report_refusing [where dev = dev and cid = cid and s = Succeeded and res = result and ec = None and
        em = None and gen = ?gen and a = ?c1, OF assms(5,4)]) (use assms(3) in auto)
  let ?em = "Some (take 1000 (exc_str (OtherException m)))" and ?ec = "Some ''HANDLER_EXCEPTION''"
  have run: "finish_command E (report_result E dev) cid Failed ?gen None ?ec ?em c = Some (r, a')"
    using success_raised [where h = h, OF started(4) t(1), of "OtherException m" c] fin c(1) by simp
  let ?d = "c\<lparr>ag_trace := ag_trace c @ [ReadUtc (utc_now E (ag_trace c))],
    ag_journal := record_result (utc_now E (ag_trace c)) cid Failed None ?ec ?em (ag_journal c)\<rparr>"
  obtain u where u: "ag_trace c = t @ [ReadUtc now1, HttpCall q (Inr resp), ReadUtc u]" using c(4) by blast
  then have "\<not> ends_with_call q (ag_trace c)" using refuses_later by simp
  from write_refusing(1) [OF assms(4) this] run have last: "report_result E dev cid Failed ?gen None ?ec ?em ?d = Some (r, a')"
    by (simp add: finish_command_def andThen_def)
  have other: "command_result_req dev cid (status_text Failed) None ?ec ?em ?gen \<noteq> q"
    using command_result_req_status assms(3) by fastforce
  obtain resp' now3 where a': "r = Inr ()" "status_code resp' = 200"
    "ag_journal a' = mark_reported now3 cid (ag_journal ?d)"
    "ag_trace a' = ag_trace ?d @ [HttpCall (command_result_req dev cid (status_text Failed) None ?ec ?em ?gen) (Inr resp'), ReadUtc now3]"
    by (rule report_refusing [where dev = dev and cid = cid and s = Failed and res = None and ec = ?ec and
        em = ?em and gen = ?gen and a = ?d, OF assms(5,4)]) (use last other in auto)
  obtain qb where "get_entry cid (ag_journal b) = Some qb" using running_row [OF started(2,3)] by blast
  then have "\<exists>row. get_entry cid (ag_journal a') = Some row \<and> holds Failed None ?ec ?em row \<and> je_reported_to_cloud row"
    using a'(3) c(3) by (simp add: get_entry_reported get_entry_result)
      (simp add: set_reported_def set_result_def holds_def)
  moreover have "acknowledged dev cid Succeeded result None None ?gen (ag_trace a')"
    using a'(4) u c(2) assms(3) by (auto simp: acknowledged_def)
  moreover have "acknowledged dev cid Failed None ?ec ?em ?gen (ag_trace a')"
    using a'(2,4) by (auto simp: acknowledged_def)
  ultimately show ?thesis using a'(1) by blast
qed

text \<open>A file that is locked at the wrong moment.\<close>

definition demo_locked :: "http_request \<Rightarrow> env" where
  "demo_locked q = (demo_env JNull)\<lparr>disk_error := (\<lambda>t. case rev t of
     ReadUtc now # HttpCall q' x # _ \<Rightarrow> if q' = q then Some ''database is locked'' else None
   | _ \<Rightarrow> None)\<rparr>"

lemma demo_locked_refuses: "refuses_after q (demo_locked q)"
proof -
  have "disk_error (demo_locked q) t \<noteq> None \<longleftrightarrow> (\<exists>now x u. rev t = ReadUtc now # HttpCall q x # u)" for t
    by (auto simp: demo_locked_def split: list.splits event.splits)
  moreover have "rev t = ReadUtc now # HttpCall q x # u \<longleftrightarrow> t = rev u @ [HttpCall q x, ReadUtc now]" for t now x u
    by (metis append.assoc append_Cons append_Nil rev.simps(2) rev_rev_ident)
  ultimately show ?thesis unfolding refuses_after_def by (metis rev_rev_ident)
qed

lemma demo_locked_answers: "always_ok (demo_locked q)"
  by (simp add: always_ok_def demo_locked_def demo_env_def)

theorem acknowledged_success_revoked_witness:
  "\<exists>E q a'. execute E (main_handlers (demo_env JNull) default_config ''dev-1'') (report_result E ''dev-1'')
     ''cmd-1'' (demo_command COMMAND_OPERATION_DELETE demo_network_config) demo_agent = Some (Inr (), a') \<and>
     get_entry ''cmd-1'' (ag_journal a') = Some q \<and> je_status q = Failed \<and> je_reported_to_cloud q"
proof -
  let ?cmd = "demo_command COMMAND_OPERATION_DELETE demo_network_config"
  let ?v = "JObj [(''container_id'', JStr ''c-1''), (''status'', JStr ''Deleted'')]"
  define q where "q = command_result_req ''dev-1'' ''cmd-1'' (status_text Succeeded) (Some ?v) None None (placement_generation ?cmd)"
  have "total_proc (execute (demo_locked q) (main_handlers (demo_env JNull) default_config ''dev-1'')
      (report_result (demo_locked q) ''dev-1'') ''cmd-1'' ?cmd)"
    by (rule main_reporter.total_execute) (auto simp: total_delete_handler)
  from total_procD [OF this, of demo_agent] obtain r a' where
    run: "execute (demo_locked q) (main_handlers (demo_env JNull) default_config ''dev-1'')
      (report_result (demo_locked q) ''dev-1'') ''cmd-1'' ?cmd demo_agent = Some (r, a')" by blast
  have "\<exists>t'. delete_handler (demo_env JNull) ?cmd t = Some (Inr (Some ?v, None, None), t') \<and> \<not> ends_with_call q t'" for t
    by (simp add: delete_handler_def andThen_def catching_run done_with_def)
  note revoked = acknowledged_success_revoked [where h = "delete_handler (demo_env JNull)", OF run _ q_def
      demo_locked_refuses demo_locked_answers _ _ this]
  from revoked run show ?thesis by (auto simp: demo_agent_def holds_def demo_locked_def)
qed

end
