(* ===== verification/Spec2Isabelle.thy ===== *)
theory Spec2Isabelle
  imports Footprint Client_Properties Program Logging Placement Stream_Progress Disk_Faults
begin

text \<open>
  A model of the BrowseTerm device agent (\<open>src/device_agent\<close>) and the theorems that make it correct.

  The agent runs on a user's device. It dials Cloud on one bidirectional gRPC stream, receives commands
  (create, delete, resume, save, hibernate a container), executes each against the private Container Maker
  service, records it in a journal on disk, and reports the result over HTTP; what could not be reported is
  sent again on the stream after the next connection. A local API lets the other services of the device
  reach Cloud through the agent.

  \<^bold>\<open>How code becomes definitions.\<close> Code that may raise or never return is a procedure
  (\<open>('s, 'a) proc\<close> of \<open>Agent_Prelude\<close>): from a state to an exception or a value with the state that is left,
  \<open>None\<close> for a run that never returns. A \<open>raise\<close> is a value of \<open>py_exc\<close>, \<open>try\<close>/\<open>except\<close> is \<open>tryExcept\<close>,
  \<open>finally\<close> is \<open>ensuring\<close>. What the repository does not hold is a parameter: the record \<open>env\<close> of \<open>World\<close> (the
  stub of Container Maker and the checks of its message constructors and of the local API's, the HTTP service of Cloud, opening and closing the control channel,
  the clocks, random draws, cancellation, what the disk of the journal refuses) sees the whole trace of a run and answers the next call, so that a theorem
  about every \<open>env\<close> holds of every behaviour of the outside; \<open>k8s_env\<close> is the Kubernetes client and
  \<open>startup_env\<close> the files and the outcomes of opening and closing what \<open>run\<close> opens and closes.

  \<^bold>\<open>Which theory models what.\<close>
  \<^item> \<open>Agent_Prelude\<close>: exceptions, procedures, Python's string methods, lemma collections, the locale of
    forward simulations. \<open>Json\<close>: \<open>json.loads\<close>, \<open>json.dumps\<close>, \<open>repr\<close>, lookups. \<open>Base64\<close>: \<open>base64.b64decode\<close>.
  \<^item> \<open>World\<close>: the outside, the trace, the command message, \<open>commands/_util.py\<close>. \<open>Configuration\<close>: \<open>config.py\<close>
    with \<open>int\<close> and \<open>float\<close> of texts, and the addresses and credentials built from the settings.
  \<^item> \<open>Retry\<close>: \<open>clients/retry.py\<close>. \<open>Cloud_Client\<close>: \<open>clients/cloud_client.py\<close>. \<open>Container_Maker\<close>:
    \<open>clients/container_maker_client.py\<close>. \<open>K8s_Secrets\<close>: \<open>clients/k8s_secrets.py\<close>.
  \<^item> \<open>Journal\<close>: \<open>state/command_journal.py\<close>, the table as the list of its rows in insertion order.
    \<open>Placement_Cache\<close>: \<open>state/placement_cache.py\<close>.
  \<^item> \<open>Save_Execution\<close> and \<open>Handlers\<close>: \<open>commands/save_execution.py\<close> and the five handlers that \<open>make_handler\<close>
    returns in \<open>commands/\<close>. \<open>Executor\<close>: \<open>commands/executor.py\<close>.
  \<^item> \<open>Agent_State\<close>: the state of a process: journal, cache, outbound queue, pending resends, stop flag,
    trace. \<open>Control_Stream\<close>: \<open>ConnectionManager\<close> of \<open>control/grpc_client.py\<close>; \<open>Stream_Steps\<close>: one connection of
    it as a step relation; \<open>Sessions\<close>: \<open>_connect_once\<close> whole, its generator as a program that makes exactly these
    steps, how far \<open>run_forever\<close> gets, and that the composed loop is a run of \<open>agent_line\<close> (\<open>run_forever_on_line\<close>). \<open>Backoff\<close>: \<open>control/backoff.py\<close>.
  \<^item> \<open>Local_Api\<close>: \<open>local_api/service.py\<close>. \<open>Logging\<close>: \<open>observability/logging_setup.py\<close>.
  \<^item> \<open>Wiring\<close>: the closures and registrations of \<open>run\<close> in \<open>main.py\<close>; \<open>Startup\<close>: \<open>run\<close> itself, and the module
    as a program; \<open>Program\<close>: all of it composed, from the environment variables to the handlers.
  \<^item> \<open>Delivery\<close>, \<open>Lifecycle\<close>, \<open>Accounting\<close> and \<open>Footprint\<close>: the agent as a whole. \<open>receive\<close> is an inbound message with the
    callback of \<open>main.py\<close>, \<open>agent_step\<close> a step of the process (kills and restarts included), \<open>agent_line\<close> the
    same with the connections and what is sent on them; \<open>Footprint\<close> shows that a whole execution is made of
    the writes and calls that these run one by one. \<open>Placement\<close>: the executor, the cache and the local API
    together. \<open>Stream_Progress\<close>: fair infinite runs of a connection. \<open>Disk_Faults\<close>: one refused write.
    \<open>Agent_Traces\<close>: that every procedure of the agent only appends to the trace.
    \<open>Demo_World\<close>: a concrete outside for witnesses.

  \<^bold>\<open>The interfaces.\<close> \<open>retry_policy\<close> (what a client wants of its retry predicate; three
  interpretations), \<open>json_codec\<close>, \<open>uniform_source\<close>, \<open>journal_store\<close>, \<open>placement_store\<close>, \<open>result_reporter\<close> (what
  the executor relies on in the callback it is given) with its extension \<open>reporter_invariant\<close>, and
  \<open>forward_simulation\<close>. Each is interpreted by the definitions of the component that provides it.

  \<^bold>\<open>What the theorems show.\<close>
  \<^item> The life of a command. It is journalled and acknowledged before it runs, runs at most once to an end,
    keeps the outcome it first got through redelivery, reconnection and restart, and its result is either
    known to Cloud or still to be sent (\<open>executed_once\<close>, \<open>outcome_is_final\<close>, \<open>acknowledged_or_resent\<close>,
    \<open>no_result_lost\<close>, under the two conditions it names); the agent refines an abstract machine of commands (\<open>agent_refines_lifecycle\<close>), and so does the composed
    reconnect loop (\<open>run_forever_refines_lifecycle\<close>). These hold whatever the disk refuses; \<open>acknowledged_success_revoked\<close> is what one failed write can do.
  \<^item> The handlers. Without \<open>skip_save\<close> no container is deleted by a hibernate before Cloud has confirmed its image; a resume
    is a create from the saved image; errors keep the image they would otherwise lose; saving ends.
  \<^item> The clients. Every run of a call with retries, event by event; which calls are sent again, and after
    what; what a code of Cloud's answer becomes for the caller of the local API.
  \<^item> The stream. Hello first, then the resends, then the queue; what a confirmation covers; the race in
    which it covers too much (\<open>results_can_be_lost\<close>); on a connection that stays up everything goes out
    (\<open>everything_goes_out\<close>); reconnecting never gives up (\<open>keeps_reconnecting\<close>), its delays are bounded, and it
    never has two channels open (\<open>one_channel_at_a_time\<close>).
  \<^item> The parts around it: the secret is fetched once and read back byte for byte, a log record is one line
    that \<open>json.loads\<close> reads back, a started agent serves until it is interrupted, closes what it opened and presents one identity on both of its channels to
    Cloud, the journal file is upgraded without loss, the settings have their defaults.

  \<^bold>\<open>Bounds and fuel.\<close> Strings are lists of code points below 256. Python's \<open>int\<close> is \<open>int\<close>, with the limit
  on digits in \<open>int(str)\<close> only. A \<open>float\<close> the code computes with is an exact rational, and a \<open>float\<close> in a JSON
  document is its text; round trips hold of every such text that \<open>json.dumps\<close> prints. Loops without a bound in the
  code (\<open>poll_loop\<close>, \<open>run_forever\<close>, \<open>heartbeats\<close>, \<open>play_script\<close>) are \<open>partial_function (option)\<close>, with theorems that they
  return where they do: \<open>perform_save_terminates\<close> gives the number of polls, one more than the timeout holds
  intervals. \<open>parse_value\<close> and \<open>parse_str\<close> of \<open>Json\<close> have fuel, the length of the text and more, and the round
  trip lemma shows that it is enough for what \<open>json_dumps\<close> prints.

  \<^bold>\<open>Not modelled.\<close> Threads and the locks of the journal and of the cache (all callers run in one event loop);
  a write that SQLite commits and then fails. The type checks of generated protobuf constructors are parameters where
  their values come from Cloud or from a command's configuration. gRPC, httpx and the kubernetes client are
  parameters; that an \<open>UNAVAILABLE\<close> call was not processed, as the source supposes, is not assumed. How UUIDs are
  minted and the clock of log records are parameters. \<open>agent_step\<close> and \<open>agent_line\<close> execute a command in one
  step or write by write with everything else in between. In \<open>agent_step\<close> a result that overwrites another
  (\<open>success_overwritten\<close>) follows it at once; in \<open>agent_line\<close> it may come at any later time that a parameter allows,
  and another parameter says when Cloud may send what. \<open>no_result_lost\<close> excludes by them the race of
  \<open>results_can_be_lost\<close> and the overwriting of a result that is being resent, which the code does not.
  The type of a \<open>save\<close> error that is a list is refused where it is clipped, not where SQLite would refuse it (\<open>clipped_error\<close>).
  \<open>stream_step\<close> has the race of \<open>results_can_be_lost\<close>, with an execution approximated by any writes and messages; so has \<open>talk_step\<close>, which
  runs an execution whole or write by write. What gRPC makes of a generator that raised (\<open>Broken\<close>) is left to
  the environment, which may end the call then or later.
\<close>

end
